(* ===== verification/Prelude.thy ===== *)
theory Prelude
  imports Main "HOL-Library.Word" "HOL-Library.Monad_Syntax" "HOL-Library.Sublist"
begin

text \<open>
  Shared vocabulary of the development.

  The C sources work on bytes, NUL terminated strings and fixed width integers. A block of
  memory is a list of \<^typ>\<open>char\<close> (a \<^typ>\<open>char\<close> of HOL is an 8 bit value); a C string passed
  around as a path or a key is the list of its characters without the terminator; \<open>uint32_t\<close>
  and \<open>uint64_t\<close> are machine words.

  A C function that can run into undefined behaviour (an access outside a block, a NULL
  pointer, a value that was never set) or that can fail to return is a function into
  \<open>option\<close>: \<open>None\<close> says that the call does not return normally. State is passed explicitly.

  The theory also holds the pieces of the C library the sources call: \<open>strlen\<close> and \<open>strcpy\<close> on
  blocks, \<open>atoi\<close>, the \<open>%d\<close> conversion of \<open>sprintf\<close>, \<open>sprintf\<close> into a block of fixed size, and
  \<open>fgets\<close>.
\<close>

unbundle bit_operations_syntax

named_theorems c_lib \<open>definitions of the C library operations\<close>
named_theorems c_consts \<open>the constants of the sources' #define lines\<close>

subsection \<open>Types and undefined behaviour\<close>

type_synonym u32 = "32 word"
type_synonym u64 = "64 word"
type_synonym bytes = "char list"
type_synonym path = string

abbreviation NUL :: char where "NUL \<equiv> CHR 0x00"

definition guard :: "bool \<Rightarrow> unit option" where
  "guard b = (if b then Some () else None)"

lemma guard_simps [simp]: "guard True = Some ()" "guard False = None"
  by (simp_all add: guard_def)

lemma guard_eq_Some [simp]: "guard b = Some u \<longleftrightarrow> b"
  by (simp add: guard_def)

lemma guard_eq_None [simp]: "guard b = None \<longleftrightarrow> \<not> b"
  by (simp add: guard_def)

lemma guard_bind [simp]: "guard b \<bind> f = (if b then f () else None)"
  by (simp add: guard_def)

text \<open>
  Loops that need not end take fuel and give \<open>None\<close> when it runs out. \<open>opt_le\<close> says that a run
  which returns still returns the same with more fuel; the rules walk through the definition of
  a function in the order of its statements.
\<close>

definition opt_le :: "'a option \<Rightarrow> 'a option \<Rightarrow> bool" where
  "opt_le a b \<longleftrightarrow> (\<forall>r. a = Some r \<longrightarrow> b = Some r)"

named_theorems opt_le_intros \<open>monotonicity of the statements of the model\<close>

lemma opt_le_None [opt_le_intros]: "opt_le None b"
  by (simp add: opt_le_def)

lemma opt_le_refl [opt_le_intros]: "opt_le a a"
  by (simp add: opt_le_def)

lemma opt_le_bind [opt_le_intros]:
  "opt_le a b \<Longrightarrow> (\<And>x. opt_le (f x) (g x)) \<Longrightarrow> opt_le (a \<bind> f) (b \<bind> g)"
  by (cases a) (auto simp: opt_le_def)

lemma opt_le_if [opt_le_intros]:
  "(b \<Longrightarrow> opt_le x x') \<Longrightarrow> (\<not> b \<Longrightarrow> opt_le y y') \<Longrightarrow> opt_le (if b then x else y) (if b then x' else y')"
  by simp

lemma opt_le_case_option [opt_le_intros]:
  "opt_le x x' \<Longrightarrow> (\<And>a. opt_le (y a) (y' a)) \<Longrightarrow>
   opt_le (case o' of None \<Rightarrow> x | Some a \<Rightarrow> y a) (case o' of None \<Rightarrow> x' | Some a \<Rightarrow> y' a)"
  by (cases o') auto

lemma opt_le_case_prod [opt_le_intros]:
  "(\<And>a b. opt_le (f a b) (g a b)) \<Longrightarrow> opt_le (case q of (a, b) \<Rightarrow> f a b) (case q of (a, b) \<Rightarrow> g a b)"
  by (cases q) auto

lemma opt_le_Let [opt_le_intros]: "(\<And>x. opt_le (f x) (g x)) \<Longrightarrow> opt_le (Let a f) (Let a g)"
  by (simp add: Let_def)

lemma opt_leD: "opt_le a b \<Longrightarrow> a = Some r \<Longrightarrow> b = Some r"
  by (simp add: opt_le_def)

text \<open>
  \<open>lands P m\<close>: if the statement \<open>m\<close> returns, the state it leaves satisfies \<open>P\<close>. With \<open>P\<close> fixing the
  value of a field the rules show that a function leaves the field alone.
\<close>

definition lands :: "('s \<Rightarrow> bool) \<Rightarrow> ('a \<times> 's) option \<Rightarrow> bool" where
  "lands P m \<longleftrightarrow> (\<forall>r s. m = Some (r, s) \<longrightarrow> P s)"

named_theorems lands_intros \<open>rules for the states a statement can leave\<close>

lemma lands_Some [lands_intros]: "P s \<Longrightarrow> lands P (Some (r, s))"
  by (simp add: lands_def)

lemma lands_None [lands_intros]: "lands P None"
  by (simp add: lands_def)

lemma lands_if [lands_intros]: "(b \<Longrightarrow> lands P x) \<Longrightarrow> (\<not> b \<Longrightarrow> lands P y) \<Longrightarrow> lands P (if b then x else y)"
  by simp

lemma lands_case_option [lands_intros]:
  "(o' = None \<Longrightarrow> lands P x) \<Longrightarrow> (\<And>a. o' = Some a \<Longrightarrow> lands P (y a)) \<Longrightarrow> lands P (case o' of None \<Rightarrow> x | Some a \<Rightarrow> y a)"
  by (cases o') auto

lemma lands_case_prod [lands_intros]: "(\<And>a b. q = (a, b) \<Longrightarrow> lands P (f a b)) \<Longrightarrow> lands P (case q of (a, b) \<Rightarrow> f a b)"
  by (cases q) auto

lemma lands_case_prod_app [lands_intros]:
  "(\<And>a b. q = (a, b) \<Longrightarrow> lands P (f a b t)) \<Longrightarrow> lands P ((case q of (a, b) \<Rightarrow> f a b) t)"
  by (cases q) auto

lemma lands_Let [lands_intros]: "lands P (f a) \<Longrightarrow> lands P (Let a f)"
  by (simp add: Let_def)

lemma lands_bind [lands_intros]:
  "lands P m \<Longrightarrow> (\<And>r s. P s \<Longrightarrow> lands P (f r s)) \<Longrightarrow> lands P (m \<bind> (\<lambda>(r, s). f r s))"
  by (cases m) (auto simp: lands_def)

lemma landsD: "lands P m \<Longrightarrow> m = Some (r, s) \<Longrightarrow> P s"
  by (simp add: lands_def)

text \<open>The same for a statement with no result but the state.\<close>

definition arrives :: "('s \<Rightarrow> bool) \<Rightarrow> 's option \<Rightarrow> bool" where
  "arrives P m \<longleftrightarrow> (\<forall>s. m = Some s \<longrightarrow> P s)"

lemma arrives_Some [lands_intros]: "P s \<Longrightarrow> arrives P (Some s)"
  by (simp add: arrives_def)

lemma arrives_None [lands_intros]: "arrives P None"
  by (simp add: arrives_def)

lemma arrives_if [lands_intros]: "(b \<Longrightarrow> arrives P x) \<Longrightarrow> (\<not> b \<Longrightarrow> arrives P y) \<Longrightarrow> arrives P (if b then x else y)"
  by simp

lemma arrives_case_option [lands_intros]:
  "(o' = None \<Longrightarrow> arrives P x) \<Longrightarrow> (\<And>a. o' = Some a \<Longrightarrow> arrives P (y a)) \<Longrightarrow> arrives P (case o' of None \<Rightarrow> x | Some a \<Rightarrow> y a)"
  by (cases o') auto

lemma arrives_case_prod [lands_intros]: "(\<And>a b. q = (a, b) \<Longrightarrow> arrives P (f a b)) \<Longrightarrow> arrives P (case q of (a, b) \<Rightarrow> f a b)"
  by (cases q) auto

lemma arrives_Let [lands_intros]: "arrives P (f a) \<Longrightarrow> arrives P (Let a f)"
  by (simp add: Let_def)

lemma arrives_bind [lands_intros]:
  "lands P m \<Longrightarrow> (\<And>r s. P s \<Longrightarrow> arrives P (f r s)) \<Longrightarrow> arrives P (m \<bind> (\<lambda>(r, s). f r s))"
  by (cases m) (auto simp: lands_def arrives_def)

lemma arrives_then [lands_intros]:
  "arrives P m \<Longrightarrow> (\<And>s. P s \<Longrightarrow> arrives P (f s)) \<Longrightarrow> arrives P (m \<bind> f)"
  by (cases m) (auto simp: arrives_def)

lemma lands_then [lands_intros]:
  "arrives P m \<Longrightarrow> (\<And>s. P s \<Longrightarrow> lands P (f s)) \<Longrightarrow> lands P (m \<bind> f)"
  by (cases m) (auto simp: arrives_def lands_def)

lemma lands_map [lands_intros]: "arrives P m \<Longrightarrow> lands P (map_option (\<lambda>s. (r, s)) m)"
  by (cases m) (auto simp: arrives_def lands_def)

lemma lands_map_result [lands_intros]: "lands P m \<Longrightarrow> lands P (map_option (\<lambda>(r, s). (g r, s)) m)"
  by (cases m) (auto simp: lands_def)

text \<open>A statement that does not touch the state; these rules come last.\<close>

lemma lands_pure [lands_intros]: "(\<And>x. m = Some x \<Longrightarrow> lands P (f x)) \<Longrightarrow> lands P (m \<bind> f)"
  by (cases m) (auto simp: lands_def)

lemma arrives_pure [lands_intros]: "(\<And>x. m = Some x \<Longrightarrow> arrives P (f x)) \<Longrightarrow> arrives P (m \<bind> f)"
  by (cases m) (auto simp: arrives_def)

lemma arrivesD: "arrives P m \<Longrightarrow> m = Some s \<Longrightarrow> P s"
  by (simp add: arrives_def)

subsection \<open>C strings in blocks of memory\<close>

text \<open>
  The string that starts at the beginning of a block: undefined when no NUL byte ends it
  inside the block (\<open>strlen\<close> and \<open>strcpy\<close> would read past the block).
\<close>

definition cstr :: "bytes \<Rightarrow> string option" where
  [c_lib]: "cstr b = (if NUL \<in> set b then Some (takeWhile (\<lambda>c. c \<noteq> NUL) b) else None)"

lemma cstr_no_NUL: "cstr b = Some s \<Longrightarrow> NUL \<notin> set s"
  by (auto simp: cstr_def split: if_splits dest: set_takeWhileD)

lemma takeWhile_NUL: "NUL \<notin> set s \<Longrightarrow> takeWhile (\<lambda>c. c \<noteq> NUL) (s @ NUL # r) = s"
  by (induction s) auto

lemma cstr_append_NUL [simp]: "NUL \<notin> set s \<Longrightarrow> cstr (s @ NUL # r) = Some s"
  by (simp add: cstr_def takeWhile_NUL)

lemma cstr_prefix:
  assumes "cstr b = Some s" shows "\<exists>r. b = s @ NUL # r"
proof -
  from assms have n: "NUL \<in> set b" and s: "s = takeWhile (\<lambda>c. c \<noteq> NUL) b"
    by (auto simp: cstr_def split: if_splits)
  from n have "dropWhile (\<lambda>c. c \<noteq> NUL) b \<noteq> []" by (auto simp: dropWhile_eq_Nil_conv)
  then obtain x r where d: "dropWhile (\<lambda>c. c \<noteq> NUL) b = x # r" by (cases "dropWhile (\<lambda>c. c \<noteq> NUL) b") auto
  then have "x = NUL" using hd_dropWhile [of "\<lambda>c. c \<noteq> NUL" b] by simp
  with d s show ?thesis using takeWhile_dropWhile_id [of "\<lambda>c. c \<noteq> NUL" b] by metis
qed

text \<open>\<open>memcpy (dst + off, src, n)\<close>: both ranges must lie inside their blocks.\<close>

definition memcpy :: "bytes \<Rightarrow> nat \<Rightarrow> bytes \<Rightarrow> nat \<Rightarrow> bytes option" where
  [c_lib]: "memcpy dst off src n =
     (if off + n \<le> length dst \<and> n \<le> length src
      then Some (take off dst @ take n src @ drop (off + n) dst) else None)"

lemma length_memcpy: "memcpy dst off src n = Some b \<Longrightarrow> length b = length dst"
  by (auto simp: memcpy_def split: if_splits)

text \<open>Storing one byte, \<open>b[i] = c\<close>.\<close>

definition poke :: "bytes \<Rightarrow> nat \<Rightarrow> char \<Rightarrow> bytes option" where
  [c_lib]: "poke b i c = (if i < length b then Some (b[i := c]) else None)"

text \<open>\<open>sprintf\<close> into a block of \<open>n\<close> bytes: the text and its terminator must fit.\<close>

definition sprintf_buf :: "nat \<Rightarrow> string \<Rightarrow> string option" where
  [c_lib]: "sprintf_buf n s = (if length s < n then Some s else None)"

subsection \<open>Decimal numbers\<close>

definition digit_char :: "nat \<Rightarrow> char" where
  "digit_char d = char_of (48 + d)"

definition digit_val :: "char \<Rightarrow> nat" where
  "digit_val c = of_char c - 48"

definition isdigit :: "char \<Rightarrow> bool" where
  "isdigit c \<longleftrightarrow> 48 \<le> (of_char c :: nat) \<and> (of_char c :: nat) \<le> 57"

fun show_nat :: "nat \<Rightarrow> string" where
  "show_nat n = (if n < 10 then [digit_char n] else show_nat (n div 10) @ [digit_char (n mod 10)])"

declare show_nat.simps [simp del]

text \<open>The \<open>%d\<close> conversion.\<close>

definition show_int :: "int \<Rightarrow> string" where
  "show_int i = (if i < 0 then CHR ''-'' # show_nat (nat (- i)) else show_nat (nat i))"

definition digits_val :: "string \<Rightarrow> nat" where
  "digits_val = foldl (\<lambda>a c. 10 * a + digit_val c) 0"

definition isspace :: "char \<Rightarrow> bool" where
  "isspace c \<longleftrightarrow> c = CHR '' '' \<or> (9 \<le> (of_char c :: nat) \<and> (of_char c :: nat) \<le> 13)"

definition atoi :: "string \<Rightarrow> int" where
  "atoi s =
     (case dropWhile isspace s of
        [] \<Rightarrow> 0
      | c # r \<Rightarrow> if c = CHR ''-'' then - int (digits_val (takeWhile isdigit r))
                 else if c = CHR ''+'' then int (digits_val (takeWhile isdigit r))
                 else int (digits_val (takeWhile isdigit (c # r))))"

lemma of_char_digit_char [simp]: "d < 10 \<Longrightarrow> (of_char (digit_char d) :: nat) = 48 + d"
  by (simp add: digit_char_def)

lemma digit_val_digit_char [simp]: "d < 10 \<Longrightarrow> digit_val (digit_char d) = d"
  by (simp add: digit_val_def)

lemma isdigit_digit_char [simp]: "d < 10 \<Longrightarrow> isdigit (digit_char d)"
  by (simp add: isdigit_def)

lemma show_nat_digits: "c \<in> set (show_nat n) \<Longrightarrow> isdigit c"
proof (induction n rule: show_nat.induct)
  case (1 n)
  then show ?case
    by (subst (asm) (2) show_nat.simps) (auto split: if_splits)
qed

lemma show_nat_neq_Nil [simp]: "show_nat n \<noteq> []"
  by (subst show_nat.simps) simp

lemma digits_val_snoc: "digits_val (s @ [c]) = 10 * digits_val s + digit_val c"
  by (simp add: digits_val_def)

lemma digits_val_show_nat [simp]: "digits_val (show_nat n) = n"
proof (induction n rule: show_nat.induct)
  case (1 n)
  show ?case
  proof (cases "n < 10")
    case True
    then show ?thesis by (subst show_nat.simps) (simp add: digits_val_def)
  next
    case False
    with 1 have "digits_val (show_nat (n div 10)) = n div 10" by simp
    with False show ?thesis by (subst show_nat.simps) (simp add: digits_val_snoc)
  qed
qed

lemma length_show_nat: "n < 10 ^ k \<Longrightarrow> 0 < k \<Longrightarrow> length (show_nat n) \<le> k"
proof (induction k arbitrary: n)
  case 0
  then show ?case by simp
next
  case (Suc k)
  show ?case
  proof (cases "n < 10")
    case True
    then show ?thesis by (subst show_nat.simps) simp
  next
    case False
    with Suc.prems have k: "0 < k" by (cases k) auto
    from Suc.prems have "n div 10 < 10 ^ k" by (simp add: less_mult_imp_div_less mult.commute)
    with Suc.IH k have "length (show_nat (n div 10)) \<le> k" by blast
    with False show ?thesis by (subst show_nat.simps) simp
  qed
qed

definition no_digit_first :: "string \<Rightarrow> bool" where
  "no_digit_first r \<longleftrightarrow> (case r of [] \<Rightarrow> True | c # _ \<Rightarrow> \<not> isdigit c)"

lemma takeWhile_isdigit_show_nat:
  "no_digit_first r \<Longrightarrow> takeWhile isdigit (show_nat n @ r) = show_nat n"
  by (auto simp: no_digit_first_def takeWhile_append2 show_nat_digits split: list.splits)

lemma isdigit_not_special:
  assumes "isdigit c" shows "\<not> isspace c" "c \<noteq> CHR ''-''" "c \<noteq> CHR ''+''"
  using assms by (auto simp: isdigit_def isspace_def)

text \<open>What \<open>sprintf "%d"\<close> prints, \<open>atoi\<close> reads back, whatever follows the digits.\<close>

lemma atoi_show_int:
  assumes "no_digit_first r" shows "atoi (show_int i @ r) = i"
proof (cases "i < 0")
  case True
  then show ?thesis
    using takeWhile_isdigit_show_nat [OF assms, of "nat (- i)"]
    by (simp add: atoi_def show_int_def isspace_def)
next
  case False
  obtain c s where cs: "show_nat (nat i) = c # s" by (cases "show_nat (nat i)") auto
  then have d: "isdigit c" using show_nat_digits [of c "nat i"] by simp
  have "takeWhile isdigit (c # s @ r) = c # s"
    using takeWhile_isdigit_show_nat [OF assms, of "nat i"] cs by simp
  moreover have "digits_val (c # s) = nat i" using digits_val_show_nat [of "nat i"] cs by simp
  ultimately show ?thesis
    using False d isdigit_not_special [OF d] cs by (simp add: atoi_def show_int_def)
qed

lemma atoi_show_int_Nil [simp]: "atoi (show_int i) = i"
  using atoi_show_int [of "[]" i] by (simp add: no_digit_first_def)

lemma show_int_chars: "c \<in> set (show_int i) \<Longrightarrow> isdigit c \<or> c = CHR ''-''"
  by (auto simp: show_int_def dest: show_nat_digits split: if_splits)

lemma isdigit_char_neq:
  "isdigit c \<Longrightarrow> c \<noteq> CHR '':''" "isdigit c \<Longrightarrow> c \<noteq> CHR ''/''" "isdigit c \<Longrightarrow> c \<noteq> CHR ''|''" "isdigit c \<Longrightarrow> c \<noteq> NUL"
  by (auto simp: isdigit_def)

subsection \<open>Reading a text file\<close>

text \<open>
  \<open>fgets (buf, n, fp)\<close> on what is left of the file: at most \<open>n - 1\<close> characters, up to and with
  the first newline; NULL at the end of the file. The rest of the file comes back too.
\<close>

fun fgets_aux :: "nat \<Rightarrow> string \<Rightarrow> string \<times> string" where
  "fgets_aux 0 s = ([], s)"
| "fgets_aux (Suc n) [] = ([], [])"
| "fgets_aux (Suc n) (c # s) =
     (if c = CHR 0x0A then ([c], s) else (let (l, r) = fgets_aux n s in (c # l, r)))"

definition fgets :: "nat \<Rightarrow> string \<Rightarrow> (string \<times> string) option" where
  [c_lib]: "fgets n s = (if s = [] then None else Some (fgets_aux (n - 1) s))"

lemma fgets_aux_append: "fgets_aux n s = (l, r) \<Longrightarrow> s = l @ r \<and> length l \<le> n"
  by (induction n s arbitrary: l r rule: fgets_aux.induct) (auto split: if_splits prod.splits)

lemma fgets_aux_progress: "fgets_aux (Suc n) (c # s) = (l, r) \<Longrightarrow> length r < Suc (length s)"
  by (auto split: if_splits prod.splits dest!: fgets_aux_append)

lemma fgets_progress:
  assumes "fgets n s = Some (l, r)" "1 < n" shows "length r < length s"
proof -
  obtain m where m: "n - 1 = Suc m" using assms(2) by (cases "n - 1") auto
  from assms(1) obtain c s' where "s = c # s'" by (cases s) (auto simp: fgets_def)
  with assms m show ?thesis using fgets_aux_progress [of m c s' l r] by (simp add: fgets_def)
qed

subsection \<open>Sizes far below the word length\<close>

lemma unat_small: "n < 2 ^ 31 \<Longrightarrow> unat (of_nat n :: u64) = n" "n < 2 ^ 31 \<Longrightarrow> unat (of_nat n :: u32) = n"
  by (simp_all add: unsigned_of_nat take_bit_nat_eq_self)

lemma small_add: "(of_nat n + of_nat m :: u64) = of_nat (n + m)"
  by simp

lemma small_less: "n < 2 ^ 31 \<Longrightarrow> m < 2 ^ 31 \<Longrightarrow> ((of_nat n :: u64) < of_nat m) \<longleftrightarrow> n < m"
  by (simp add: word_less_nat_alt unsigned_of_nat take_bit_nat_eq_self)

lemma small_eq: "n < 2 ^ 31 \<Longrightarrow> m < 2 ^ 31 \<Longrightarrow> ((of_nat n :: u64) = of_nat m) \<longleftrightarrow> n = m"
  by (simp add: word_unat_eq_iff unsigned_of_nat take_bit_nat_eq_self)

lemma small_up: "n < 2 ^ 31 \<Longrightarrow> (ucast (of_nat n :: u32) :: u64) = of_nat n"
  by (simp add: word_unat_eq_iff unsigned_ucast_eq unsigned_of_nat take_bit_nat_eq_self)

lemma small_down: "(ucast (of_nat n :: u64) :: u32) = of_nat n"
  by (simp add: word_unat_eq_iff unsigned_ucast_eq unsigned_of_nat)

lemma small_diff: "m \<le> n \<Longrightarrow> (of_nat n - of_nat m :: u64) = of_nat (n - m)"
  by (simp add: of_nat_diff)

lemma small_sint: "n < 2 ^ 31 \<Longrightarrow> sint (of_nat n :: u64) = int n"
  by (simp add: sint_uint unsigned_of_nat take_bit_nat_eq_self signed_take_bit_int_eq_self)

lemma small_size: "n < 2 ^ 31 \<Longrightarrow> word_of_int (int n) = (of_nat n :: u32)"
  by simp

end
