(* ===== verification/Environment.thy ===== *)
theory Environment
  imports Prelude
begin

text \<open>
  What the sources call but do not contain: libmemcached, libzmq and the operating system with
  the distributed file system below it. The record \<open>ext\<close> holds one operation per call; every
  definition of the development that makes such a call takes the record as an argument and
  threads the state \<open>'e\<close> of the outside world through the calls. Nothing is fixed about the
  operations here, so a definition covers every behaviour of the environment, the interference
  of other clients between two calls included.

  A memcached cluster is named by the list of its server addresses (what \<open>memc_new\<close> pushes into
  the handle), so that two handles opened from the same configuration reach the same items. A
  value comes back from \<open>memcached_get\<close> as the block of memory the library allocated for it. A
  directory stream is the list of the entries that the calls of \<open>readdir\<close> yield until NULL.
  \<open>c_shmget\<close> and \<open>c_shmat\<close> say whether a segment of shared memory could be attached.
  \<open>c_indet\<close> and \<open>c_indet_block\<close> give the contents of a variable or a block on the stack that the
  program never wrote; \<open>c_stack_pad\<close> is the number of bytes the compiler leaves unused behind a
  struct on the stack.

  The locales \<open>memcached_service\<close>, \<open>roomy_memcached\<close> and \<open>message_log\<close> state the documented
  behaviour that the theorems rely on; \<open>Reference_Env\<close> gives an environment that has it.
\<close>

subsection \<open>The operations\<close>

datatype memcached_return_t =
    MEMCACHED_SUCCESS | MEMCACHED_DATA_EXISTS | MEMCACHED_NOTSTORED | MEMCACHED_NOTFOUND
  | MEMCACHED_MEMORY_ALLOCATION_FAILURE | MEMCACHED_TIMEOUT | MEMCACHED_OTHER nat

type_synonym memcached_st = "string list"

text \<open>The fields of \<open>struct stat\<close> that the sources read, and an entry of a directory stream.\<close>

record stat =
  st_mode :: u32
  st_ctime :: u64
  st_atime :: u64
  st_mtime :: u64
  st_size :: u64
  st_uid :: u32
  st_gid :: u32
  st_nlink :: u64

record dirent =
  d_name :: string
  d_isdir :: bool

definition S_ISDIR :: "u32 \<Rightarrow> bool" where
  "S_ISDIR m \<longleftrightarrow> m AND 0xF000 = 0x4000"

record 'e ext =
  memcached_create :: "'e \<Rightarrow> bool \<times> 'e"
  memcached_set :: "memcached_st \<Rightarrow> string \<Rightarrow> bytes \<Rightarrow> 'e \<Rightarrow> memcached_return_t \<times> 'e"
  memcached_add :: "memcached_st \<Rightarrow> string \<Rightarrow> bytes \<Rightarrow> 'e \<Rightarrow> memcached_return_t \<times> 'e"
  memcached_cas :: "memcached_st \<Rightarrow> string \<Rightarrow> bytes \<Rightarrow> u64 \<Rightarrow> 'e \<Rightarrow> memcached_return_t \<times> 'e"
  memcached_get :: "memcached_st \<Rightarrow> string \<Rightarrow> 'e \<Rightarrow> (memcached_return_t \<times> bytes \<times> u64) \<times> 'e"
  memcached_delete :: "memcached_st \<Rightarrow> string \<Rightarrow> 'e \<Rightarrow> memcached_return_t \<times> 'e"
  c_stat :: "path \<Rightarrow> 'e \<Rightarrow> stat option \<times> 'e"
  c_open :: "path \<Rightarrow> u32 \<Rightarrow> u32 \<Rightarrow> 'e \<Rightarrow> int \<times> 'e"
  c_creat :: "path \<Rightarrow> u32 \<Rightarrow> 'e \<Rightarrow> int \<times> 'e"
  c_mkdir :: "path \<Rightarrow> u32 \<Rightarrow> 'e \<Rightarrow> int \<times> 'e"
  c_remove :: "path \<Rightarrow> 'e \<Rightarrow> int \<times> 'e"
  c_rmdir :: "path \<Rightarrow> 'e \<Rightarrow> int \<times> 'e"
  c_rename :: "path \<Rightarrow> path \<Rightarrow> 'e \<Rightarrow> int \<times> 'e"
  c_opendir :: "path \<Rightarrow> 'e \<Rightarrow> dirent list option \<times> 'e"
  c_pread :: "int \<Rightarrow> u64 \<Rightarrow> u64 \<Rightarrow> 'e \<Rightarrow> (int \<times> bytes) \<times> 'e"
  c_pwrite :: "int \<Rightarrow> bytes \<Rightarrow> u64 \<Rightarrow> 'e \<Rightarrow> int \<times> 'e"
  c_write :: "int \<Rightarrow> bytes \<Rightarrow> 'e \<Rightarrow> int \<times> 'e"
  c_fsync :: "int \<Rightarrow> 'e \<Rightarrow> int \<times> 'e"
  c_close :: "int \<Rightarrow> 'e \<Rightarrow> int \<times> 'e"
  c_access :: "path \<Rightarrow> 'e \<Rightarrow> int \<times> 'e"
  c_system :: "string \<Rightarrow> 'e \<Rightarrow> int \<times> 'e"
  c_fopen :: "path \<Rightarrow> 'e \<Rightarrow> string option \<times> 'e"
  c_time :: "'e \<Rightarrow> u32 \<times> 'e"
  c_getuid :: "'e \<Rightarrow> u32 \<times> 'e"
  c_getgid :: "'e \<Rightarrow> u32 \<times> 'e"
  c_getpid :: "'e \<Rightarrow> int \<times> 'e"
  zmq_connect :: "string \<Rightarrow> 'e \<Rightarrow> (int \<times> nat) \<times> 'e"
  zmq_bind :: "string \<Rightarrow> 'e \<Rightarrow> (int \<times> nat) \<times> 'e"
  zmq_send :: "nat \<Rightarrow> bytes \<Rightarrow> 'e \<Rightarrow> int \<times> 'e"
  zmq_recv :: "nat \<Rightarrow> nat \<Rightarrow> 'e \<Rightarrow> (int \<times> bytes) \<times> 'e"
  c_shmget :: "int \<Rightarrow> 'e \<Rightarrow> int \<times> 'e"
  c_shmat :: "int \<Rightarrow> 'e \<Rightarrow> bool \<times> 'e"
  c_indet :: "'e \<Rightarrow> u32 \<times> 'e"
  c_indet_block :: "nat \<Rightarrow> 'e \<Rightarrow> bytes \<times> 'e"
  c_stack_pad :: nat

text \<open>
  Every process state of the model extends \<open>world\<close>, which holds the state of the environment.
\<close>

record 'e world =
  env :: 'e

definition ext_call ::
  "('e \<Rightarrow> 'a \<times> 'e) \<Rightarrow> ('e, 'z) world_scheme \<Rightarrow> ('a \<times> ('e, 'z) world_scheme) option" where
  "ext_call f s = (case f (env s) of (r, e) \<Rightarrow> Some (r, s\<lparr>env := e\<rparr>))"

lemma ext_call_eq: "ext_call f s = Some (fst (f (env s)), s\<lparr>env := snd (f (env s))\<rparr>)"
  by (simp add: ext_call_def split_def)

lemma ext_call_SomeE:
  assumes "ext_call f s = Some (r, s')"
  obtains e where "f (env s) = (r, e)" "s' = s\<lparr>env := e\<rparr>"
  using assms by (auto simp: ext_call_def split: prod.splits)

text \<open>A block of \<open>n\<close> bytes on the stack, with whatever contents.\<close>

definition fit :: "nat \<Rightarrow> bytes \<Rightarrow> bytes" where
  "fit n b = take n (b @ replicate n NUL)"

lemma length_fit [simp]: "length (fit n b) = n"
  by (simp add: fit_def)

lemma drop_fit [simp]: "n \<le> k \<Longrightarrow> drop k (fit n b) = []"
  by simp

definition fresh_block ::
  "'e ext \<Rightarrow> nat \<Rightarrow> ('e, 'z) world_scheme \<Rightarrow> (bytes \<times> ('e, 'z) world_scheme) option" where
  "fresh_block E n s = do {
     (b, s) \<leftarrow> ext_call (c_indet_block E n) s;
     Some (fit n b, s)
   }"

lemma fresh_block_run:
  "fresh_block E n s = Some (fit n (fst (c_indet_block E n (env s))), s\<lparr>env := snd (c_indet_block E n (env s))\<rparr>)"
  by (simp add: fresh_block_def ext_call_eq)

text \<open>\<open>while ((fd = open (path, O_RDWR)) < 0);\<close> waits until the file is there.\<close>

definition O_RDWR :: u32 where [c_consts]: "O_RDWR = 2"

fun open_wait :: "nat \<Rightarrow> 'e ext \<Rightarrow> path \<Rightarrow> ('e, 'z) world_scheme \<Rightarrow> (int \<times> ('e, 'z) world_scheme) option" where
  "open_wait 0 E path s = None"
| "open_wait (Suc n) E path s = do {
     (fd, s) \<leftarrow> ext_call (c_open E path O_RDWR 0) s;
     if fd < 0 then open_wait n E path s else Some (fd, s)
   }"

subsection \<open>What the theorems rely on\<close>

text \<open>
  An operation that leaves one view of the outside world as it is.
\<close>

definition keeps :: "('e \<Rightarrow> 'v) \<Rightarrow> ('e \<Rightarrow> 'a \<times> 'e) \<Rightarrow> bool" where
  "keeps view f \<longleftrightarrow> (\<forall>e. view (snd (f e)) = view e)"

lemma keeps_eq: "keeps view f \<Longrightarrow> view (snd (f e)) = view e"
  by (simp add: keeps_def)

lemma keepsD: "keeps view f \<Longrightarrow> f e = (r, e') \<Longrightarrow> view e' = view e"
  unfolding keeps_def by (metis snd_conv)

type_synonym item = "bytes \<times> u64"
type_synonym items = "memcached_st \<Rightarrow> string \<Rightarrow> item option"

definition put_item :: "memcached_st \<Rightarrow> string \<Rightarrow> item \<Rightarrow> items \<Rightarrow> items" where
  "put_item m k i I = I(m := (I m)(k \<mapsto> i))"

definition del_item :: "memcached_st \<Rightarrow> string \<Rightarrow> items \<Rightarrow> items" where
  "del_item m k I = I(m := (I m)(k := None))"

lemma put_item_apply [simp]:
  "put_item m k i I m' = (if m' = m then (I m)(k \<mapsto> i) else I m')"
  by (simp add: put_item_def)

lemma del_item_apply [simp]:
  "del_item m k I m' = (if m' = m then (I m)(k := None) else I m')"
  by (simp add: del_item_def)

text \<open>
  Memcached as its protocol and the client library document it. \<open>items\<close> gives what the servers
  of a cluster hold: a value and its cas number per key. The library ends the block it returns
  with a NUL byte; a store gives the item a new cas number; a store can fail for lack of memory
  and then leaves the items as they were. The last laws say that the calls which do not go to
  memcached leave its items alone.
\<close>

locale memcached_service =
  fixes E :: "'e ext" and items :: "'e \<Rightarrow> items"
  assumes get_spec:
    "memcached_get E m k e = ((rc, buf, cas), e') \<Longrightarrow>
       items e' = items e \<and>
       (case items e m k of
          None \<Rightarrow> rc \<noteq> MEMCACHED_SUCCESS
        | Some (v, c) \<Rightarrow> rc = MEMCACHED_SUCCESS \<and> buf = v @ [NUL] \<and> cas = c)"
  and add_spec:
    "memcached_add E m k v e = (rc, e') \<Longrightarrow>
       (if items e m k \<noteq> None then rc = MEMCACHED_NOTSTORED \<and> items e' = items e
        else (rc = MEMCACHED_SUCCESS \<and> (\<exists>c. items e' = put_item m k (v, c) (items e))) \<or>
             (rc = MEMCACHED_MEMORY_ALLOCATION_FAILURE \<and> items e' = items e))"
  and set_spec:
    "memcached_set E m k v e = (rc, e') \<Longrightarrow>
       (rc = MEMCACHED_SUCCESS \<and> (\<exists>c. items e' = put_item m k (v, c) (items e))) \<or>
       (rc = MEMCACHED_MEMORY_ALLOCATION_FAILURE \<and> items e' = items e)"
  and cas_spec:
    "memcached_cas E m k v cas e = (rc, e') \<Longrightarrow>
       (case items e m k of
          None \<Rightarrow> rc = MEMCACHED_NOTFOUND \<and> items e' = items e
        | Some (v0, c0) \<Rightarrow>
            if c0 = cas
            then (rc = MEMCACHED_SUCCESS \<and> (\<exists>c. c \<noteq> c0 \<and> items e' = put_item m k (v, c) (items e))) \<or>
                 (rc = MEMCACHED_MEMORY_ALLOCATION_FAILURE \<and> items e' = items e)
            else rc = MEMCACHED_DATA_EXISTS \<and> items e' = items e)"
  and delete_spec:
    "memcached_delete E m k e = (rc, e') \<Longrightarrow>
       (if items e m k = None then rc = MEMCACHED_NOTFOUND \<and> items e' = items e
        else rc = MEMCACHED_SUCCESS \<and> items e' = del_item m k (items e))"
  and time_keeps_items: "keeps items (c_time E)"
  and getuid_keeps_items: "keeps items (c_getuid E)"
  and getgid_keeps_items: "keeps items (c_getgid E)"
  and stat_keeps_items: "keeps items (c_stat E p)"
  and open_keeps_items: "keeps items (c_open E p fl md)"
  and opendir_keeps_items: "keeps items (c_opendir E p)"
  and pread_keeps_items: "keeps items (c_pread E fd n off)"
  and pwrite_keeps_items: "keeps items (c_pwrite E fd b off)"
  and send_keeps_items: "keeps items (zmq_send E sock b)"
  and indet_keeps_items: "keeps items (c_indet E)"
  and block_keeps_items: "keeps items (c_indet_block E len)"
begin

lemmas env_keeps_items =
  time_keeps_items getuid_keeps_items getgid_keeps_items stat_keeps_items open_keeps_items
  opendir_keeps_items pread_keeps_items pwrite_keeps_items send_keeps_items
  indet_keeps_items block_keeps_items

lemmas items_env [simp] = env_keeps_items [THEN keeps_eq]

end

text \<open>
  A cluster that never runs short of memory, so that no store fails.
\<close>

locale roomy_memcached = memcached_service +
  assumes add_room: "fst (memcached_add E m k v e) \<noteq> MEMCACHED_MEMORY_ALLOCATION_FAILURE"
    and set_room: "fst (memcached_set E m k v e) \<noteq> MEMCACHED_MEMORY_ALLOCATION_FAILURE"
    and cas_room: "fst (memcached_cas E m k v cas e) \<noteq> MEMCACHED_MEMORY_ALLOCATION_FAILURE"

text \<open>
  The messages handed to libzmq, in the order of the calls: \<open>zmq_send\<close> adds one at the end, the
  other calls add none.
\<close>

locale message_log =
  fixes E :: "'e ext" and sent :: "'e \<Rightarrow> (nat \<times> bytes) list"
  assumes send_spec: "sent (snd (zmq_send E sock b e)) = sent e @ [(sock, b)]"
    and get_keeps_sent: "keeps sent (memcached_get E m k)"
    and add_keeps_sent: "keeps sent (memcached_add E m k v)"
    and set_keeps_sent: "keeps sent (memcached_set E m k v)"
    and cas_keeps_sent: "keeps sent (memcached_cas E m k v cas)"
    and delete_keeps_sent: "keeps sent (memcached_delete E m k)"
    and time_keeps_sent: "keeps sent (c_time E)"
    and getuid_keeps_sent: "keeps sent (c_getuid E)"
    and getgid_keeps_sent: "keeps sent (c_getgid E)"
    and stat_keeps_sent: "keeps sent (c_stat E p)"
    and open_keeps_sent: "keeps sent (c_open E p fl md)"
    and opendir_keeps_sent: "keeps sent (c_opendir E p)"
    and indet_keeps_sent: "keeps sent (c_indet E)"
    and block_keeps_sent: "keeps sent (c_indet_block E len)"
begin

lemmas env_keeps_sent =
  get_keeps_sent add_keeps_sent set_keeps_sent cas_keeps_sent delete_keeps_sent time_keeps_sent
  getuid_keeps_sent getgid_keeps_sent stat_keeps_sent open_keeps_sent opendir_keeps_sent
  indet_keeps_sent block_keeps_sent

lemmas sent_env [simp] = env_keeps_sent [THEN keeps_eq] send_spec

end

text \<open>The environment of the client's theorems: both contracts for the same calls.\<close>

locale client_env = roomy_memcached E items + message_log E sent
  for E :: "'e ext" and items :: "'e \<Rightarrow> items" and sent :: "'e \<Rightarrow> (nat \<times> bytes) list"

text \<open>
  The distributed file system as the POSIX calls document it, seen as a map from paths to
  directories and files. \<open>can_make\<close> says when a missing entry can be made (its directory is there
  and may be written). A call that fails returns -1 and changes nothing; \<open>mkdir\<close> of an entry that
  exists fails; \<open>creat\<close> of a file that exists empties it.
\<close>

datatype fnode = FDir | FFile bytes

locale dfs_service =
  fixes E :: "'e ext" and files :: "'e \<Rightarrow> path \<Rightarrow> fnode option" and can_make :: "(path \<Rightarrow> fnode option) \<Rightarrow> path \<Rightarrow> bool"
  assumes mkdir_spec:
    "c_mkdir E p md e = (r, e') \<Longrightarrow>
       (if files e p \<noteq> None then r = -1 \<and> files e' = files e
        else (r = 0 \<and> files e' = (files e)(p \<mapsto> FDir)) \<or> (r = -1 \<and> files e' = files e \<and> \<not> can_make (files e) p))"
  and creat_spec:
    "c_creat E p md e = (r, e') \<Longrightarrow>
       (if files e p = Some FDir then r = -1 \<and> files e' = files e
        else (0 \<le> r \<and> files e' = (files e)(p \<mapsto> FFile [])) \<or> (r = -1 \<and> files e' = files e \<and> \<not> can_make (files e) p))"
  and remove_spec:
    "c_remove E p e = (r, e') \<Longrightarrow>
       (case files e p of
          None \<Rightarrow> r = -1 \<and> files e' = files e
        | Some (FFile b) \<Rightarrow> r = 0 \<and> files e' = (files e)(p := None)
        | Some FDir \<Rightarrow> (r = 0 \<and> files e' = (files e)(p := None)) \<or> (r = -1 \<and> files e' = files e))"
  and close_keeps_files: "keeps files (c_close E fd)"
  and get_keeps_files: "keeps files (memcached_get E m k)"
  and delete_keeps_files: "keeps files (memcached_delete E m k)"
  and set_keeps_files: "keeps files (memcached_set E m k v)"
  and cas_keeps_files: "keeps files (memcached_cas E m k v cas)"
begin

lemmas files_env [simp] =
  close_keeps_files [THEN keeps_eq] get_keeps_files [THEN keeps_eq] delete_keeps_files [THEN keeps_eq]
  set_keeps_files [THEN keeps_eq] cas_keeps_files [THEN keeps_eq]

lemma mkdir_existing:
  "files e p \<noteq> None \<Longrightarrow> fst (c_mkdir E p md e) = -1 \<and> files (snd (c_mkdir E p md e)) = files e"
  using mkdir_spec [of p md e "fst (c_mkdir E p md e)" "snd (c_mkdir E p md e)"] by simp

lemma mkdir_missing:
  "files e p = None \<Longrightarrow> can_make (files e) p \<Longrightarrow>
     fst (c_mkdir E p md e) = 0 \<and> files (snd (c_mkdir E p md e)) = (files e)(p \<mapsto> FDir)"
  using mkdir_spec [of p md e "fst (c_mkdir E p md e)" "snd (c_mkdir E p md e)"] by auto

lemma creat_file:
  "files e p \<noteq> Some FDir \<Longrightarrow> can_make (files e) p \<Longrightarrow>
     0 \<le> fst (c_creat E p md e) \<and> files (snd (c_creat E p md e)) = (files e)(p \<mapsto> FFile [])"
  using creat_spec [of p md e "fst (c_creat E p md e)" "snd (c_creat E p md e)"] by auto

lemma remove_file:
  "files e p = Some (FFile b) \<Longrightarrow> fst (c_remove E p e) = 0 \<and> files (snd (c_remove E p e)) = (files e)(p := None)"
  using remove_spec [of p e "fst (c_remove E p e)" "snd (c_remove E p e)"] by auto

lemma remove_missing:
  "files e p = None \<Longrightarrow> fst (c_remove E p e) = -1 \<and> files (snd (c_remove E p e)) = files e"
  using remove_spec [of p e "fst (c_remove E p e)" "snd (c_remove E p e)"] by auto

end

text \<open>The environment of a server: the cache, the file system, and that neither changes the other.\<close>

locale server_env = roomy_memcached E items + dfs_service E files can_make
  for E :: "'e ext" and items :: "'e \<Rightarrow> items" and files :: "'e \<Rightarrow> path \<Rightarrow> fnode option"
    and can_make :: "(path \<Rightarrow> fnode option) \<Rightarrow> path \<Rightarrow> bool" +
  assumes mkdir_keeps_items: "keeps items (c_mkdir E p md)"
    and creat_keeps_items: "keeps items (c_creat E p md)"
    and remove_keeps_items: "keeps items (c_remove E p)"
    and close_keeps_items: "keeps items (c_close E fd)"
begin

lemmas items_fs [simp] =
  mkdir_keeps_items [THEN keeps_eq] creat_keeps_items [THEN keeps_eq] remove_keeps_items [THEN keeps_eq]
  close_keeps_items [THEN keeps_eq]

end

end
