(* ===== verification/Dmkv.thy ===== *)
theory Dmkv
  imports Environment
begin

text \<open>
  The key-value layer, \<open>kv/dmkv.c\<close>: the configuration file with the addresses of the cluster,
  the wrappers around libmemcached (\<open>memc_put\<close>, \<open>memc_add\<close>, \<open>memc_cas\<close>, \<open>memc_get\<close>,
  \<open>memc_get_cas\<close>, \<open>memc_del\<close>) with the way they cut trailing slashes off a key and translate
  return codes, and the \<open>dmkv_*\<close> interface that the client and the server call.
\<close>

subsection \<open>Configuration: the list of nodes\<close>

definition NODE_MAX :: nat where [c_consts]: "NODE_MAX = 64"

record cluster_info =
  node_num :: nat
  node_list :: "string list"

record dmkv =
  c_info :: cluster_info
  memc :: memcached_st

definition addr_char :: "char \<Rightarrow> bool" where
  "addr_char c \<longleftrightarrow> isdigit c \<or> c = CHR ''.''"

text \<open>
  The copy loop \<open>for (c = 0; i < 16; ++c)\<close>: its guard looks at the node index \<open>i\<close>, which the
  loop does not change, so it either runs to the first character that is no digit and no dot
  (the NUL of \<open>fgets\<close> at the latest) or not at all.
\<close>

definition node_addr :: "nat \<Rightarrow> string \<Rightarrow> string" where
  "node_addr i ip = (if i < 16 then takeWhile addr_char ip else [])"

text \<open>The \<open>while (fgets (ip, 17, fp))\<close> loop; \<open>None\<close> is the return of -1.\<close>

function read_nodes :: "nat \<Rightarrow> string list \<Rightarrow> string \<Rightarrow> string list option" where
  "read_nodes i acc file =
     (case fgets 17 file of
        None \<Rightarrow> Some acc
      | Some (ip, rest) \<Rightarrow>
          if hd ip = CHR ''#'' then read_nodes i acc rest
          else if i + 1 \<ge> NODE_MAX then None
          else read_nodes (i + 1) (acc @ [node_addr i ip]) rest)"
  by pat_completeness auto
termination
  by (relation "measure (\<lambda>(i, acc, file). length file)") (auto dest: fgets_progress)

declare read_nodes.simps [simp del]

definition parse_cluster :: "string option \<Rightarrow> cluster_info option" where
  "parse_cluster file =
     (case file of
        None \<Rightarrow> None
      | Some t \<Rightarrow>
          (case read_nodes 0 [] t of
             None \<Rightarrow> None
           | Some ns \<Rightarrow> if ns = [] then None
                         else Some \<lparr>node_num = length ns, node_list = ns\<rparr>))"

definition get_cluster_info ::
  "'e ext \<Rightarrow> nat \<Rightarrow> ('e, 'z) world_scheme \<Rightarrow> (cluster_info option \<times> ('e, 'z) world_scheme) option" where
  "get_cluster_info E config_type s = do {
     (file, s) \<leftarrow> ext_call (c_fopen E (if config_type = 0 then ''./config'' else ''../config'')) s;
     Some (parse_cluster file, s)
   }"

definition get_remote_cluster_info ::
  "'e ext \<Rightarrow> string \<Rightarrow> ('e, 'z) world_scheme \<Rightarrow> (cluster_info option \<times> ('e, 'z) world_scheme) option" where
  "get_remote_cluster_info E cf_path s = do {
     (file, s) \<leftarrow> ext_call (c_fopen E cf_path) s;
     Some (parse_cluster file, s)
   }"

definition set_dmkv_config_type :: "nat \<Rightarrow> nat \<Rightarrow> nat" where
  "set_dmkv_config_type config_type ty = (if ty \<noteq> 0 \<and> ty \<noteq> 1 then config_type else ty)"

text \<open>\<open>memc_new\<close> pushes the first \<open>node_num\<close> addresses into a new handle.\<close>

definition memc_new ::
  "'e ext \<Rightarrow> cluster_info \<Rightarrow> ('e, 'z) world_scheme \<Rightarrow> (memcached_st option \<times> ('e, 'z) world_scheme) option" where
  "memc_new E ci s = do {
     (ok, s) \<leftarrow> ext_call (memcached_create E) s;
     Some (if ok then Some (take (node_num ci) (node_list ci)) else None, s)
   }"

definition dmkv_open ::
  "'e ext \<Rightarrow> cluster_info option \<Rightarrow> ('e, 'z) world_scheme \<Rightarrow> (dmkv option \<times> ('e, 'z) world_scheme) option" where
  "dmkv_open E ci s =
     (case ci of
        None \<Rightarrow> Some (None, s)
      | Some ci \<Rightarrow> do {
          (m, s) \<leftarrow> memc_new E ci s;
          Some (map_option (\<lambda>m. \<lparr>c_info = ci, memc = m\<rparr>) m, s)
        })"

definition dmkv_init ::
  "'e ext \<Rightarrow> nat \<Rightarrow> ('e, 'z) world_scheme \<Rightarrow> (dmkv option \<times> ('e, 'z) world_scheme) option" where
  "dmkv_init E config_type s = do {
     (ci, s) \<leftarrow> get_cluster_info E config_type s;
     dmkv_open E ci s
   }"

definition dmkv_remote_init ::
  "'e ext \<Rightarrow> int \<Rightarrow> ('e, 'z) world_scheme \<Rightarrow> (dmkv option \<times> ('e, 'z) world_scheme) option" where
  "dmkv_remote_init E num s = do {
     (ci, s) \<leftarrow> get_remote_cluster_info E ''./cr_joint_config'' s;
     dmkv_open E ci s
   }"

subsection \<open>Keys\<close>

text \<open>
  \<open>memc_add\<close>, \<open>memc_cas\<close>, \<open>memc_get\<close>, \<open>memc_get_cas\<close> and \<open>memc_del\<close> cut one trailing slash
  off the key; \<open>memc_put\<close> cuts all of them. Both read the character before the end of the
  key, so the key must not be empty; the loop of \<open>memc_put\<close> leaves the key when there is
  nothing but slashes.
\<close>

definition cut_slash :: "string \<Rightarrow> string option" where
  "cut_slash key =
     (if key = [] then None
      else Some (if last key = CHR ''/'' then butlast key else key))"

definition cut_slashes :: "string \<Rightarrow> string option" where
  "cut_slashes key =
     (if \<forall>c \<in> set key. c = CHR ''/'' then None
      else Some (rev (dropWhile (\<lambda>c. c = CHR ''/'') (rev key))))"

subsection \<open>The wrappers around libmemcached\<close>

text \<open>
  A value is passed as a block and a length; reading more bytes than the block holds is
  undefined.
\<close>

definition memc_put ::
  "'e ext \<Rightarrow> memcached_st \<Rightarrow> string \<Rightarrow> bytes \<Rightarrow> nat \<Rightarrow> ('e, 'z) world_scheme \<Rightarrow> (int \<times> ('e, 'z) world_scheme) option" where
  "memc_put E m key val val_len s = do {
     k \<leftarrow> cut_slashes key;
     guard (val_len \<le> length val);
     (rc, s) \<leftarrow> ext_call (memcached_set E m k (take val_len val)) s;
     Some (if rc \<noteq> MEMCACHED_SUCCESS
           then (if rc = MEMCACHED_MEMORY_ALLOCATION_FAILURE then -2 else -1)
           else 0, s)
   }"

definition memc_add ::
  "'e ext \<Rightarrow> memcached_st \<Rightarrow> string \<Rightarrow> bytes \<Rightarrow> nat \<Rightarrow> ('e, 'z) world_scheme \<Rightarrow> (int \<times> ('e, 'z) world_scheme) option" where
  "memc_add E m key val val_len s = do {
     k \<leftarrow> cut_slash key;
     guard (val_len \<le> length val);
     (rc, s) \<leftarrow> ext_call (memcached_add E m k (take val_len val)) s;
     Some (if rc \<noteq> MEMCACHED_SUCCESS
           then (if rc = MEMCACHED_MEMORY_ALLOCATION_FAILURE then -2
                 else if rc = MEMCACHED_TIMEOUT then -3 else -1)
           else 0, s)
   }"

definition memc_cas ::
  "'e ext \<Rightarrow> memcached_st \<Rightarrow> string \<Rightarrow> bytes \<Rightarrow> nat \<Rightarrow> u64 \<Rightarrow> ('e, 'z) world_scheme \<Rightarrow> (int \<times> ('e, 'z) world_scheme) option" where
  "memc_cas E m key val val_len cas s = do {
     k \<leftarrow> cut_slash key;
     guard (val_len \<le> length val);
     (rc, s) \<leftarrow> ext_call (memcached_cas E m k (take val_len val) cas) s;
     Some (if rc = MEMCACHED_DATA_EXISTS then 1
           else if rc = MEMCACHED_SUCCESS then 0
           else if rc = MEMCACHED_MEMORY_ALLOCATION_FAILURE then -2
           else -1, s)
   }"

definition memc_get ::
  "'e ext \<Rightarrow> memcached_st \<Rightarrow> string \<Rightarrow> ('e, 'z) world_scheme \<Rightarrow> (bytes option \<times> ('e, 'z) world_scheme) option" where
  "memc_get E m key s = do {
     k \<leftarrow> cut_slash key;
     ((rc, val, cas), s) \<leftarrow> ext_call (memcached_get E m k) s;
     Some (if rc \<noteq> MEMCACHED_SUCCESS then None else Some val, s)
   }"

text \<open>The value and the cas number; the caller's \<open>cas\<close> variable is written on success only.\<close>

definition memc_get_cas ::
  "'e ext \<Rightarrow> memcached_st \<Rightarrow> string \<Rightarrow> ('e, 'z) world_scheme \<Rightarrow> ((bytes \<times> u64) option \<times> ('e, 'z) world_scheme) option" where
  "memc_get_cas E m key s = do {
     k \<leftarrow> cut_slash key;
     ((rc, val, cas), s) \<leftarrow> ext_call (memcached_get E m k) s;
     Some (if rc \<noteq> MEMCACHED_SUCCESS then None else Some (val, cas), s)
   }"

definition memc_del ::
  "'e ext \<Rightarrow> memcached_st \<Rightarrow> string \<Rightarrow> ('e, 'z) world_scheme \<Rightarrow> (int \<times> ('e, 'z) world_scheme) option" where
  "memc_del E m key s = do {
     k \<leftarrow> cut_slash key;
     (rc, s) \<leftarrow> ext_call (memcached_delete E m k) s;
     Some (if rc = MEMCACHED_SUCCESS then 0 else -1, s)
   }"

definition dmkv_set where "dmkv_set E kv = memc_put E (memc kv)"
definition dmkv_add where "dmkv_add E kv = memc_add E (memc kv)"
definition dmkv_get where "dmkv_get E kv = memc_get E (memc kv)"
definition dmkv_get_cas where "dmkv_get_cas E kv = memc_get_cas E (memc kv)"
definition dmkv_cas where "dmkv_cas E kv = memc_cas E (memc kv)"
definition dmkv_del where "dmkv_del E kv = memc_del E (memc kv)"

lemmas memc_defs = memc_put_def memc_add_def memc_cas_def memc_get_def memc_get_cas_def memc_del_def
lemmas dmkv_defs = dmkv_set_def dmkv_add_def dmkv_get_def dmkv_get_cas_def dmkv_cas_def dmkv_del_def

subsection \<open>Which item a key names\<close>

definition norm_key :: "string \<Rightarrow> string" where
  "norm_key key = (if last key = CHR ''/'' then butlast key else key)"

text \<open>The keys on which all the wrappers agree: not only slashes, and at most one at the end.\<close>

definition plain_key :: "string \<Rightarrow> bool" where
  "plain_key key \<longleftrightarrow> (\<exists>c \<in> set key. c \<noteq> CHR ''/'') \<and> \<not> suffix ''//'' key"

lemma plain_key_nonempty [simp]: "plain_key key \<Longrightarrow> key \<noteq> []"
  by (auto simp: plain_key_def)

lemma cut_slash_norm: "key \<noteq> [] \<Longrightarrow> cut_slash key = Some (norm_key key)"
  by (simp add: cut_slash_def norm_key_def)

lemma suffix_single: "suffix [a] xs \<longleftrightarrow> xs \<noteq> [] \<and> last xs = a"
  by (cases xs rule: rev_cases) (auto simp: suffix_def)

lemma suffix_two: "suffix ''//'' (xs @ [y]) \<longleftrightarrow> y = CHR ''/'' \<and> suffix ''/'' xs"
  by (auto simp: suffix_def)

lemma cut_slashes_norm:
  assumes "plain_key key" shows "cut_slashes key = Some (norm_key key)"
proof (cases key rule: rev_cases)
  case Nil
  with assms show ?thesis by (simp add: plain_key_def)
next
  case (snoc xs y)
  show ?thesis
  proof (cases "y = CHR ''/''")
    case True
    with assms snoc have "\<exists>c \<in> set xs. c \<noteq> CHR ''/''" and "xs \<noteq> [] \<longrightarrow> last xs \<noteq> CHR ''/''"
      by (auto simp: plain_key_def suffix_two suffix_single)
    with snoc True show ?thesis
      by (cases xs rule: rev_cases) (auto simp: cut_slashes_def norm_key_def butlast_append)
  next
    case False
    with snoc show ?thesis by (auto simp: cut_slashes_def norm_key_def)
  qed
qed

lemma length_cut_slashes_le: "cut_slashes key = Some k \<Longrightarrow> length k \<le> length key"
  using length_dropWhile_le [of "\<lambda>c. c = CHR ''/''" "rev key"]
  by (auto simp: cut_slashes_def split: if_splits)

lemma cut_slashes_two:
  assumes "suffix ''//'' key" shows "cut_slashes key \<noteq> cut_slash key"
proof
  assume eq: "cut_slashes key = cut_slash key"
  from assms obtain xs where key: "key = xs @ ''//''" by (auto simp: suffix_def)
  with eq have k: "cut_slashes key = Some (xs @ ''/'')" by (simp add: cut_slash_def butlast_append)
  moreover have "cut_slashes key = cut_slashes xs" using key by (auto simp: cut_slashes_def)
  ultimately have "length (xs @ ''/'') \<le> length xs" using length_cut_slashes_le by metis
  then show False by simp
qed

lemma cut_slashes_only_slashes: "key \<noteq> [] \<Longrightarrow> \<forall>c \<in> set key. c = CHR ''/'' \<Longrightarrow> cut_slashes key \<noteq> cut_slash key"
  by (simp add: cut_slashes_def cut_slash_def)

lemma cut_slashes_eq_iff: "cut_slashes key = cut_slash key \<longleftrightarrow> key = [] \<or> plain_key key"
proof (cases "key = []")
  case True
  then show ?thesis by (simp add: cut_slashes_def cut_slash_def)
next
  case False
  then show ?thesis
    using cut_slashes_norm [of key] cut_slash_norm [of key] cut_slashes_two [of key]
      cut_slashes_only_slashes [of key]
    by (auto simp: plain_key_def)
qed

subsection \<open>The contract of the key-value interface\<close>

text \<open>
  What the client and the server rely on: \<open>lookup\<close> gives the stored value and cas number of a
  normalised key. The laws cover keys on which all wrappers agree; a store returns 0, or -2 when
  memory is short; \<open>kv_cas\<close> returns 1 exactly on a conflict.
\<close>

locale kv_store =
  fixes kv_get :: "string \<Rightarrow> 's \<Rightarrow> (bytes option \<times> 's) option"
    and kv_get_cas :: "string \<Rightarrow> 's \<Rightarrow> ((bytes \<times> u64) option \<times> 's) option"
    and kv_add :: "string \<Rightarrow> bytes \<Rightarrow> nat \<Rightarrow> 's \<Rightarrow> (int \<times> 's) option"
    and kv_set :: "string \<Rightarrow> bytes \<Rightarrow> nat \<Rightarrow> 's \<Rightarrow> (int \<times> 's) option"
    and kv_cas :: "string \<Rightarrow> bytes \<Rightarrow> nat \<Rightarrow> u64 \<Rightarrow> 's \<Rightarrow> (int \<times> 's) option"
    and kv_del :: "string \<Rightarrow> 's \<Rightarrow> (int \<times> 's) option"
    and lookup :: "'s \<Rightarrow> string \<Rightarrow> item option"
  assumes kv_get_law:
    "plain_key k \<Longrightarrow> \<exists>s'. kv_get k s = Some (map_option (\<lambda>i. fst i @ [NUL]) (lookup s (norm_key k)), s') \<and>
       lookup s' = lookup s"
  and kv_get_cas_law:
    "plain_key k \<Longrightarrow> \<exists>s'. kv_get_cas k s =
       Some (map_option (\<lambda>i. (fst i @ [NUL], snd i)) (lookup s (norm_key k)), s') \<and> lookup s' = lookup s"
  and kv_add_law:
    "plain_key k \<Longrightarrow> n \<le> length b \<Longrightarrow> \<exists>r s'. kv_add k b n s = Some (r, s') \<and>
       (if lookup s (norm_key k) \<noteq> None then r = -1 \<and> lookup s' = lookup s
        else (r = 0 \<and> (\<exists>c. lookup s' = (lookup s)(norm_key k \<mapsto> (take n b, c)))) \<or> (r = -2 \<and> lookup s' = lookup s))"
  and kv_set_law:
    "plain_key k \<Longrightarrow> n \<le> length b \<Longrightarrow> \<exists>r s'. kv_set k b n s = Some (r, s') \<and>
       ((r = 0 \<and> (\<exists>c. lookup s' = (lookup s)(norm_key k \<mapsto> (take n b, c)))) \<or> (r = -2 \<and> lookup s' = lookup s))"
  and kv_cas_law:
    "plain_key k \<Longrightarrow> n \<le> length b \<Longrightarrow> \<exists>r s'. kv_cas k b n c0 s = Some (r, s') \<and>
       (case lookup s (norm_key k) of
          None \<Rightarrow> r = -1 \<and> lookup s' = lookup s
        | Some (v, c) \<Rightarrow> if c = c0
            then (r = 0 \<and> (\<exists>c'. c' \<noteq> c0 \<and> lookup s' = (lookup s)(norm_key k \<mapsto> (take n b, c')))) \<or> (r = -2 \<and> lookup s' = lookup s)
            else r = 1 \<and> lookup s' = lookup s)"
  and kv_del_law:
    "plain_key k \<Longrightarrow> \<exists>s'. kv_del k s = Some (if lookup s (norm_key k) = None then -1 else 0, s') \<and>
       lookup s' = (lookup s)(norm_key k := None)"
begin

lemma get_after_add:
  assumes k: "plain_key k" and n: "n \<le> length b" and a: "kv_add k b n s = Some (0, s1)"
  shows "\<exists>s2. kv_get k s1 = Some (Some (take n b @ [NUL]), s2)"
proof -
  from kv_add_law [OF k n, of s] a obtain c where
    "lookup s1 = (lookup s)(norm_key k \<mapsto> (take n b, c))" by (auto split: if_splits)
  with kv_get_law [OF k, of s1] show ?thesis by auto
qed

lemma get_after_set:
  assumes k: "plain_key k" and n: "n \<le> length b" and a: "kv_set k b n s = Some (0, s1)"
  shows "\<exists>s2. kv_get k s1 = Some (Some (take n b @ [NUL]), s2)"
proof -
  from kv_set_law [OF k n, of s] a obtain c where
    "lookup s1 = (lookup s)(norm_key k \<mapsto> (take n b, c))" by auto
  with kv_get_law [OF k, of s1] show ?thesis by auto
qed

lemma get_after_del:
  assumes k: "plain_key k" and d: "kv_del k s = Some (r, s1)"
  shows "\<exists>s2. kv_get k s1 = Some (None, s2)"
  using kv_del_law [OF k, of s] d kv_get_law [OF k, of s1] by auto

lemma add_twice:
  assumes k: "plain_key k" and n: "n \<le> length b" "m \<le> length b'" and a: "kv_add k b n s = Some (0, s1)"
  shows "\<exists>s2. kv_add k b' m s1 = Some (-1, s2) \<and> lookup s2 = lookup s1"
proof -
  from kv_add_law [OF k n(1), of s] a obtain c where
    "lookup s1 = (lookup s)(norm_key k \<mapsto> (take n b, c))" by (auto split: if_splits)
  with kv_add_law [OF k n(2), of s1] show ?thesis by auto
qed

text \<open>
  Optimistic update: between the read and the compare-and-swap the item may have changed. The
  swap stores only when the item still has the cas number that was read, so an update built from
  a stale value is never stored.
\<close>

lemma cas_after_get:
  assumes k: "plain_key k" and n: "n \<le> length b"
    and g: "kv_get_cas k s = Some (Some (v, c), s1)"
    and same: "lookup s2 (norm_key k) = lookup s1 (norm_key k)"
    and w: "kv_cas k b n c s2 = Some (r, s3)"
  shows "(r = 0 \<and> (\<exists>c'. lookup s3 = (lookup s2)(norm_key k \<mapsto> (take n b, c')))) \<or> (r = -2 \<and> lookup s3 = lookup s2)"
proof -
  from kv_get_cas_law [OF k, of s] g obtain v0 where
    "lookup s1 = lookup s" "lookup s (norm_key k) = Some (v0, c)"
    by (cases "lookup s (norm_key k)") auto
  with same kv_cas_law [OF k n, of c s2] w show ?thesis by auto
qed

lemma stale_cas:
  assumes k: "plain_key k" and n: "n \<le> length b"
    and i: "lookup s (norm_key k) = Some (v, c')" and "c' \<noteq> c"
    and w: "kv_cas k b n c s = Some (r, s')"
  shows "r = 1 \<and> lookup s' = lookup s"
  using assms kv_cas_law [OF k n, of c s] by auto

end

subsection \<open>The wrappers over memcached meet the contract\<close>

context memcached_service
begin

lemma items_get [simp]: "items (snd (memcached_get E m k e)) = items e"
  using get_spec [of m k e] by (metis prod.exhaust_sel)

lemma get_hit:
  "items e m k = Some i \<Longrightarrow> fst (memcached_get E m k e) = (MEMCACHED_SUCCESS, fst i @ [NUL], snd i)"
  using get_spec [of m k e "fst (fst (memcached_get E m k e))" "fst (snd (fst (memcached_get E m k e)))"
      "snd (snd (fst (memcached_get E m k e)))" "snd (memcached_get E m k e)"]
  by (cases i) (auto simp: prod_eq_iff)

lemma get_miss:
  "items e m k = None \<Longrightarrow> fst (fst (memcached_get E m k e)) \<noteq> MEMCACHED_SUCCESS"
  using get_spec [of m k e "fst (fst (memcached_get E m k e))" "fst (snd (fst (memcached_get E m k e)))"
      "snd (snd (fst (memcached_get E m k e)))" "snd (memcached_get E m k e)"]
  by auto

lemma dmkv_get_run:
  assumes "key \<noteq> []"
  shows "dmkv_get E h key s =
    Some (map_option (\<lambda>i. fst i @ [NUL]) (items (env s) (memc h) (norm_key key)),
          s\<lparr>env := snd (memcached_get E (memc h) (norm_key key) (env s))\<rparr>)"
  using assms get_hit [of "env s" "memc h" "norm_key key"] get_miss [of "env s" "memc h" "norm_key key"]
  by (cases "items (env s) (memc h) (norm_key key)")
     (auto simp: dmkv_defs memc_defs cut_slash_norm ext_call_eq split_def)

lemma dmkv_get_cas_run:
  assumes "key \<noteq> []"
  shows "dmkv_get_cas E h key s =
    Some (map_option (\<lambda>i. (fst i @ [NUL], snd i)) (items (env s) (memc h) (norm_key key)),
          s\<lparr>env := snd (memcached_get E (memc h) (norm_key key) (env s))\<rparr>)"
  using assms get_hit [of "env s" "memc h" "norm_key key"] get_miss [of "env s" "memc h" "norm_key key"]
  by (cases "items (env s) (memc h) (norm_key key)")
     (auto simp: dmkv_defs memc_defs cut_slash_norm ext_call_eq split_def)

lemma dmkv_add_run:
  assumes "key \<noteq> []" "n \<le> length b"
  shows "\<exists>r. dmkv_add E h key b n s = Some (r, s\<lparr>env := snd (memcached_add E (memc h) (norm_key key) (take n b) (env s))\<rparr>) \<and>
    (if items (env s) (memc h) (norm_key key) \<noteq> None then r = -1 \<and> items (snd (memcached_add E (memc h) (norm_key key) (take n b) (env s))) = items (env s)
     else (r = 0 \<and> (\<exists>c. items (snd (memcached_add E (memc h) (norm_key key) (take n b) (env s))) = put_item (memc h) (norm_key key) (take n b, c) (items (env s)))) \<or>
          (r = -2 \<and> items (snd (memcached_add E (memc h) (norm_key key) (take n b) (env s))) = items (env s)))"
proof -
  obtain rc e' where c: "memcached_add E (memc h) (norm_key key) (take n b) (env s) = (rc, e')"
    by (cases "memcached_add E (memc h) (norm_key key) (take n b) (env s)")
  from add_spec [OF c] assms c show ?thesis
    by (auto simp: dmkv_defs memc_defs cut_slash_norm ext_call_eq split: if_splits)
qed

lemma dmkv_set_run:
  assumes "plain_key key" "n \<le> length b"
  shows "\<exists>r. dmkv_set E h key b n s = Some (r, s\<lparr>env := snd (memcached_set E (memc h) (norm_key key) (take n b) (env s))\<rparr>) \<and>
    ((r = 0 \<and> (\<exists>c. items (snd (memcached_set E (memc h) (norm_key key) (take n b) (env s))) = put_item (memc h) (norm_key key) (take n b, c) (items (env s)))) \<or>
     (r = -2 \<and> items (snd (memcached_set E (memc h) (norm_key key) (take n b) (env s))) = items (env s)))"
proof -
  obtain rc e' where c: "memcached_set E (memc h) (norm_key key) (take n b) (env s) = (rc, e')"
    by (cases "memcached_set E (memc h) (norm_key key) (take n b) (env s)")
  from set_spec [OF c] assms c show ?thesis
    by (auto simp: dmkv_defs memc_defs cut_slashes_norm ext_call_eq)
qed

lemma dmkv_cas_run:
  assumes "key \<noteq> []" "n \<le> length b"
  shows "\<exists>r. dmkv_cas E h key b n c0 s = Some (r, s\<lparr>env := snd (memcached_cas E (memc h) (norm_key key) (take n b) c0 (env s))\<rparr>) \<and>
    (case items (env s) (memc h) (norm_key key) of
       None \<Rightarrow> r = -1 \<and> items (snd (memcached_cas E (memc h) (norm_key key) (take n b) c0 (env s))) = items (env s)
     | Some (v, c) \<Rightarrow> if c = c0
         then (r = 0 \<and> (\<exists>c'. c' \<noteq> c0 \<and> items (snd (memcached_cas E (memc h) (norm_key key) (take n b) c0 (env s))) = put_item (memc h) (norm_key key) (take n b, c') (items (env s)))) \<or>
              (r = -2 \<and> items (snd (memcached_cas E (memc h) (norm_key key) (take n b) c0 (env s))) = items (env s))
         else r = 1 \<and> items (snd (memcached_cas E (memc h) (norm_key key) (take n b) c0 (env s))) = items (env s))"
proof -
  obtain rc e' where c: "memcached_cas E (memc h) (norm_key key) (take n b) c0 (env s) = (rc, e')"
    by (cases "memcached_cas E (memc h) (norm_key key) (take n b) c0 (env s)")
  from cas_spec [OF c] assms c show ?thesis
    by (auto simp: dmkv_defs memc_defs cut_slash_norm ext_call_eq split: option.splits if_splits)
qed

lemma dmkv_del_run:
  assumes "key \<noteq> []"
  shows "dmkv_del E h key s =
      Some (if items (env s) (memc h) (norm_key key) = None then -1 else 0, s\<lparr>env := snd (memcached_delete E (memc h) (norm_key key) (env s))\<rparr>) \<and>
    items (snd (memcached_delete E (memc h) (norm_key key) (env s))) = del_item (memc h) (norm_key key) (items (env s))"
proof -
  obtain rc e' where c: "memcached_delete E (memc h) (norm_key key) (env s) = (rc, e')"
    by (cases "memcached_delete E (memc h) (norm_key key) (env s)")
  have "items (env s) (memc h) (norm_key key) = None \<Longrightarrow>
    del_item (memc h) (norm_key key) (items (env s)) = items (env s)"
    by (auto simp: del_item_def fun_eq_iff)
  with delete_spec [OF c] assms c show ?thesis
    by (auto simp: dmkv_defs memc_defs cut_slash_norm ext_call_eq split: if_splits)
qed

end

sublocale memcached_service \<subseteq> dmkv: kv_store "dmkv_get E h" "dmkv_get_cas E h" "dmkv_add E h"
    "dmkv_set E h" "dmkv_cas E h" "dmkv_del E h" "\<lambda>s. items (env s) (memc h)" for h :: dmkv
proof (unfold_locales, goal_cases)
  case (1 k s)
  then show ?case by (simp add: dmkv_get_run)
next
  case (2 k s)
  then show ?case by (simp add: dmkv_get_cas_run)
next
  case (3 k n b s)
  then show ?case using dmkv_add_run [of k n b h s] by force
next
  case (4 k n b s)
  then show ?case using dmkv_set_run [of k n b h s] by force
next
  case (5 k n b c0 s)
  then obtain r where "dmkv_cas E h k b n c0 s =
      Some (r, s\<lparr>env := snd (memcached_cas E (memc h) (norm_key k) (take n b) c0 (env s))\<rparr>)"
    and "case items (env s) (memc h) (norm_key k) of
       None \<Rightarrow> r = -1 \<and> items (snd (memcached_cas E (memc h) (norm_key k) (take n b) c0 (env s))) = items (env s)
     | Some (v, c) \<Rightarrow> if c = c0
         then (r = 0 \<and> (\<exists>c'. c' \<noteq> c0 \<and> items (snd (memcached_cas E (memc h) (norm_key k) (take n b) c0 (env s))) =
                 put_item (memc h) (norm_key k) (take n b, c') (items (env s)))) \<or>
              (r = -2 \<and> items (snd (memcached_cas E (memc h) (norm_key k) (take n b) c0 (env s))) = items (env s))
         else r = 1 \<and> items (snd (memcached_cas E (memc h) (norm_key k) (take n b) c0 (env s))) = items (env s)"
    using dmkv_cas_run [of k n b h c0 s] by auto
  then show ?case by (cases "items (env s) (memc h) (norm_key k)") (auto split: if_splits)
next
  case (6 k s)
  then show ?case using dmkv_del_run [of k h s] by force
qed

subsection \<open>The wrappers when memory is not short\<close>

context roomy_memcached
begin

lemma add_absent_items:
  "items e m k = None \<Longrightarrow> \<exists>c. items (snd (memcached_add E m k v e)) = put_item m k (v, c) (items e)"
  using add_spec [of m k v e] add_room [of m k v e] by (cases "memcached_add E m k v e") auto

lemma add_present_items:
  "items e m k = Some i \<Longrightarrow> items (snd (memcached_add E m k v e)) = items e"
  using add_spec [of m k v e] by (cases "memcached_add E m k v e") auto

lemma set_items: "\<exists>c. items (snd (memcached_set E m k v e)) = put_item m k (v, c) (items e)"
  using set_spec [of m k v e] set_room [of m k v e] by (cases "memcached_set E m k v e") auto

lemma cas_items:
  "items e m k = Some (v0, c0) \<Longrightarrow> \<exists>c. c \<noteq> c0 \<and> items (snd (memcached_cas E m k v c0 e)) = put_item m k (v, c) (items e)"
  using cas_spec [of m k v c0 e] cas_room [of m k v c0 e] by (cases "memcached_cas E m k v c0 e") auto

lemma dmkv_add_absent:
  assumes "key \<noteq> []" "n \<le> length b" "items (env s) (memc h) (norm_key key) = None"
  shows "dmkv_add E h key b n s =
    Some (0, s\<lparr>env := snd (memcached_add E (memc h) (norm_key key) (take n b) (env s))\<rparr>)"
  using assms add_spec [of "memc h" "norm_key key" "take n b" "env s"]
    add_room [of "memc h" "norm_key key" "take n b" "env s"]
  by (cases "memcached_add E (memc h) (norm_key key) (take n b) (env s)")
     (auto simp: dmkv_defs memc_defs cut_slash_norm ext_call_eq)

lemma dmkv_add_present:
  assumes "key \<noteq> []" "n \<le> length b" "items (env s) (memc h) (norm_key key) = Some i"
  shows "dmkv_add E h key b n s =
    Some (-1, s\<lparr>env := snd (memcached_add E (memc h) (norm_key key) (take n b) (env s))\<rparr>)"
  using assms add_spec [of "memc h" "norm_key key" "take n b" "env s"]
  by (cases "memcached_add E (memc h) (norm_key key) (take n b) (env s)")
     (auto simp: dmkv_defs memc_defs cut_slash_norm ext_call_eq)

lemma dmkv_set_ok:
  assumes "plain_key key" "n \<le> length b"
  shows "dmkv_set E h key b n s =
    Some (0, s\<lparr>env := snd (memcached_set E (memc h) (norm_key key) (take n b) (env s))\<rparr>)"
  using assms set_spec [of "memc h" "norm_key key" "take n b" "env s"]
    set_room [of "memc h" "norm_key key" "take n b" "env s"]
  by (cases "memcached_set E (memc h) (norm_key key) (take n b) (env s)")
     (auto simp: dmkv_defs memc_defs cut_slashes_norm ext_call_eq)

lemma dmkv_cas_match:
  assumes "key \<noteq> []" "n \<le> length b" "items (env s) (memc h) (norm_key key) = Some (v0, c0)"
  shows "dmkv_cas E h key b n c0 s =
    Some (0, s\<lparr>env := snd (memcached_cas E (memc h) (norm_key key) (take n b) c0 (env s))\<rparr>)"
  using assms cas_spec [of "memc h" "norm_key key" "take n b" c0 "env s"]
    cas_room [of "memc h" "norm_key key" "take n b" c0 "env s"]
  by (cases "memcached_cas E (memc h) (norm_key key) (take n b) c0 (env s)")
     (auto simp: dmkv_defs memc_defs cut_slash_norm ext_call_eq)

end

end
