(* ===== verification/Pacon_Stat.thy ===== *)
theory Pacon_Stat
  imports Environment
begin

text \<open>
  The metadata record \<open>struct pacon_stat\<close> (\<open>pacon.h\<close>), its flag word, and how it and the inline
  data of a small file are laid out in the value that is stored under the file's path:
  \<open>set_stat_flag\<close>, \<open>get_stat_flag\<close>, \<open>seri_val\<close>, \<open>deseri_val\<close>, \<open>seri_inline_data\<close>,
  \<open>deseri_inline_data\<close> of \<open>pacon.c\<close>. The struct is eleven \<open>uint32_t\<close>, written in the byte order of
  the little endian machines Pacon runs on.
\<close>

subsection \<open>The struct and its flags\<close>

definition PSTAT_SIZE :: nat where [c_consts]: "PSTAT_SIZE = 44"
definition INLINE_MAX :: nat where [c_consts]: "INLINE_MAX = 4052"

record pacon_stat =
  ps_flags :: u32
  ps_mode :: u32
  ps_ctime :: u32
  ps_atime :: u32
  ps_mtime :: u32
  ps_size :: u32
  ps_uid :: u32
  ps_gid :: u32
  ps_nlink :: u32
  ps_open_counter :: u32
  ps_fd :: u32

datatype statflags =
  STAT_type | STAT_inline | STAT_commit | STAT_file_created | STAT_existedin_dfs | STAT_child_check | STAT_rm

fun flag_pos :: "statflags \<Rightarrow> nat" where
  "flag_pos STAT_type = 0"
| "flag_pos STAT_inline = 1"
| "flag_pos STAT_commit = 2"
| "flag_pos STAT_file_created = 3"
| "flag_pos STAT_existedin_dfs = 4"
| "flag_pos STAT_child_check = 5"
| "flag_pos STAT_rm = 6"

definition set_flag_word :: "u32 \<Rightarrow> statflags \<Rightarrow> int \<Rightarrow> u32" where
  "set_flag_word w f val =
     (if val = 0 then w AND NOT (push_bit (flag_pos f) 1) else w OR push_bit (flag_pos f) 1)"

definition set_stat_flag :: "pacon_stat \<Rightarrow> statflags \<Rightarrow> int \<Rightarrow> pacon_stat" where
  "set_stat_flag p_st f val = p_st\<lparr>ps_flags := set_flag_word (ps_flags p_st) f val\<rparr>"

definition get_flag_word :: "u32 \<Rightarrow> statflags \<Rightarrow> int" where
  "get_flag_word w f = (if drop_bit (flag_pos f) w AND 1 = 1 then 1 else 0)"

definition get_stat_flag :: "pacon_stat \<Rightarrow> statflags \<Rightarrow> int" where
  "get_stat_flag p_st f = get_flag_word (ps_flags p_st) f"

subsection \<open>Layout in memory\<close>

definition u32_bytes :: "u32 \<Rightarrow> bytes" where
  "u32_bytes w = [char_of (unat w), char_of (unat w div 256),
     char_of (unat w div 65536), char_of (unat w div 16777216)]"

definition bytes_u32 :: "bytes \<Rightarrow> u32" where
  "bytes_u32 b = word_of_nat (of_char (b ! 0) + of_char (b ! 1) * 256 +
     of_char (b ! 2) * 65536 + of_char (b ! 3) * 16777216)"

definition stat_words :: "pacon_stat \<Rightarrow> u32 list" where
  "stat_words s = [ps_flags s, ps_mode s, ps_ctime s, ps_atime s, ps_mtime s, ps_size s,
     ps_uid s, ps_gid s, ps_nlink s, ps_open_counter s, ps_fd s]"

definition stat_bytes :: "pacon_stat \<Rightarrow> bytes" where
  "stat_bytes s = concat (map u32_bytes (stat_words s))"

definition word_at :: "bytes \<Rightarrow> nat \<Rightarrow> u32" where
  "word_at b i = bytes_u32 (take 4 (drop (4 * i) b))"

definition bytes_stat :: "bytes \<Rightarrow> pacon_stat" where
  "bytes_stat b = \<lparr>ps_flags = word_at b 0, ps_mode = word_at b 1, ps_ctime = word_at b 2,
     ps_atime = word_at b 3, ps_mtime = word_at b 4, ps_size = word_at b 5, ps_uid = word_at b 6,
     ps_gid = word_at b 7, ps_nlink = word_at b 8, ps_open_counter = word_at b 9, ps_fd = word_at b 10\<rparr>"

subsection \<open>Serialization\<close>

text \<open>\<open>seri_val\<close> overwrites the first 44 bytes of the block \<open>val\<close>; \<open>deseri_val\<close> reads them.\<close>

definition seri_val :: "pacon_stat \<Rightarrow> bytes \<Rightarrow> bytes option" where
  "seri_val s val = memcpy val 0 (stat_bytes s) PSTAT_SIZE"

definition deseri_val :: "bytes \<Rightarrow> pacon_stat option" where
  "deseri_val val = (if PSTAT_SIZE \<le> length val then Some (bytes_stat val) else None)"

text \<open>
  \<open>seri_inline_data\<close> puts the struct (when there is one) at the start of \<open>val\<close> and the C string
  \<open>inline_data\<close> with its terminator behind it.
\<close>

definition seri_inline_data :: "pacon_stat option \<Rightarrow> bytes \<Rightarrow> bytes \<Rightarrow> bytes option" where
  "seri_inline_data s inline_data val = do {
     val \<leftarrow> (case s of None \<Rightarrow> Some val | Some s \<Rightarrow> memcpy val 0 (stat_bytes s) PSTAT_SIZE);
     t \<leftarrow> cstr inline_data;
     memcpy val PSTAT_SIZE inline_data (length t + 1)
   }"

text \<open>
  \<open>deseri_inline_data\<close> reads the struct and copies the C string behind it into the block
  \<open>inline_data\<close>.
\<close>

definition deseri_inline_data :: "bytes \<Rightarrow> bytes \<Rightarrow> (pacon_stat \<times> bytes) option" where
  "deseri_inline_data inline_data val = do {
     s \<leftarrow> deseri_val val;
     t \<leftarrow> cstr (drop PSTAT_SIZE val);
     d \<leftarrow> memcpy inline_data 0 (t @ [NUL]) (length t + 1);
     Some (s, d)
   }"

subsection \<open>Flags are independent bits\<close>

lemma flag_pos_less [simp]: "flag_pos f < 32"
  by (cases f) simp_all

lemma flag_pos_inject [simp]: "flag_pos f = flag_pos g \<longleftrightarrow> f = g"
  by (cases f; cases g) simp_all

lemma get_flag_word_bit: "get_flag_word w f = (if bit w (flag_pos f) then 1 else 0)"
  by (simp add: get_flag_word_def and_one_eq bit_iff_odd_drop_bit odd_iff_mod_2_eq_one)

lemma bit_set_flag_word:
  "n < 32 \<Longrightarrow> bit (set_flag_word w f val) n = (if n = flag_pos f then val \<noteq> 0 else bit w n)"
  by (auto simp: set_flag_word_def bit_simps)

lemma get_set_flag_word:
  "get_flag_word (set_flag_word w f val) g =
     (if g = f then (if val = 0 then 0 else 1) else get_flag_word w g)"
  by (simp add: get_flag_word_bit bit_set_flag_word)

lemma get_set_stat_flag [simp]:
  "get_stat_flag (set_stat_flag s f val) g =
     (if g = f then (if val = 0 then 0 else 1) else get_stat_flag s g)"
  by (simp add: get_stat_flag_def set_stat_flag_def get_set_flag_word)

lemma get_stat_flag_range: "get_stat_flag s f = 0 \<or> get_stat_flag s f = 1"
  by (simp add: get_stat_flag_def get_flag_word_def)

lemma set_stat_flag_other [simp]:
  "ps_mode (set_stat_flag s f v) = ps_mode s" "ps_ctime (set_stat_flag s f v) = ps_ctime s"
  "ps_atime (set_stat_flag s f v) = ps_atime s" "ps_mtime (set_stat_flag s f v) = ps_mtime s"
  "ps_size (set_stat_flag s f v) = ps_size s" "ps_uid (set_stat_flag s f v) = ps_uid s"
  "ps_gid (set_stat_flag s f v) = ps_gid s" "ps_nlink (set_stat_flag s f v) = ps_nlink s"
  "ps_open_counter (set_stat_flag s f v) = ps_open_counter s" "ps_fd (set_stat_flag s f v) = ps_fd s"
  by (simp_all add: set_stat_flag_def)

subsection \<open>Round trips\<close>

lemma length_u32_bytes [simp]: "length (u32_bytes w) = 4"
  by (simp add: u32_bytes_def)

lemma nat_four_bytes:
  assumes "n < (4294967296::nat)"
  shows "n mod 256 + n div 256 mod 256 * 256 + n div 65536 mod 256 * 65536 +
         n div 16777216 * 16777216 = n"
proof -
  define a b c where "a = n div 256" and "b = a div 256" and "c = b div 256"
  have n: "n = 256 * a + n mod 256" by (simp add: a_def)
  have a: "a = 256 * b + a mod 256" by (simp add: b_def)
  have b: "b = 256 * c + b mod 256" by (simp add: c_def)
  have "n div 65536 = b" "n div 16777216 = c" by (simp_all add: a_def b_def c_def div_mult2_eq [symmetric])
  moreover from assms have "c < 256" by (simp add: a_def b_def c_def div_mult2_eq [symmetric])
  ultimately show ?thesis using n a b by (simp add: a_def [symmetric])
qed

lemma bytes_u32_bytes [simp]: "bytes_u32 (u32_bytes w) = w"
proof -
  have b: "unat w < 4294967296" using unsigned_less [of w] by simp
  then have "unat w div 16777216 mod 256 = unat w div 16777216" by simp
  with nat_four_bytes [OF b]
  have "bytes_u32 (u32_bytes w) = word_of_nat (unat w)"
    unfolding bytes_u32_def u32_bytes_def by (simp del: of_nat_add of_nat_mult)
  then show ?thesis by simp
qed

lemma length_concat_u32_bytes: "length (concat (map u32_bytes ws)) = 4 * length ws"
  by (induction ws) auto

lemma length_stat_bytes [simp]: "length (stat_bytes s) = PSTAT_SIZE"
  by (simp add: stat_bytes_def length_concat_u32_bytes stat_words_def PSTAT_SIZE_def)

lemma word_at_concat:
  "i < length ws \<Longrightarrow> word_at (concat (map u32_bytes ws) @ r) i = ws ! i"
proof (induction ws arbitrary: i)
  case Nil
  then show ?case by simp
next
  case (Cons w ws)
  show ?case
  proof (cases i)
    case 0
    then show ?thesis by (simp add: word_at_def)
  next
    case (Suc j)
    with Cons have "word_at (concat (map u32_bytes ws) @ r) j = ws ! j" by simp
    with Suc show ?thesis by (simp add: word_at_def)
  qed
qed

lemma bytes_stat_bytes [simp]: "bytes_stat (stat_bytes s @ r) = s"
proof -
  have "word_at (stat_bytes s @ r) i = stat_words s ! i" if "i < 11" for i
    using that word_at_concat [of i "stat_words s" r] by (simp add: stat_bytes_def stat_words_def)
  then show ?thesis by (simp add: bytes_stat_def stat_words_def)
qed

lemma deseri_val_stat_bytes [simp]: "deseri_val (stat_bytes s @ r) = Some s"
  by (simp add: deseri_val_def)

lemma seri_val_eq: "PSTAT_SIZE \<le> length val \<Longrightarrow> seri_val s val = Some (stat_bytes s @ drop PSTAT_SIZE val)"
  by (simp add: seri_val_def memcpy_def)

lemma seri_val_take:
  "seri_val s val = Some b \<Longrightarrow> take PSTAT_SIZE b = stat_bytes s \<and> PSTAT_SIZE \<le> length b \<and> length b = length val"
  by (auto simp: seri_val_def memcpy_def split: if_splits)

lemma seri_inline_data_eq:
  assumes "NUL \<notin> set t" "PSTAT_SIZE + length t + 1 \<le> length val"
  shows "seri_inline_data (Some s) (t @ NUL # r) val =
     Some (stat_bytes s @ t @ [NUL] @ drop (PSTAT_SIZE + length t + 1) val)"
  using assms by (simp add: seri_inline_data_def memcpy_def add.commute)

lemma deseri_inline_data_eq:
  assumes "NUL \<notin> set t" "length t < length d"
  shows "deseri_inline_data d (stat_bytes s @ t @ NUL # r) = Some (s, t @ NUL # drop (length t + 1) d)"
  using assms by (simp add: deseri_inline_data_def memcpy_def)

end
