(* ===== verification/Paths.thy ===== *)
theory Paths
  imports Prelude
begin

text \<open>
  The path tools of \<open>pacon.c\<close>: the comparison of a path with a directory (\<open>child_cmp\<close>,
  \<open>child_cmp_new\<close>, and the server's \<open>child_cmp\<close>, which has the body of \<open>child_cmp_new\<close>), the
  search for the parent directory in \<open>check_parent_dir\<close> and \<open>check_permission\<close>, and
  \<open>set_root_path\<close>. The loops over character indices are kept; the lemmas relate them to the
  relation between paths that they decide.
\<close>

subsection \<open>Comparing paths\<close>

text \<open>\<open>path[i]\<close> for \<open>i\<close> up to the length: the terminator is the last character.\<close>

definition char_at :: "string \<Rightarrow> nat \<Rightarrow> char" where
  "char_at s i = (if i < length s then s ! i else NUL)"

text \<open>The loop \<open>for (i = 0; i < p_len; ++i)\<close>: false when it returns at a difference.\<close>

function same_upto :: "string \<Rightarrow> string \<Rightarrow> nat \<Rightarrow> bool" where
  "same_upto path p_path i =
     (if i < length p_path
      then (if char_at path i = char_at p_path i then same_upto path p_path (Suc i) else False)
      else True)"
  by pat_completeness auto
termination
  by (relation "measure (\<lambda>(path, p_path, i). length p_path - i)") auto

declare same_upto.simps [simp del]

text \<open>The loop \<open>for (; i < len; ++i) if (path[i] == '/') return 0;\<close>\<close>

function no_slash_from :: "string \<Rightarrow> nat \<Rightarrow> bool" where
  "no_slash_from path i =
     (if i < length path
      then (if char_at path i = CHR ''/'' then False else no_slash_from path (Suc i))
      else True)"
  by pat_completeness auto
termination
  by (relation "measure (\<lambda>(path, i). length path - i)") auto

declare no_slash_from.simps [simp del]

definition child_cmp :: "string \<Rightarrow> string \<Rightarrow> int \<Rightarrow> int" where
  "child_cmp path p_path recursive =
     (let p_len = length p_path in
      if length path \<le> p_len then 0
      else if recursive = 0 then
        (if \<not> same_upto path p_path 0 then 0
         else if p_len > 1 \<and> char_at path p_len \<noteq> CHR ''/'' then 0
         else if \<not> no_slash_from path (p_len + 1) then 0
         else 1)
      else if recursive = 1 then
        (if \<not> same_upto path p_path 0 then 0
         else if char_at path p_len \<noteq> CHR ''/'' then 0
         else 1)
      else -1)"

definition child_cmp_new :: "string \<Rightarrow> string \<Rightarrow> int \<Rightarrow> int" where
  "child_cmp_new path p_path recursive =
     (let len = length path; p_len = length p_path in
      if len < p_len then 0
      else if \<not> same_upto path p_path 0 then 0
      else if char_at path p_len \<noteq> CHR ''/'' \<and> p_len \<noteq> len then 0
      else if p_len \<noteq> len then 1
      else 2)"

subsection \<open>The parent directory\<close>

text \<open>The loop \<open>for (i = n-1; i >= 0; --i) if (path[i] == '/') break;\<close>, \<open>None\<close> for \<open>i = -1\<close>.\<close>

fun last_slash :: "string \<Rightarrow> nat \<Rightarrow> nat option" where
  "last_slash path 0 = None"
| "last_slash path (Suc i) = (if char_at path i = CHR ''/'' then Some i else last_slash path i)"

text \<open>
  The name of the parent that \<open>check_parent_dir\<close> builds in \<open>p_dir\<close>, for the first \<open>path_len\<close>
  characters of the path. With no slash at all \<open>i\<close> is -1 and \<open>p_dir[-1]\<close> is written.
\<close>

definition parent_dir :: "string \<Rightarrow> nat \<Rightarrow> string option" where
  "parent_dir path path_len =
     (case last_slash path path_len of
        None \<Rightarrow> None
      | Some i \<Rightarrow> Some (if i = 0 then ''/'' else take i path))"

text \<open>The prefix \<open>strncpy (check_path, path, i)\<close> of \<open>check_permission\<close>.\<close>

definition perm_parent :: "string \<Rightarrow> string option" where
  "perm_parent path = map_option (\<lambda>i. take i path) (last_slash path (length path))"

subsection \<open>The root path\<close>

definition MOUNT_PATH_MAX :: nat where [c_consts]: "MOUNT_PATH_MAX = 128"
definition PATH_MAX :: nat where [c_consts]: "PATH_MAX = 128"

text \<open>
  \<open>set_root_path\<close> copies the characters but only compares \<open>mount_path[i] == '\0'\<close>: the block
  keeps the byte it had behind the copied characters.
\<close>

definition set_root_path :: "bytes \<Rightarrow> string \<Rightarrow> int \<times> bytes" where
  "set_root_path mount_path r_path =
     (if length r_path \<ge> MOUNT_PATH_MAX - 1 then (-1, mount_path)
      else (0, r_path @ drop (length r_path) mount_path))"

subsection \<open>Commands with a path\<close>

definition CHECKPOINT_PATH :: string where [c_consts]: "CHECKPOINT_PATH = ''/mnt/beegfs/pacon_checkpoint''"

text \<open>
  \<open>char rm_head = "rm -rf "\<close> keeps one byte of the address of the literal, and \<open>sprintf\<close> is then
  given that number for a \<open>%s\<close>: the call is undefined.
\<close>

definition sprintf_bad_pointer :: "'a option" where
  "sprintf_bad_pointer = None"

subsection \<open>What the comparisons decide\<close>

lemma same_upto_iff:
  assumes "length p_path \<le> length path" "i \<le> length p_path"
  shows "same_upto path p_path i \<longleftrightarrow> drop i p_path = drop i (take (length p_path) path)"
  using assms
proof (induction path p_path i rule: same_upto.induct)
  case (1 path p_path i)
  show ?case
  proof (cases "i < length p_path")
    case True
    with 1 show ?thesis
      by (subst same_upto.simps) (auto simp: char_at_def Cons_nth_drop_Suc [symmetric])
  next
    case False
    with 1 show ?thesis by (subst same_upto.simps) simp
  qed
qed

lemma same_upto_prefix:
  "length p_path \<le> length path \<Longrightarrow> same_upto path p_path 0 \<longleftrightarrow> (\<exists>r. path = p_path @ r)"
  by (auto simp: same_upto_iff intro: exI [of _ "drop (length p_path) path"]) (metis append_take_drop_id)

lemma no_slash_from_iff: "no_slash_from path i \<longleftrightarrow> CHR ''/'' \<notin> set (drop i path)"
proof (induction path i rule: no_slash_from.induct)
  case (1 path i)
  show ?case
  proof (cases "i < length path")
    case True
    with 1 show ?thesis
      by (subst no_slash_from.simps) (auto simp: char_at_def Cons_nth_drop_Suc [symmetric])
  next
    case False
    then show ?thesis by (subst no_slash_from.simps) simp
  qed
qed

lemma char_at_append [simp]: "char_at (p @ c # r) (length p) = c"
  by (simp add: char_at_def nth_append)

lemma child_cmp_new_append:
  "child_cmp_new (p @ r) p rec = (case r of [] \<Rightarrow> 2 | c # _ \<Rightarrow> if c = CHR ''/'' then 1 else 0)"
proof -
  have "same_upto (p @ r) p 0" by (simp add: same_upto_prefix)
  then show ?thesis by (cases r) (auto simp: child_cmp_new_def Let_def)
qed

lemma child_cmp_new_eq:
  "child_cmp_new path p rec =
     (if path = p then 2 else if \<exists>r. path = p @ CHR ''/'' # r then 1 else 0)"
proof (cases "\<exists>r. path = p @ r")
  case True
  then obtain r where r: "path = p @ r" by blast
  then show ?thesis using child_cmp_new_append [of p r rec] by (cases r) auto
next
  case False
  then have "\<not> (length p \<le> length path \<and> same_upto path p 0)" by (simp add: same_upto_prefix)
  then have "child_cmp_new path p rec = 0" by (auto simp: child_cmp_new_def Let_def)
  with False show ?thesis by auto
qed

lemma child_cmp_new_pos: "child_cmp_new path p rec > 0 \<longleftrightarrow> path = p \<or> (\<exists>r. path = p @ CHR ''/'' # r)"
  by (simp add: child_cmp_new_eq)

lemma child_cmp_new_nz: "child_cmp_new path p rec \<noteq> 0 \<longleftrightarrow> path = p \<or> (\<exists>r. path = p @ CHR ''/'' # r)"
  by (simp add: child_cmp_new_eq)

subsection \<open>What the search for the parent finds\<close>

lemma last_slash_append:
  assumes "CHR ''/'' \<notin> set n"
  shows "last_slash (d @ CHR ''/'' # n @ r) (length d + 1 + length n) = Some (length d)"
  using assms
proof (induction n arbitrary: r rule: rev_induct)
  case Nil
  then show ?case by (simp add: char_at_def nth_append)
next
  case (snoc x n)
  then have "char_at (d @ CHR ''/'' # (n @ [x]) @ r) (length d + 1 + length n) \<noteq> CHR ''/''"
    by (auto simp: char_at_def nth_append)
  with snoc.IH [of "x # r"] snoc.prems show ?case by simp
qed

lemma last_slash_SomeD:
  "last_slash path n = Some i \<Longrightarrow> i < n \<and> char_at path i = CHR ''/''"
  by (induction n) (auto split: if_splits)

lemma last_slash_None_iff: "last_slash path n = None \<longleftrightarrow> (\<forall>i < n. char_at path i \<noteq> CHR ''/'')"
  by (induction n) (auto simp: less_Suc_eq)

lemma parent_dir_append:
  assumes "CHR ''/'' \<notin> set n"
  shows "parent_dir (d @ CHR ''/'' # n @ r) (length d + 1 + length n) = Some (if d = [] then ''/'' else d)"
  using last_slash_append [OF assms, of d r] by (simp add: parent_dir_def)

end
