(* ===== verification/Client_State.thy ===== *)
theory Client_State
  imports Dmkv Pacon_Stat Paths
begin

text \<open>
  The state of a Pacon client: \<open>struct pacon\<close>, \<open>struct permission_info\<close> and \<open>struct pacon_file\<close>
  of \<open>pacon.h\<close>, the three process wide hash tables of \<open>lib/cuckoo/hash_table.cc\<close> with the
  operations on them, and the static \<open>current_barrier_id\<close> of \<open>pacon.c\<close>.

  The development models the configuration the sources are built with: \<open>ASYNC_RPC\<close> is 0,
  \<open>SERI_TYPE\<close> is 0, \<open>PARENT_CHECK\<close>, \<open>ROOT_EMPTY\<close> and \<open>INLINE_ASYNC_WB\<close> are 1, so the branches that
  these constants switch off are not part of the definitions.
\<close>

subsection \<open>Structs\<close>

definition SP_LIST_MAX :: nat where [c_consts]: "SP_LIST_MAX = 16"
definition CR_JOINT_MAX :: nat where [c_consts]: "CR_JOINT_MAX = 8"
definition BARRIER_ID_MAX :: nat where [c_consts]: "BARRIER_ID_MAX = 1024"

record permission_info =
  nom_dir_mode :: u32
  nom_f_mode :: u32
  sp_num :: nat
  sp_path :: "string list"
  sp_dir_modes :: "u32 list"
  sp_f_modes :: "u32 list"

record pacon_fields =
  mount_path :: string
  kv_handle :: dmkv
  publisher :: nat
  local_rpc_req :: nat
  fsync_logfile_path :: string
  fsync_log_fd :: int
  log_size :: int
  perm_info :: "permission_info option"
  df_dir_mode :: u32
  df_f_mode :: u32
  cr_num :: nat
  remote_cr_root :: "string list"

text \<open>The handles of joined regions are again \<open>struct pacon\<close>.\<close>

datatype pacon = PACON (pf: pacon_fields) (remote_pacon_list: "pacon list")

abbreviation kv_of :: "pacon \<Rightarrow> dmkv" where "kv_of p \<equiv> kv_handle (pf p)"
abbreviation root_of :: "pacon \<Rightarrow> string" where "root_of p \<equiv> mount_path (pf p)"

record pacon_file =
  f_flags :: u32
  f_mode :: u32
  f_size :: u32
  open_flags :: u32
  open_mode :: u32
  f_fd :: int
  hit_remote_cr :: int

text \<open>The flags of an open file, with the bits of \<open>enum statflags\<close>.\<close>

definition set_fstat_flag :: "pacon_file \<Rightarrow> statflags \<Rightarrow> int \<Rightarrow> pacon_file" where
  "set_fstat_flag f flag val = f\<lparr>f_flags := set_flag_word (f_flags f) flag val\<rparr>"

definition get_fstat_flag :: "pacon_file \<Rightarrow> statflags \<Rightarrow> int" where
  "get_fstat_flag f flag = get_flag_word (f_flags f) flag"

subsection \<open>The hash tables\<close>

type_synonym table = "string \<rightharpoonup> int"

record 'e client = "'e world" +
  dir_check_table :: table
  fd_table :: table
  openc_table :: table
  current_barrier_id :: int

text \<open>\<open>cuckoohash_map::insert\<close> leaves an entry that is there; \<open>find\<close> fills in the value.\<close>

definition ht_insert :: "table \<Rightarrow> string \<Rightarrow> int \<Rightarrow> table" where
  "ht_insert t k v = (case t k of None \<Rightarrow> t(k \<mapsto> v) | Some _ \<Rightarrow> t)"

definition ht_get :: "table \<Rightarrow> string \<Rightarrow> int" where
  "ht_get t k = (case t k of None \<Rightarrow> -1 | Some v \<Rightarrow> v)"

definition pdirht_put :: "string \<Rightarrow> int \<Rightarrow> 'e client \<Rightarrow> 'e client" where
  "pdirht_put k v s = s\<lparr>dir_check_table := ht_insert (dir_check_table s) k v\<rparr>"
definition pdirht_get :: "string \<Rightarrow> 'e client \<Rightarrow> int" where
  "pdirht_get k s = ht_get (dir_check_table s) k"
definition pdirht_clean :: "'e client \<Rightarrow> 'e client" where
  "pdirht_clean s = s\<lparr>dir_check_table := Map.empty\<rparr>"

definition fdht_put :: "string \<Rightarrow> int \<Rightarrow> 'e client \<Rightarrow> 'e client" where
  "fdht_put k v s = s\<lparr>fd_table := ht_insert (fd_table s) k v\<rparr>"
definition fdht_get :: "string \<Rightarrow> 'e client \<Rightarrow> int" where
  "fdht_get k s = ht_get (fd_table s) k"
definition fdht_clean :: "'e client \<Rightarrow> 'e client" where
  "fdht_clean s = s\<lparr>fd_table := Map.empty\<rparr>"

definition opc_put :: "string \<Rightarrow> int \<Rightarrow> 'e client \<Rightarrow> 'e client" where
  "opc_put k v s = s\<lparr>openc_table := ht_insert (openc_table s) k v\<rparr>"
definition opc_get :: "string \<Rightarrow> 'e client \<Rightarrow> int" where
  "opc_get k s = ht_get (openc_table s) k"
definition opc_clean :: "'e client \<Rightarrow> 'e client" where
  "opc_clean s = s\<lparr>openc_table := Map.empty\<rparr>"

definition add_to_dir_check_table :: "string \<Rightarrow> 'e client \<Rightarrow> 'e client" where
  "add_to_dir_check_table d s = pdirht_put d 0 s"
definition dir_check_local :: "string \<Rightarrow> 'e client \<Rightarrow> int" where
  "dir_check_local d s = pdirht_get d s"

definition local_fd_open :: "string \<Rightarrow> 'e client \<Rightarrow> int" where
  "local_fd_open path s = fdht_get path s"
definition add_local_fd :: "string \<Rightarrow> int \<Rightarrow> 'e client \<Rightarrow> 'e client" where
  "add_local_fd path fd s = opc_put path 1 (fdht_put path fd s)"

lemmas table_defs = pdirht_put_def pdirht_get_def pdirht_clean_def fdht_put_def fdht_get_def fdht_clean_def
  opc_put_def opc_get_def opc_clean_def add_to_dir_check_table_def dir_check_local_def local_fd_open_def add_local_fd_def

lemma ht_get_insert: "ht_get (ht_insert t k v) k' = (if k' = k \<and> t k = None then v else ht_get t k')"
  by (auto simp: ht_get_def ht_insert_def split: option.splits)

lemma env_table_ops [simp]:
  "env (pdirht_put k v s) = env s" "env (fdht_put k v s) = env s" "env (opc_put k v s) = env s"
  "env (fdht_clean s) = env s" "env (pdirht_clean s) = env s"
  "env (add_to_dir_check_table k s) = env s" "env (add_local_fd k v s) = env s"
  by (simp_all add: table_defs)

text \<open>
  A table that holds only successful results of the parent check: every entry is 0, so a hit is
  never confused with the -1 of a miss.
\<close>

definition check_table_ok :: "'e client \<Rightarrow> bool" where
  "check_table_ok s \<longleftrightarrow> (\<forall>k v. dir_check_table s k = Some v \<longrightarrow> v = 0)"

lemma check_table_ok_hit: "check_table_ok s \<Longrightarrow> dir_check_local k s \<noteq> -1 \<longleftrightarrow> dir_check_table s k \<noteq> None"
  by (fastforce simp: check_table_ok_def dir_check_local_def pdirht_get_def ht_get_def split: option.splits)

lemma check_table_ok_add: "check_table_ok s \<Longrightarrow> check_table_ok (add_to_dir_check_table k s)"
  by (auto simp: check_table_ok_def table_defs ht_insert_def split: option.splits if_splits)

subsection \<open>Names of directory entries\<close>

text \<open>
  The name of an entry, \<open>path\<close>, a slash and \<open>d_name\<close>, in a block of \<open>PATH_MAX\<close> bytes.
\<close>

definition entry_name :: "string \<Rightarrow> dirent \<Rightarrow> string option" where
  "entry_name path entry = sprintf_buf PATH_MAX (path @ ''/'' @ d_name entry)"

end
