(* ===== verification/Messages.thy ===== *)
theory Messages
  imports Client_State
begin

text \<open>
  The text messages between a client and the Pacon server of its node: how \<open>add_to_mq\<close> and
  \<open>add_to_local_rpc\<close> of \<open>pacon.c\<close> build and send them, and how the server takes them apart
  (the loops at the start of \<open>commit_to_fs\<close> and \<open>commit_to_fs_barrier\<close> of \<open>pacon_server.c\<close>, and
  the receive code of its listeners).
\<close>

definition TIMESTAMP_SIZE :: nat where [c_consts]: "TIMESTAMP_SIZE = 11"

datatype opt =
    CHECKPOINT | MKDIR | CREATE | RM | RMDIR | READDIR | OWRITE | FSYNC | WRITE | BARRIER | RENAME | FLUSHDIR

fun opt_char :: "opt \<Rightarrow> char" where
  "opt_char CHECKPOINT = CHR ''0''"
| "opt_char MKDIR = CHR ''1''"
| "opt_char CREATE = CHR ''2''"
| "opt_char RM = CHR ''3''"
| "opt_char RMDIR = CHR ''4''"
| "opt_char READDIR = CHR ''5''"
| "opt_char OWRITE = CHR ''6''"
| "opt_char FSYNC = CHR ''7''"
| "opt_char WRITE = CHR ''8''"
| "opt_char BARRIER = CHR ''9''"
| "opt_char RENAME = CHR ''A''"
| "opt_char FLUSHDIR = CHR ''B''"

definition opt_str :: "opt \<Rightarrow> string" where
  "opt_str opt = [CHR '':'', opt_char opt]"

subsection \<open>Sending\<close>

text \<open>
  \<open>sprintf (ts, "%d", timestamp)\<close> prints the \<open>uint32_t\<close> as a signed number into eleven bytes.
\<close>

definition mesg_text :: "nat \<Rightarrow> string \<Rightarrow> opt \<Rightarrow> u32 \<Rightarrow> string option" where
  "mesg_text buf_size path opt_type timestamp = do {
     ts \<leftarrow> sprintf_buf TIMESTAMP_SIZE (show_int (sint timestamp));
     sprintf_buf buf_size (path @ opt_str opt_type @ ts)
   }"

definition add_to_mq ::
  "'e ext \<Rightarrow> pacon \<Rightarrow> string \<Rightarrow> opt \<Rightarrow> u32 \<Rightarrow> 'e client \<Rightarrow> (int \<times> 'e client) option" where
  "add_to_mq E p path opt_type timestamp s =
     (if length path + 3 > PATH_MAX then Some (-1, s)
      else do {
        mesg \<leftarrow> mesg_text (PATH_MAX + TIMESTAMP_SIZE) path opt_type timestamp;
        (_, s) \<leftarrow> ext_call (zmq_send E (publisher (pf p)) mesg) s;
        Some (0, s)
      })"

text \<open>The reply is one byte, \<open>'0'\<close> for success; when nothing comes back \<open>rep\<close> keeps its old contents.\<close>

definition add_to_local_rpc ::
  "'e ext \<Rightarrow> pacon \<Rightarrow> string \<Rightarrow> opt \<Rightarrow> u32 \<Rightarrow> 'e client \<Rightarrow> (int \<times> 'e client) option" where
  "add_to_local_rpc E p path opt_type timestamp s =
     (if length path + 3 > PATH_MAX then Some (-1, s)
      else do {
        mesg \<leftarrow> mesg_text PATH_MAX path opt_type timestamp;
        (rep, s) \<leftarrow> fresh_block E 2 s;
        (_, s) \<leftarrow> ext_call (zmq_send E (local_rpc_req (pf p)) mesg) s;
        ((n, data), s) \<leftarrow> ext_call (zmq_recv E (local_rpc_req (pf p)) 1) s;
        Some (if hd (take 1 data @ rep) = CHR ''0'' then 0 else -1, s)
      })"

subsection \<open>Receiving\<close>

text \<open>
  \<open>zmq_recv (sock, mesg, PATH_MAX, 0)\<close> returns the size of the message, also when it is larger
  than the block, and the listener then writes the terminator at that index of its
  \<open>PATH_MAX\<close> bytes.
\<close>

definition recv_mesg :: "bytes \<Rightarrow> string option" where
  "recv_mesg sent = (if length sent < PATH_MAX then Some sent else None)"

text \<open>
  The server copies the characters before the first colon into \<open>path\<close>; the operation is the
  character behind the colon, the timestamp the number behind that.
\<close>

definition mesg_path :: "string \<Rightarrow> string" where
  "mesg_path mesg = takeWhile (\<lambda>c. c \<noteq> CHR '':'') mesg"

definition mesg_op :: "string \<Rightarrow> char" where
  "mesg_op mesg = char_at mesg (length (mesg_path mesg) + 1)"

definition mesg_time :: "string \<Rightarrow> u32" where
  "mesg_time mesg = word_of_int (atoi (drop (length (mesg_path mesg) + 2) mesg))"

text \<open>
  A request of the local rpc carries the barrier number in front of the path:
  \<open>commit_to_fs_barrier\<close> copies the characters before the first slash into \<open>b_id\<close> and the ones
  from there to the colon into \<open>path\<close>.
\<close>

definition rpc_barrier_id :: "string \<Rightarrow> int" where
  "rpc_barrier_id mesg = atoi (takeWhile (\<lambda>c. c \<noteq> CHR ''/'') mesg) - 1"

definition rpc_path :: "string \<Rightarrow> string" where
  "rpc_path mesg = takeWhile (\<lambda>c. c \<noteq> CHR '':'') (dropWhile (\<lambda>c. c \<noteq> CHR ''/'') mesg)"

subsection \<open>What is sent is what is read\<close>

lemma opt_char_inject [simp]: "opt_char a = opt_char b \<longleftrightarrow> a = b"
  by (cases a; cases b) simp_all

lemma takeWhile_colon: "CHR '':'' \<notin> set p \<Longrightarrow> takeWhile (\<lambda>c. c \<noteq> CHR '':'') (p @ CHR '':'' # r) = p"
  by (induction p) auto

lemma length_show_sint:
  assumes "0 \<le> sint (t :: u32)" shows "length (show_int (sint t)) \<le> 10"
proof -
  have "sint t < 2 ^ 31" using sint_less [of t] by simp
  with assms have "nat (sint t) < 10 ^ 10" by simp
  with assms show ?thesis by (simp add: show_int_def length_show_nat)
qed

lemma mesg_text_eq:
  assumes "0 \<le> sint t" "length path + 13 \<le> n"
  shows "mesg_text n path opt t = Some (path @ opt_str opt @ show_int (sint t))"
  using assms length_show_sint [of t]
  by (simp add: mesg_text_def sprintf_buf_def TIMESTAMP_SIZE_def opt_str_def)

lemma mesg_parts:
  assumes "CHR '':'' \<notin> set path" "m = path @ opt_str opt @ show_int (sint t)"
  shows "mesg_path m = path" "mesg_op m = opt_char opt" "mesg_time m = t"
proof -
  show p: "mesg_path m = path"
    using assms takeWhile_colon [of path] by (simp add: mesg_path_def opt_str_def)
  show "mesg_op m = opt_char opt"
    using p assms by (simp add: mesg_op_def opt_str_def char_at_def nth_append)
  have "drop (length path + 2) m = show_int (sint t)" using assms by (simp add: opt_str_def)
  then show "mesg_time m = t" using p by (simp add: mesg_time_def)
qed

end
