(* ===== verification/Permission.thy ===== *)
theory Permission
  imports Client_State
begin

text \<open>
  Batch permissions of \<open>pacon.c\<close>: \<open>mask_compare\<close>, \<open>check_permission\<close>, \<open>pacon_init_perm_info\<close> and
  \<open>pacon_set_permission\<close>.
\<close>

datatype perm_opt =
    READDIR_PC | MKDIR_PC | CREATE_PC | RM_PC | RMDIR_PC | LINK_PC | OWRITE_PC | FSYNC_PC
  | READ_PC | WRITE_PC | RW_PC | CREATEW_PC | RENAME_PC

subsection \<open>The mode of one location\<close>

text \<open>
  The switch looks at the first character of the mode printed with \<open>%d\<close> into five bytes. For a
  first character without a case the function ends without a return value.
\<close>

definition mask_compare :: "u32 \<Rightarrow> int \<Rightarrow> perm_opt \<Rightarrow> int option" where
  "mask_compare perm_mode ty opt = do {
     mode \<leftarrow> sprintf_buf 5 (show_int (sint perm_mode));
     let c = char_at mode 0 in
     if c = CHR ''7'' then Some 0
     else if c = CHR ''6'' then
       Some (if opt \<noteq> READDIR_PC \<or> opt \<noteq> READ_PC \<or> opt \<noteq> WRITE_PC \<or> opt \<noteq> RW_PC then -1 else 0)
     else if c = CHR ''5'' then
       Some (if opt \<noteq> READDIR_PC \<or> opt \<noteq> READ_PC then -1 else 0)
     else if c = CHR ''4'' then
       Some (if opt \<noteq> READ_PC then -1 else 0)
     else if c = CHR ''3'' then
       Some (if opt \<noteq> MKDIR_PC \<or> opt \<noteq> CREATE_PC \<or> opt \<noteq> RM_PC \<or> opt \<noteq> RMDIR_PC \<or> opt \<noteq> WRITE_PC \<or>
                opt \<noteq> CREATEW_PC \<or> opt \<noteq> RENAME_PC then -1 else 0)
     else if c = CHR ''2'' then
       Some (if opt \<noteq> WRITE_PC then -1 else 0)
     else if c = CHR ''1'' then Some (-1)
     else if c = CHR ''0'' then Some (-1)
     else None
   }"

subsection \<open>The check of a path\<close>

text \<open>
  The loop over the special locations, with the index of the current one and \<open>nor_or_sp\<close>.
\<close>

fun check_special ::
  "string \<Rightarrow> int \<Rightarrow> perm_opt \<Rightarrow> (string \<times> u32) list \<Rightarrow> int \<Rightarrow> int \<Rightarrow> int option" where
  "check_special check_path ty opt [] i nor_or_sp = Some (if nor_or_sp > 0 then nor_or_sp else 0)"
| "check_special check_path ty opt ((sp, m) # rest) i nor_or_sp =
     (let ret = child_cmp_new check_path sp 1 in
      if ret > 0 then do {
        r \<leftarrow> mask_compare m ty opt;
        if r = -1 then Some (-1)
        else check_special check_path ty opt rest (i + 1) (if ret = 2 then i else nor_or_sp)
      }
      else check_special check_path ty opt rest (i + 1) nor_or_sp)"

definition sp_entries :: "permission_info \<Rightarrow> u32 list \<Rightarrow> (string \<times> u32) list option" where
  "sp_entries pi modes =
     (if sp_num pi \<le> length (sp_path pi) \<and> sp_num pi \<le> length modes
      then Some (zip (take (sp_num pi) (sp_path pi)) (take (sp_num pi) modes)) else None)"

text \<open>
  For a creation the parent is checked as a directory. Otherwise \<open>type_tmp = type_tmp\<close> leaves the
  variable as it was on the stack.
\<close>

definition check_permission ::
  "'e ext \<Rightarrow> pacon \<Rightarrow> string \<Rightarrow> int \<Rightarrow> perm_opt \<Rightarrow> 'e client \<Rightarrow> (int \<times> 'e client) option" where
  "check_permission E p path ty opt s = do {
     pi \<leftarrow> perm_info (pf p);
     (junk, s) \<leftarrow> ext_call (c_indet E) s;
     (check_path, type_tmp) \<leftarrow>
       (if opt = CREATE_PC \<or> opt = CREATEW_PC \<or> opt = MKDIR_PC
        then (case perm_parent path of None \<Rightarrow> None | Some d \<Rightarrow> Some (d, 0))
        else Some (path, junk));
     guard (length check_path < PATH_MAX);
     r \<leftarrow> mask_compare (if type_tmp = 0 then nom_dir_mode pi else nom_f_mode pi) ty opt;
     if r = -1 then Some (-1, s)
     else do {
       sp \<leftarrow> sp_entries pi (if type_tmp = 0 then sp_dir_modes pi else sp_f_modes pi);
       r \<leftarrow> check_special check_path ty opt sp 0 0;
       Some (r, s)
     }
   }"

text \<open>
  \<open>if (pacon->perm_info != NULL) { ret = check_permission (...); if (ret < 0) return -1; }\<close>, the
  head of most operations: the result is -1 or a number that is not negative.
\<close>

definition permitted ::
  "'e ext \<Rightarrow> pacon \<Rightarrow> string \<Rightarrow> int \<Rightarrow> perm_opt \<Rightarrow> 'e client \<Rightarrow> (int \<times> 'e client) option" where
  "permitted E p path ty opt s =
     (if perm_info (pf p) = None then Some (0, s)
      else do {
        (ret, s) \<leftarrow> check_permission E p path ty opt s;
        Some (if ret < 0 then -1 else ret, s)
      })"

text \<open>The mode of a new entry: \<open>sp_f_modes[ret]\<close> or \<open>sp_dir_modes[ret]\<close> when permissions are set.\<close>

definition new_mode :: "pacon \<Rightarrow> u32 \<Rightarrow> (permission_info \<Rightarrow> u32 list) \<Rightarrow> int \<Rightarrow> u32 option" where
  "new_mode p df modes ret =
     (case perm_info (pf p) of
        None \<Rightarrow> Some df
      | Some pi \<Rightarrow> if nat ret < length (modes pi) then Some (modes pi ! nat ret) else None)"

subsection \<open>Setting permissions\<close>

definition pacon_init_perm_info :: "permission_info \<Rightarrow> permission_info" where
  "pacon_init_perm_info pi =
     pi\<lparr>sp_dir_modes := replicate SP_LIST_MAX 999, sp_f_modes := replicate SP_LIST_MAX 999\<rparr>"

text \<open>
  One round of the loop that fills \<open>sp_val\<close>: every \<open>sprintf\<close> starts at the beginning of the
  block again. \<open>None\<close> is the return of -1.
\<close>

definition sp_val_round :: "bool \<Rightarrow> string \<Rightarrow> u32 \<Rightarrow> u32 \<Rightarrow> string option" where
  "sp_val_round is_last path dmode fmode =
     (if dmode \<noteq> 999 then Some (show_int (sint dmode) @ (if is_last then ''d'' else ''d|''))
      else if fmode \<noteq> 999 then Some (show_int (sint fmode) @ (if is_last then ''f'' else ''f|''))
      else None)"

fun sp_val_loop :: "(string \<times> u32 \<times> u32) list \<Rightarrow> string \<Rightarrow> string option" where
  "sp_val_loop [] sp_val = Some sp_val"
| "sp_val_loop ((path, dmode, fmode) # rest) sp_val =
     (case sp_val_round (rest = []) path dmode fmode of
        None \<Rightarrow> None
      | Some v \<Rightarrow> sp_val_loop rest v)"

definition pacon_set_permission ::
  "'e ext \<Rightarrow> pacon \<Rightarrow> permission_info \<Rightarrow> 'e client \<Rightarrow> (int \<times> pacon \<times> 'e client) option" where
  "pacon_set_permission E p pi s = do {
     let p = PACON ((pf p)\<lparr>perm_info := Some pi\<rparr>) (remote_pacon_list p);
     dval \<leftarrow> sprintf_buf 5 (show_int (sint (nom_dir_mode pi)));
     fval \<leftarrow> sprintf_buf 5 (show_int (sint (nom_f_mode pi)));
     (blk, s) \<leftarrow> fresh_block E (SP_LIST_MAX * (PATH_MAX + 5)) s;
     guard (sp_num pi \<le> length (sp_path pi) \<and> sp_num pi \<le> length (sp_dir_modes pi) \<and> sp_num pi \<le> length (sp_f_modes pi));
     (case sp_val_loop (take (sp_num pi) (zip (sp_path pi) (zip (sp_dir_modes pi) (sp_f_modes pi))))
             (takeWhile (\<lambda>c. c \<noteq> NUL) blk) of
        None \<Rightarrow> Some (-1, p, s)
      | Some sp_val \<Rightarrow> do {
          guard (sp_num pi = 0 \<longrightarrow> NUL \<in> set blk);
          (_, s) \<leftarrow> dmkv_add E (kv_of p) ''nom_dir_mode'' (dval @ [NUL]) (length dval) s;
          (_, s) \<leftarrow> dmkv_add E (kv_of p) ''nom_f_mode'' (fval @ [NUL]) (length fval) s;
          (_, s) \<leftarrow> dmkv_add E (kv_of p) ''sp_path'' (sp_val @ [NUL]) (length sp_val) s;
          Some (0, p, s)
        })
   }"

subsection \<open>What the masks allow\<close>

text \<open>The disjunctions of inequalities hold for every operation.\<close>

lemma mask_compare_first:
  assumes "sprintf_buf 5 (show_int (sint m)) = Some (c # r)"
  shows "mask_compare m ty opt =
    (if c = CHR ''7'' then Some 0
     else if c = CHR ''4'' \<and> opt = READ_PC then Some 0
     else if c = CHR ''2'' \<and> opt = WRITE_PC then Some 0
     else if c \<in> set ''0123456'' then Some (-1) else None)"
  using assms by (cases opt) (simp_all add: mask_compare_def char_at_def)

end
