(* ===== verification/Cache.thy ===== *)
theory Cache
  imports Messages Permission
begin

text \<open>
  The part of \<open>pacon.c\<close> that brings metadata into the distributed cache and throws it out again:
  \<open>load_to_pacon\<close>, \<open>pacon_opendir\<close>, \<open>flush_dir\<close>, \<open>flush_file\<close> and \<open>evict_metadata\<close>, which call each
  other (a load that finds memory short evicts, eviction opens the root directory, opening a
  directory loads it), and the two newer forms of eviction.

  Every function that can loop (on the evict lock, on a full memcached, on a file that is not
  yet on the file system) takes fuel; \<open>None\<close> also stands for running out of it.
\<close>

subsection \<open>Flushing\<close>

definition flush_dir ::
  "'e ext \<Rightarrow> pacon \<Rightarrow> string \<Rightarrow> 'e client \<Rightarrow> (int \<times> 'e client) option" where
  "flush_dir E p path s = do {
     (t, s) \<leftarrow> ext_call (c_time E) s;
     (_, s) \<leftarrow> add_to_mq E p path FLUSHDIR t s;
     (t, s) \<leftarrow> ext_call (c_time E) s;
     (ret, s) \<leftarrow> add_to_local_rpc E p path FLUSHDIR t s;
     Some (if ret = -1 then -1 else ret, s)
   }"

text \<open>
  \<open>while (stat (path, &buf) != 0) ret = dmkv_del (...);\<close>: the deletion is the body of the loop,
  and \<open>ret\<close> is not set when the file is there at once.
\<close>

fun flush_file_loop ::
  "nat \<Rightarrow> 'e ext \<Rightarrow> pacon \<Rightarrow> string \<Rightarrow> int \<Rightarrow> 'e client \<Rightarrow> (int \<times> 'e client) option" where
  "flush_file_loop 0 E p path ret s = None"
| "flush_file_loop (Suc n) E p path ret s = do {
     (st, s) \<leftarrow> ext_call (c_stat E path) s;
     (case st of
        None \<Rightarrow> do {
          (ret, s) \<leftarrow> dmkv_del E (kv_of p) path s;
          flush_file_loop n E p path ret s
        }
      | Some _ \<Rightarrow> Some (ret, s))
   }"

definition flush_file ::
  "nat \<Rightarrow> 'e ext \<Rightarrow> pacon \<Rightarrow> string \<Rightarrow> 'e client \<Rightarrow> (int \<times> 'e client) option" where
  "flush_file n E p path s = do {
     (junk, s) \<leftarrow> ext_call (c_indet E) s;
     (ret, s) \<leftarrow> flush_file_loop n E p path (sint junk) s;
     Some (if ret \<noteq> 0 then -1 else 0, s)
   }"

subsection \<open>The evict lock and the evict record\<close>

text \<open>
  The \<open>retry\<close> loop: true when the function goes on, false when it returns -1. It goes on after
  every result of \<open>dmkv_cas\<close> but a conflict.
\<close>

fun evict_lock_loop ::
  "nat \<Rightarrow> 'e ext \<Rightarrow> pacon \<Rightarrow> 'e client \<Rightarrow> (bool \<times> 'e client) option" where
  "evict_lock_loop 0 E p s = None"
| "evict_lock_loop (Suc n) E p s = do {
     (g, s) \<leftarrow> dmkv_get_cas E (kv_of p) ''evict_lock'' s;
     (case g of
        None \<Rightarrow> Some (False, s)
      | Some (val, cas) \<Rightarrow> do {
          guard (val \<noteq> []);
          if hd val = CHR ''0'' then do {
            (ret, s) \<leftarrow> dmkv_cas E (kv_of p) ''evict_lock'' (''1'' @ [NUL]) 1 cas s;
            if ret = 1 then evict_lock_loop n E p s else Some (True, s)
          }
          else if hd val = CHR ''1'' then evict_lock_loop n E p s
          else Some (False, s)
        })
   }"

text \<open>The entry the cursor \<open>rr\<close> points at, counting the entries that are not dot or dot-dot.\<close>

fun evict_pick :: "dirent list \<Rightarrow> int \<Rightarrow> int \<Rightarrow> dirent option" where
  "evict_pick [] c rr = None"
| "evict_pick (e # es) c rr =
     (if d_name e = ''.'' \<or> d_name e = ''..'' then evict_pick es c rr
      else if c = rr then Some e
      else evict_pick es (c + 1) rr)"

text \<open>The end of the function: the new cursor is stored, then the lock is released.\<close>

definition evict_finish ::
  "'e ext \<Rightarrow> pacon \<Rightarrow> int \<Rightarrow> 'e client \<Rightarrow> (int \<times> 'e client) option" where
  "evict_finish E p rr s = do {
     rec \<leftarrow> sprintf_buf 128 (show_int rr);
     (ret, s) \<leftarrow> dmkv_set E (kv_of p) ''evict_record'' (rec @ [NUL]) (length rec) s;
     if ret \<noteq> 0 then Some (-1, s)
     else do {
       (ret, s) \<leftarrow> dmkv_set E (kv_of p) ''evict_lock'' (''0'' @ [NUL]) 1 s;
       Some (if ret \<noteq> 0 then -1 else 0, s)
     }
   }"

subsection \<open>Loading, opening and evicting\<close>

text \<open>The struct \<open>load_to_pacon\<close> fills in from a \<open>struct stat\<close>; the field \<open>fd\<close> is not set.\<close>

definition loaded_stat :: "stat \<Rightarrow> u32 \<Rightarrow> pacon_stat" where
  "loaded_stat buf junk =
     (let p_st = \<lparr>ps_flags = 0, ps_mode = st_mode buf, ps_ctime = ucast (st_ctime buf),
            ps_atime = ucast (st_atime buf), ps_mtime = ucast (st_mtime buf), ps_size = ucast (st_size buf),
            ps_uid = st_uid buf, ps_gid = st_gid buf, ps_nlink = ucast (st_nlink buf),
            ps_open_counter = 0, ps_fd = junk\<rparr>;
          p_st = (if S_ISDIR (st_mode buf) then set_stat_flag p_st STAT_type 0
                  else set_stat_flag (set_stat_flag p_st STAT_type 1) STAT_file_created 1)
      in set_stat_flag p_st STAT_existedin_dfs 1)"

text \<open>What \<open>pacon_opendir\<close> returns: -1 cast to a pointer, the NULL of \<open>opendir\<close>, or a stream.\<close>

datatype dirp = DIR_ERR | DIR_NULL | DIR "dirent list"

text \<open>
  Five functions contain the loop \<open>evict_ok: ret = dmkv_add (...); if (ret == -2) { evict_metadata
  (pacon); goto evict_ok; }\<close>. It closes the circle of calls, so the functions inside the circle
  take it as their argument \<open>add\<close> first and the loop itself, \<open>add_evict\<close>, ties the knot by
  recursion on the fuel.
\<close>

type_synonym 'e adder = "string \<Rightarrow> bytes \<Rightarrow> nat \<Rightarrow> 'e client \<Rightarrow> (int \<times> 'e client) option"

definition load_with ::
  "'e adder \<Rightarrow> 'e ext \<Rightarrow> pacon \<Rightarrow> string \<Rightarrow> 'e client \<Rightarrow> (int \<times> 'e client) option" where
  "load_with add E p path s =
     (if child_cmp_new path (root_of p) 1 = 0 then Some (-1, s)
      else do {
        (st, s) \<leftarrow> ext_call (c_stat E path) s;
        (case st of
           None \<Rightarrow> Some (-1, s)
         | Some buf \<Rightarrow> do {
             (junk, s) \<leftarrow> ext_call (c_indet E) s;
             (blk, s) \<leftarrow> fresh_block E PSTAT_SIZE s;
             val \<leftarrow> seri_val (loaded_stat buf junk) blk;
             (_, s) \<leftarrow> add path val PSTAT_SIZE s;
             Some (0, s)
           })
      })"

text \<open>
  \<open>val = dmkv_get (path); if (val == NULL) { ret = load_to_pacon (path); if (ret == -1) return -1;
  val = dmkv_get (path); }\<close>, which several operations start with; the second value is not used.
\<close>

definition ensure_cached_with ::
  "'e adder \<Rightarrow> 'e ext \<Rightarrow> pacon \<Rightarrow> string \<Rightarrow> 'e client \<Rightarrow> (int \<times> 'e client) option" where
  "ensure_cached_with add E p path s = do {
     (val, s) \<leftarrow> dmkv_get E (kv_of p) path s;
     (case val of
        None \<Rightarrow> do {
          (ret, s) \<leftarrow> load_with add E p path s;
          if ret = -1 then Some (-1, s)
          else do { (_, s) \<leftarrow> dmkv_get E (kv_of p) path s; Some (0, s) }
        }
      | Some _ \<Rightarrow> Some (0, s))
   }"

definition opendir_with ::
  "'e adder \<Rightarrow> 'e ext \<Rightarrow> pacon \<Rightarrow> string \<Rightarrow> 'e client \<Rightarrow> (dirp \<times> 'e client) option" where
  "opendir_with add E p path s = do {
     (ret, s) \<leftarrow> permitted E p path 0 READDIR_PC s;
     if ret < 0 then Some (DIR_ERR, s)
     else do {
       (ret, s) \<leftarrow> ensure_cached_with add E p path s;
       if ret = -1 then Some (DIR_ERR, s)
       else do {
         path_new \<leftarrow> sprintf_buf PATH_MAX (show_int (current_barrier_id s) @ path);
         (t, s) \<leftarrow> ext_call (c_time E) s;
         (ret, s) \<leftarrow> add_to_local_rpc E p path_new READDIR t s;
         if ret = -1 then Some (DIR_ERR, s)
         else do {
           (d, s) \<leftarrow> ext_call (c_opendir E path) s;
           Some (case d of None \<Rightarrow> DIR_NULL | Some es \<Rightarrow> DIR es, s)
         }
       }
     }
   }"

text \<open>\<open>evict_metadata\<close> from the label \<open>find_again\<close> on.\<close>

fun evict_find_with ::
  "nat \<Rightarrow> 'e adder \<Rightarrow> 'e ext \<Rightarrow> pacon \<Rightarrow> int \<Rightarrow> 'e client \<Rightarrow> (int \<times> 'e client) option" where
  "evict_find_with 0 add E p rr s = None"
| "evict_find_with (Suc n) add E p rr s = do {
     (dir, s) \<leftarrow> opendir_with add E p (root_of p) s;
     (case dir of
        DIR es \<Rightarrow>
          (case evict_pick es 0 rr of
             None \<Rightarrow> evict_find_with n add E p 0 s
           | Some e \<Rightarrow> do {
               evict_path \<leftarrow> sprintf_buf PATH_MAX (root_of p @ ''/'' @ d_name e);
               (ret, s) \<leftarrow> (if d_isdir e then flush_dir E p evict_path s else flush_file n E p evict_path s);
               if ret \<noteq> 0 then Some (-1, s) else evict_finish E p (rr + 1) s
             })
      | _ \<Rightarrow> None)
   }"

text \<open>
  The start that all three forms of eviction share: take the lock, read the cursor. \<open>None\<close> in the
  first component is the return of -1.
\<close>

definition evict_begin ::
  "nat \<Rightarrow> 'e ext \<Rightarrow> pacon \<Rightarrow> 'e client \<Rightarrow> (int option \<times> 'e client) option" where
  "evict_begin n E p s = do {
     (go, s) \<leftarrow> evict_lock_loop n E p s;
     if \<not> go then Some (None, s)
     else do {
       (record_val, s) \<leftarrow> dmkv_get E (kv_of p) ''evict_record'' s;
       (case record_val of
          None \<Rightarrow> Some (None, s)
        | Some v \<Rightarrow> do { t \<leftarrow> cstr v; Some (Some (atoi t), s) })
     }
   }"

definition evict_metadata_with ::
  "nat \<Rightarrow> 'e adder \<Rightarrow> 'e ext \<Rightarrow> pacon \<Rightarrow> 'e client \<Rightarrow> (int \<times> 'e client) option" where
  "evict_metadata_with n add E p s = do {
     (rr, s) \<leftarrow> evict_begin n E p s;
     (case rr of None \<Rightarrow> Some (-1, s) | Some rr \<Rightarrow> evict_find_with n add E p rr s)
   }"

fun add_evict :: "nat \<Rightarrow> 'e ext \<Rightarrow> pacon \<Rightarrow> 'e adder" where
  "add_evict 0 E p path val len s = None"
| "add_evict (Suc n) E p path val len s = do {
     (ret, s) \<leftarrow> dmkv_add E (kv_of p) path val len s;
     if ret = -2 then do {
       (_, s) \<leftarrow> evict_metadata_with n (add_evict n E p) E p s;
       add_evict n E p path val len s
     }
     else Some (ret, s)
   }"

definition load_to_pacon ::
  "nat \<Rightarrow> 'e ext \<Rightarrow> pacon \<Rightarrow> string \<Rightarrow> 'e client \<Rightarrow> (int \<times> 'e client) option" where
  "load_to_pacon n E p = load_with (add_evict n E p) E p"

definition ensure_cached ::
  "nat \<Rightarrow> 'e ext \<Rightarrow> pacon \<Rightarrow> string \<Rightarrow> 'e client \<Rightarrow> (int \<times> 'e client) option" where
  "ensure_cached n E p = ensure_cached_with (add_evict n E p) E p"

definition pacon_opendir ::
  "nat \<Rightarrow> 'e ext \<Rightarrow> pacon \<Rightarrow> string \<Rightarrow> 'e client \<Rightarrow> (dirp \<times> 'e client) option" where
  "pacon_opendir n E p = opendir_with (add_evict n E p) E p"

definition evict_metadata ::
  "nat \<Rightarrow> 'e ext \<Rightarrow> pacon \<Rightarrow> 'e client \<Rightarrow> (int \<times> 'e client) option" where
  "evict_metadata n E p = evict_metadata_with n (add_evict n E p) E p"

end
