(* ===== verification/Namespace.thy ===== *)
theory Namespace
  imports Cache
begin

text \<open>
  The namespace operations of the client (\<open>pacon.c\<close>): the check of the parent directory, \<open>create\<close>,
  \<open>create_open\<close>, \<open>mkdir\<close>, \<open>getattr\<close>, \<open>rm\<close>, \<open>rmdir\<close>, \<open>rmdir_clean\<close> and \<open>rename\<close>. Each definition is the
  whole function: every call to the cache, the file system, the commit queue or the local rpc
  is a step, every early return a branch.
\<close>

subsection \<open>Updating an item with compare-and-swap\<close>

text \<open>
  \<open>set_stat_flag; seri_val; ret = dmkv_cas (...); while (ret == 1) { val = dmkv_get_cas (...);
  deseri_val; set_stat_flag; seri_val; ret = dmkv_cas (...); }\<close> of \<open>check_parent_dir\<close> and
  \<open>pacon_rm\<close>. The item can be gone when it is read again; \<open>deseri_val\<close> then gets NULL.
\<close>

fun cas_flag_loop ::
  "nat \<Rightarrow> 'e ext \<Rightarrow> pacon \<Rightarrow> string \<Rightarrow> statflags \<Rightarrow> pacon_stat \<Rightarrow> bytes \<Rightarrow> u64 \<Rightarrow> 'e client \<Rightarrow> (int \<times> 'e client) option" where
  "cas_flag_loop 0 E p path flag p_st val cas s = None"
| "cas_flag_loop (Suc n) E p path flag p_st val cas s = do {
     val \<leftarrow> seri_val (set_stat_flag p_st flag 1) val;
     (ret, s) \<leftarrow> dmkv_cas E (kv_of p) path val PSTAT_SIZE cas s;
     if ret = 1 then do {
       (g, s) \<leftarrow> dmkv_get_cas E (kv_of p) path s;
       (case g of
          None \<Rightarrow> None
        | Some (val, cas) \<Rightarrow> do {
            p_st \<leftarrow> deseri_val val;
            cas_flag_loop n E p path flag p_st val cas s
          })
     }
     else Some (ret, s)
   }"

subsection \<open>Checking the parent directory\<close>

text \<open>The loop over the entries of the parent that loads each child into the cache.\<close>

fun load_children ::
  "nat \<Rightarrow> 'e ext \<Rightarrow> pacon \<Rightarrow> string \<Rightarrow> dirent list \<Rightarrow> 'e client \<Rightarrow> (int \<times> 'e client) option" where
  "load_children n E p p_dir [] s = Some (0, s)"
| "load_children n E p p_dir (entry # rest) s =
     (if d_name entry = ''.'' \<or> d_name entry = ''..'' then load_children n E p p_dir rest s
      else if length p_dir + length (d_name entry) \<ge> PATH_MAX - 1 then Some (-1, s)
      else do {
        (ret, s) \<leftarrow> load_to_pacon n E p (p_dir @ ''/'' @ d_name entry) s;
        if ret \<noteq> 0 then Some (-1, s) else load_children n E p p_dir rest s
      })"

text \<open>The part of \<open>check_parent_dir\<close> behind the computation of \<open>p_dir\<close>.\<close>

definition check_dir ::
  "nat \<Rightarrow> 'e ext \<Rightarrow> pacon \<Rightarrow> string \<Rightarrow> 'e client \<Rightarrow> (int \<times> 'e client) option" where
  "check_dir n E p p_dir s =
     (if dir_check_local p_dir s \<noteq> -1 then Some (0, s)
      else do {
        (g, s) \<leftarrow> dmkv_get_cas E (kv_of p) p_dir s;
        (ret, g, s) \<leftarrow>
          (case g of
             None \<Rightarrow> do {
               (ret, s) \<leftarrow> load_to_pacon n E p p_dir s;
               if ret \<noteq> 0 then Some (-1, None, s)
               else do { (g, s) \<leftarrow> dmkv_get_cas E (kv_of p) p_dir s; Some (0 :: int, g, s) }
             }
           | Some vc \<Rightarrow> Some (0, Some vc, s));
        if ret = -1 then Some (-1, s)
        else do {
          (val, cas) \<leftarrow> g;
          p_st \<leftarrow> deseri_val val;
          if get_stat_flag p_st STAT_type = 1 then Some (-1, s)
          else if get_stat_flag p_st STAT_existedin_dfs = 1 \<and> get_stat_flag p_st STAT_child_check = 0 then do {
            (pd, s) \<leftarrow> ext_call (c_opendir E p_dir) s;
            entries \<leftarrow> pd;
            (ret, s) \<leftarrow> load_children n E p p_dir entries s;
            if ret \<noteq> 0 then Some (-1, s)
            else do {
              (ret, s) \<leftarrow> cas_flag_loop n E p p_dir STAT_child_check p_st val cas s;
              if ret = -1 then Some (-1, s) else Some (0, add_to_dir_check_table p_dir s)
            }
          }
          else Some (0, add_to_dir_check_table p_dir s)
        }
      })"

definition check_parent_dir ::
  "nat \<Rightarrow> 'e ext \<Rightarrow> pacon \<Rightarrow> string \<Rightarrow> 'e client \<Rightarrow> (int \<times> 'e client) option" where
  "check_parent_dir n E p path s =
     (if path = ''/'' then Some (0, s)
      else if path = [] then None
      else
        let path_len = (if last path = CHR ''/'' then length path - 1 else length path) in
        if path_len \<ge> PATH_MAX then Some (-1, s)
        else do {
          p_dir \<leftarrow> parent_dir path path_len;
          check_dir n E p p_dir s
        })"

subsection \<open>Creating files and directories\<close>

text \<open>
  The struct of a new entry. \<open>fd\<close> is never set; the three times come from the caller.
\<close>

definition new_stat :: "u32 \<Rightarrow> u32 \<Rightarrow> u32 \<Rightarrow> u32 \<Rightarrow> u32 \<Rightarrow> u32 \<Rightarrow> u32 \<Rightarrow> u32 \<Rightarrow> pacon_stat" where
  "new_stat mode ct at mt sz uid gid junk =
     \<lparr>ps_flags = 0, ps_mode = mode, ps_ctime = ct, ps_atime = at, ps_mtime = mt, ps_size = sz,
      ps_uid = uid, ps_gid = gid, ps_nlink = 0, ps_open_counter = 0, ps_fd = junk\<rparr>"

text \<open>
  What the functions do when \<open>dmkv_add\<close> did not store: the entry may be marked as removed and
  not yet gone; then the new value is set over it. The result is 0 when that worked.
\<close>

definition replace_removed ::
  "'e ext \<Rightarrow> pacon \<Rightarrow> string \<Rightarrow> bytes \<Rightarrow> nat \<Rightarrow> 'e client \<Rightarrow> (int \<times> 'e client) option" where
  "replace_removed E p path val len s = do {
     (tmp_val, s) \<leftarrow> dmkv_get E (kv_of p) path s;
     (case tmp_val of
        None \<Rightarrow> Some (-1, s)
      | Some v \<Rightarrow> do {
          tmp_p_st \<leftarrow> deseri_val v;
          if get_stat_flag tmp_p_st STAT_rm = 1 then do {
            (ret, s) \<leftarrow> dmkv_set E (kv_of p) path val len s;
            Some (if ret \<noteq> 0 then -1 else 0, s)
          }
          else Some (-1, s)
        })
   }"

definition pacon_create ::
  "nat \<Rightarrow> 'e ext \<Rightarrow> pacon \<Rightarrow> string \<Rightarrow> u32 \<Rightarrow> 'e client \<Rightarrow> (int \<times> 'e client) option" where
  "pacon_create n E p path mode s = do {
     (ret, s) \<leftarrow> permitted E p path 1 CREATE_PC s;
     if ret < 0 then Some (-1, s)
     else do {
       f_mode \<leftarrow> new_mode p (df_f_mode (pf p)) sp_f_modes ret;
       (timestamp, s) \<leftarrow> ext_call (c_time E) s;
       (ret, s) \<leftarrow> check_parent_dir n E p path s;
       if ret \<noteq> 0 then Some (-1, s)
       else do {
         (uid, s) \<leftarrow> ext_call (c_getuid E) s;
         (gid, s) \<leftarrow> ext_call (c_getgid E) s;
         (junk, s) \<leftarrow> ext_call (c_indet E) s;
         (blk, s) \<leftarrow> fresh_block E PSTAT_SIZE s;
         let p_st = set_stat_flag (new_stat f_mode timestamp timestamp timestamp 0 uid gid junk) STAT_type 1;
         val \<leftarrow> seri_val p_st blk;
         (ret, s) \<leftarrow> add_evict n E p path val PSTAT_SIZE s;
         (ret, s) \<leftarrow> (if ret \<noteq> 0 then replace_removed E p path val PSTAT_SIZE s else Some (0, s));
         if ret \<noteq> 0 then Some (-1, s)
         else add_to_mq E p path CREATE timestamp s
       }
     }
   }"

text \<open>\<open>pacon_create_open\<close>; the mode it passes to \<open>pacon_create\<close> is the file pointer, which is not used.\<close>

definition pacon_create_open ::
  "nat \<Rightarrow> 'e ext \<Rightarrow> pacon \<Rightarrow> string \<Rightarrow> u32 \<Rightarrow> u32 \<Rightarrow> u32 \<Rightarrow> pacon_file \<Rightarrow> 'e client \<Rightarrow> (int \<times> pacon_file \<times> 'e client) option" where
  "pacon_create_open n E p path flag mode ptr p_file s = do {
     (ret, s) \<leftarrow> pacon_create n E p path ptr s;
     if ret \<noteq> 0 then Some (-1, p_file, s)
     else Some (0, p_file\<lparr>f_fd := -1, open_mode := mode, hit_remote_cr := 0\<rparr>, s)
   }"

text \<open>In the branch for an entry marked as removed \<open>pacon_mkdir\<close> returns before the commit queue.\<close>

definition pacon_mkdir ::
  "nat \<Rightarrow> 'e ext \<Rightarrow> pacon \<Rightarrow> string \<Rightarrow> u32 \<Rightarrow> 'e client \<Rightarrow> (int \<times> 'e client) option" where
  "pacon_mkdir n E p path mode s = do {
     (ret, s) \<leftarrow> permitted E p path 0 MKDIR_PC s;
     if ret < 0 then Some (-1, s)
     else do {
       dir_mode \<leftarrow> new_mode p (df_dir_mode (pf p)) sp_dir_modes ret;
       (ret, s) \<leftarrow> check_parent_dir n E p path s;
       if ret \<noteq> 0 then Some (-1, s)
       else do {
         (ct, s) \<leftarrow> ext_call (c_time E) s;
         (at, s) \<leftarrow> ext_call (c_time E) s;
         (mt, s) \<leftarrow> ext_call (c_time E) s;
         (uid, s) \<leftarrow> ext_call (c_getuid E) s;
         (gid, s) \<leftarrow> ext_call (c_getgid E) s;
         (junk, s) \<leftarrow> ext_call (c_indet E) s;
         (blk, s) \<leftarrow> fresh_block E PSTAT_SIZE s;
         val \<leftarrow> seri_val (new_stat dir_mode ct at mt 0 uid gid junk) blk;
         (ret, s) \<leftarrow> add_evict n E p path val PSTAT_SIZE s;
         if ret \<noteq> 0 then replace_removed E p path val PSTAT_SIZE s
         else add_to_mq E p path MKDIR ct s
       }
     }
   }"

subsection \<open>Attributes\<close>

text \<open>The index of the first joined region the path belongs to.\<close>

fun find_region :: "string \<Rightarrow> string list \<Rightarrow> nat \<Rightarrow> nat option" where
  "find_region path [] cr = None"
| "find_region path (root # roots) cr =
     (if child_cmp_new path root 1 > 0 then Some cr else find_region path roots (Suc cr))"

text \<open>
  The attributes of a file that is on the file system come from there; the result of that
  \<open>stat\<close> is not looked at, so when it fails the four fields are what was on the stack.
\<close>

definition refresh_stat ::
  "'e ext \<Rightarrow> string \<Rightarrow> pacon_stat \<Rightarrow> 'e client \<Rightarrow> (pacon_stat \<times> 'e client) option" where
  "refresh_stat E path st s = do {
     (r, s) \<leftarrow> ext_call (c_stat E path) s;
     (case r of
        Some buf \<Rightarrow> Some (st\<lparr>ps_ctime := ucast (st_ctime buf), ps_atime := ucast (st_atime buf),
                               ps_mtime := ucast (st_mtime buf), ps_size := ucast (st_size buf)\<rparr>, s)
      | None \<Rightarrow> do {
          (ct, s) \<leftarrow> ext_call (c_indet E) s;
          (at, s) \<leftarrow> ext_call (c_indet E) s;
          (mt, s) \<leftarrow> ext_call (c_indet E) s;
          (sz, s) \<leftarrow> ext_call (c_indet E) s;
          Some (st\<lparr>ps_ctime := ct, ps_atime := at, ps_mtime := mt, ps_size := sz\<rparr>, s)
        })
   }"

definition getattr_hit ::
  "'e ext \<Rightarrow> string \<Rightarrow> bytes \<Rightarrow> pacon_stat \<Rightarrow> 'e client \<Rightarrow> (int \<times> pacon_stat \<times> 'e client) option" where
  "getattr_hit E path val st s = do {
     st_tmp \<leftarrow> deseri_val val;
     let st = st_tmp\<lparr>ps_open_counter := ps_open_counter st, ps_fd := ps_fd st\<rparr>;
     if get_stat_flag st STAT_rm = 1 then Some (-1, st, s)
     else if get_stat_flag st STAT_inline = 0 \<and> get_stat_flag st STAT_file_created = 1 then do {
       (st, s) \<leftarrow> refresh_stat E path st s;
       Some (0, st, s)
     }
     else Some (0, st, s)
   }"

text \<open>The struct \<open>pacon_getattr\<close> fills in from the file system on a miss: all flags are 0.\<close>

definition getattr_stat :: "stat \<Rightarrow> pacon_stat \<Rightarrow> pacon_stat" where
  "getattr_stat buf st =
     \<lparr>ps_flags = 0, ps_mode = st_mode buf, ps_ctime = ucast (st_ctime buf), ps_atime = ucast (st_atime buf),
      ps_mtime = ucast (st_mtime buf), ps_size = ucast (st_size buf), ps_uid = st_uid buf, ps_gid = st_gid buf,
      ps_nlink = ucast (st_nlink buf), ps_open_counter = 0, ps_fd = ps_fd st\<rparr>"

fun pacon_getattr ::
  "nat \<Rightarrow> 'e ext \<Rightarrow> pacon \<Rightarrow> string \<Rightarrow> pacon_stat \<Rightarrow> 'e client \<Rightarrow> (int \<times> pacon_stat \<times> 'e client) option" where
  "pacon_getattr 0 E p path st s = None"
| "pacon_getattr (Suc n) E p path st s = do {
     (ret, s) \<leftarrow> permitted E p path 1 READ_PC s;
     if ret < 0 then Some (-1, st, s)
     else do {
       (val, s) \<leftarrow> dmkv_get E (kv_of p) path s;
       (case val of
          Some v \<Rightarrow> getattr_hit E path v st s
        | None \<Rightarrow> do {
            (r, s) \<leftarrow> (if child_cmp_new path (root_of p) 1 > 0 then ext_call (c_stat E path) s else Some (None, s));
            (case r of
               None \<Rightarrow>
                 if cr_num (pf p) > 0 then
                   (if cr_num (pf p) \<le> length (remote_cr_root (pf p)) then
                     (case find_region path (take (cr_num (pf p)) (remote_cr_root (pf p))) 0 of
                        None \<Rightarrow> Some (-1, st, s)
                      | Some cr \<Rightarrow>
                          if cr < length (remote_pacon_list p) then do {
                            (ret, st, s) \<leftarrow> pacon_getattr n E (remote_pacon_list p ! cr) path st s;
                            Some (if ret \<noteq> 0 then -1 else 0, st, s)
                          }
                          else None)
                    else None)
                 else Some (-1, st, s)
             | Some buf \<Rightarrow> do {
                 let st = getattr_stat buf st;
                 (blk, s) \<leftarrow> fresh_block E PSTAT_SIZE s;
                 val \<leftarrow> seri_val st blk;
                 (_, s) \<leftarrow> add_evict n E p path val PSTAT_SIZE s;
                 Some (0, st, s)
               })
          })
     }
   }"

declare pacon_getattr.simps [simp del]

subsection \<open>Removing and renaming\<close>

definition pacon_rm ::
  "nat \<Rightarrow> 'e ext \<Rightarrow> pacon \<Rightarrow> string \<Rightarrow> 'e client \<Rightarrow> (int \<times> 'e client) option" where
  "pacon_rm n E p path s = do {
     (ret, s) \<leftarrow> permitted E p path 1 RM_PC s;
     if ret < 0 then Some (-1, s)
     else do {
       (g, s) \<leftarrow> dmkv_get_cas E (kv_of p) path s;
       (ret, g, s) \<leftarrow>
         (case g of
            None \<Rightarrow> do {
              (ret, s) \<leftarrow> load_to_pacon n E p path s;
              if ret = -1 then Some (-1, None, s)
              else do { (g, s) \<leftarrow> dmkv_get_cas E (kv_of p) path s; Some (0 :: int, g, s) }
            }
          | Some vc \<Rightarrow> Some (0, Some vc, s));
       if ret = -1 then Some (-1, s)
       else do {
         (val, cas) \<leftarrow> g;
         p_st \<leftarrow> deseri_val val;
         (_, s) \<leftarrow> cas_flag_loop n E p path STAT_rm p_st val cas s;
         (t, s) \<leftarrow> ext_call (c_time E) s;
         add_to_mq E p path RM t s
       }
     }
   }"

text \<open>The last step of \<open>pacon_rmdir\<close> and all of \<open>pacon_rmdir_clean\<close> empty the table of file descriptors.\<close>

definition pacon_rmdir ::
  "nat \<Rightarrow> 'e ext \<Rightarrow> pacon \<Rightarrow> string \<Rightarrow> 'e client \<Rightarrow> (int \<times> 'e client) option" where
  "pacon_rmdir n E p path s = do {
     (ret, s) \<leftarrow> permitted E p path 0 RMDIR_PC s;
     if ret < 0 then Some (-1, s)
     else do {
       (ret, s) \<leftarrow> ensure_cached n E p path s;
       if ret = -1 then Some (-1, s)
       else do {
         path_new \<leftarrow> sprintf_buf PATH_MAX (show_int (current_barrier_id s) @ path);
         (t, s) \<leftarrow> ext_call (c_time E) s;
         (ret, s) \<leftarrow> add_to_local_rpc E p path_new RMDIR t s;
         if ret = -1 then Some (-1, s)
         else do {
           (ret, s) \<leftarrow> dmkv_del E (kv_of p) path s;
           if ret \<noteq> 0 then Some (-1, s) else Some (ret, fdht_clean s)
         }
       }
     }
   }"

definition pacon_rmdir_clean :: "'e client \<Rightarrow> int \<times> 'e client" where
  "pacon_rmdir_clean s = (0, fdht_clean s)"

definition pacon_rename ::
  "nat \<Rightarrow> 'e ext \<Rightarrow> pacon \<Rightarrow> string \<Rightarrow> string \<Rightarrow> 'e client \<Rightarrow> (int \<times> 'e client) option" where
  "pacon_rename n E p path newpath s = do {
     (ret, s) \<leftarrow> permitted E p path 0 RENAME_PC s;
     if ret < 0 then Some (-1, s)
     else do {
       (ret, s) \<leftarrow> ensure_cached n E p path s;
       if ret = -1 then Some (-1, s)
       else do {
         (val, s) \<leftarrow> dmkv_get E (kv_of p) newpath s;
         if val \<noteq> None then Some (-1, s)
         else do {
           (ret, s) \<leftarrow> load_to_pacon n E p newpath s;
           if ret \<noteq> -1 then Some (-1, s)
           else if length path > PATH_MAX div 2 \<or> length newpath > PATH_MAX div 2 then Some (-1, s)
           else do {
             joint_path \<leftarrow> sprintf_buf PATH_MAX (path @ ''-'' @ newpath);
             joint_path_new \<leftarrow> sprintf_buf PATH_MAX (show_int (current_barrier_id s) @ joint_path);
             (t, s) \<leftarrow> ext_call (c_time E) s;
             (ret, s) \<leftarrow> add_to_local_rpc E p joint_path_new RENAME t s;
             Some (if ret = -1 then -1 else 0, s)
           }
         }
       }
     }
   }"

end
