(* ===== verification/File_Data.thy ===== *)
theory File_Data
  imports Namespace
begin

text \<open>
  The file data operations of the client (\<open>pacon.c\<close>): \<open>pacon_open\<close>, \<open>pacon_close\<close>,
  \<open>pacon_create_write\<close>, \<open>pacon_read\<close>, \<open>pacon_read_new\<close>, \<open>pacon_write\<close>, \<open>pacon_write_new\<close> and
  \<open>pacon_fsync\<close>. The data of a small file is kept inline behind its metadata in the cache;
  larger files go to the distributed file system. \<open>size_t\<close> and \<open>off_t\<close> are 64 bit words,
  \<open>int\<close> results are read through \<open>as_int\<close>, so the conversions of the C code are kept.
\<close>

definition as_int :: "u64 \<Rightarrow> int" where
  "as_int w = sint (ucast w :: u32)"

text \<open>\<open>int data_size = strlen (buf); if (data_size > size)\<close>: the \<open>int\<close> is converted to \<open>size_t\<close>.\<close>

definition strlen_exceeds :: "string \<Rightarrow> u64 \<Rightarrow> bool" where
  "strlen_exceeds t sz \<longleftrightarrow> (scast (word_of_nat (length t) :: u32) :: u64) > sz"

subsection \<open>Opening\<close>

text \<open>
  The loop \<open>while (1) { st.open_counter++; seri_val; ret = dmkv_cas (...); ... }\<close> of \<open>pacon_open\<close>,
  \<open>pacon_read\<close> and \<open>pacon_write\<close>: 0 when the counter is stored, -1 when the item is gone.
\<close>

fun open_counter_loop ::
  "nat \<Rightarrow> 'e ext \<Rightarrow> pacon \<Rightarrow> string \<Rightarrow> pacon_stat \<Rightarrow> bytes \<Rightarrow> u64 \<Rightarrow> 'e client \<Rightarrow> (int \<times> 'e client) option" where
  "open_counter_loop 0 E p path st val cas s = None"
| "open_counter_loop (Suc n) E p path st val cas s = do {
     let st = st\<lparr>ps_open_counter := ps_open_counter st + 1\<rparr>;
     val \<leftarrow> seri_val st val;
     (ret, s) \<leftarrow> dmkv_cas E (kv_of p) path val PSTAT_SIZE cas s;
     if ret = 1 then do {
       (g, s) \<leftarrow> dmkv_get_cas E (kv_of p) path s;
       (val, cas) \<leftarrow> g;
       st \<leftarrow> deseri_val val;
       open_counter_loop n E p path st val cas s
     }
     else if ret = -1 then Some (-1, s)
     else if ret = 0 then Some (0, s)
     else open_counter_loop n E p path st val cas s
   }"

text \<open>The struct that is cached for a file found on the file system; \<open>open_counter\<close> and \<open>fd\<close> are not set before.\<close>

definition opened_stat :: "stat \<Rightarrow> u32 \<Rightarrow> u32 \<Rightarrow> pacon_stat" where
  "opened_stat buf junk_counter junk_fd =
     set_stat_flag \<lparr>ps_flags = 0, ps_mode = st_mode buf, ps_ctime = ucast (st_ctime buf), ps_atime = ucast (st_atime buf),
       ps_mtime = ucast (st_mtime buf), ps_size = ucast (st_size buf), ps_uid = st_uid buf, ps_gid = st_gid buf,
       ps_nlink = ucast (st_nlink buf), ps_open_counter = junk_counter + 1, ps_fd = junk_fd\<rparr> STAT_file_created 1"

text \<open>From the label \<open>retry\<close> on; the last argument but one is the open file that the caller passed.\<close>

fun open_retry ::
  "nat \<Rightarrow> 'e ext \<Rightarrow> pacon \<Rightarrow> string \<Rightarrow> u32 \<Rightarrow> u32 \<Rightarrow> pacon_file \<Rightarrow> 'e client \<Rightarrow> (int \<times> pacon_file \<times> 'e client) option" where
  "open_retry 0 E p path flags mode f s = None"
| "open_retry (Suc n) E p path flags mode f s = do {
     (g, s) \<leftarrow> dmkv_get_cas E (kv_of p) path s;
     (case g of
        None \<Rightarrow>
          if child_cmp_new path (root_of p) 1 = 0 then
            (if cr_num (pf p) = 0 then Some (-1, f, s)
             else if cr_num (pf p) \<le> length (remote_cr_root (pf p)) then
               (case find_region path (take (cr_num (pf p)) (remote_cr_root (pf p))) 0 of
                  None \<Rightarrow> Some (-1, f, s)
                | Some cr \<Rightarrow>
                    if cr < length (remote_pacon_list p) then do {
                      (ret, s) \<leftarrow> permitted E (remote_pacon_list p ! cr) path 1 RW_PC s;
                      if ret < 0 then Some (-1, f, s)
                      else do {
                        let f = f\<lparr>open_flags := flags, open_mode := mode, hit_remote_cr := 0\<rparr>;
                        (ret, f, s) \<leftarrow> open_retry n E (remote_pacon_list p ! cr) path flags mode f s;
                        if ret \<noteq> 0 then Some (-1, f, s) else Some (0, f\<lparr>hit_remote_cr := 1\<rparr>, s)
                      }
                    }
                    else None)
             else None)
          else do {
            (st_ret, s) \<leftarrow> ext_call (c_stat E path) s;
            (fd, s) \<leftarrow> ext_call (c_open E path flags mode) s;
            (case st_ret of
               None \<Rightarrow> Some (-1, f, s)
             | Some buf \<Rightarrow>
                 if fd = -1 then Some (-1, f, s)
                 else do {
                   (junk_c, s) \<leftarrow> ext_call (c_indet E) s;
                   (junk_fd, s) \<leftarrow> ext_call (c_indet E) s;
                   (blk, s) \<leftarrow> fresh_block E PSTAT_SIZE s;
                   val \<leftarrow> seri_val (opened_stat buf junk_c junk_fd) blk;
                   (res, s) \<leftarrow> add_evict n E p path val PSTAT_SIZE s;
                   if res \<noteq> 0 then open_retry n E p path flags mode f s
                   else Some (0, f\<lparr>f_fd := fd\<rparr>, add_local_fd path fd s)
                 })
          }
      | Some (val, cas) \<Rightarrow> do {
          st \<leftarrow> deseri_val val;
          if get_stat_flag st STAT_file_created = 1 \<and> get_stat_flag st STAT_inline = 0 \<and> ps_size st > 0 then do {
            (fd, s) \<leftarrow> ext_call (c_open E path flags mode) s;
            if fd = -1 then Some (-1, f, s)
            else do {
              (ret, s) \<leftarrow> open_counter_loop n E p path st val cas s;
              if ret = -1 then Some (-1, f, s)
              else Some (0, f\<lparr>f_fd := fd\<rparr>, add_local_fd path fd s)
            }
          }
          else Some (0, f\<lparr>f_fd := -1\<rparr>, s)
        })
   }"

definition pacon_open ::
  "nat \<Rightarrow> 'e ext \<Rightarrow> pacon \<Rightarrow> string \<Rightarrow> u32 \<Rightarrow> u32 \<Rightarrow> pacon_file \<Rightarrow> 'e client \<Rightarrow> (int \<times> pacon_file \<times> 'e client) option" where
  "pacon_open n E p path flags mode f s = do {
     (ret, s) \<leftarrow> permitted E p path 1 RW_PC s;
     if ret < 0 then Some (-1, f, s)
     else open_retry n E p path flags mode (f\<lparr>open_flags := flags, open_mode := mode, hit_remote_cr := 0\<rparr>) s
   }"

definition pacon_close :: "pacon \<Rightarrow> pacon_file \<Rightarrow> 'e client \<Rightarrow> int \<times> 'e client" where
  "pacon_close p f s = (0, s)"

subsection \<open>Creating a file with its data\<close>

text \<open>
  What \<open>pacon_create_write\<close> does when the entry was not added; the result is -1 when it returns.
  An entry that is there and not removed sets \<open>ret\<close> to -1, and the function goes on to the
  commit queue.
\<close>

definition create_write_exists ::
  "'e ext \<Rightarrow> pacon \<Rightarrow> string \<Rightarrow> bytes \<Rightarrow> nat \<Rightarrow> 'e client \<Rightarrow> (int \<times> 'e client) option" where
  "create_write_exists E p path val len s = do {
     (tmp_val, s) \<leftarrow> dmkv_get E (kv_of p) path s;
     (case tmp_val of
        None \<Rightarrow> Some (-1, s)
      | Some v \<Rightarrow> do {
          tmp_p_st \<leftarrow> deseri_val v;
          if get_stat_flag tmp_p_st STAT_rm = 1 then do {
            (ret, s) \<leftarrow> dmkv_set E (kv_of p) path val len s;
            Some (if ret \<noteq> 0 then -1 else 0, s)
          }
          else Some (0, s)
        })
   }"

definition pacon_create_write ::
  "nat \<Rightarrow> 'e ext \<Rightarrow> pacon \<Rightarrow> string \<Rightarrow> u32 \<Rightarrow> bytes \<Rightarrow> u64 \<Rightarrow> pacon_file \<Rightarrow> 'e client \<Rightarrow> (int \<times> pacon_file \<times> 'e client) option" where
  "pacon_create_write n E p path mode buf sz f s = do {
     (ret, s) \<leftarrow> permitted E p path 1 CREATE_PC s;
     if ret < 0 then Some (-1, f, s)
     else do {
       f_mode \<leftarrow> new_mode p (df_f_mode (pf p)) sp_f_modes ret;
       (ret, s) \<leftarrow> check_parent_dir n E p path s;
       if ret \<noteq> 0 then Some (-1, f, s)
       else if sz < of_nat (INLINE_MAX - 1) then do {
         (ct, s) \<leftarrow> ext_call (c_time E) s;
         (at, s) \<leftarrow> ext_call (c_time E) s;
         (mt, s) \<leftarrow> ext_call (c_time E) s;
         (uid, s) \<leftarrow> ext_call (c_getuid E) s;
         (gid, s) \<leftarrow> ext_call (c_getgid E) s;
         (junk, s) \<leftarrow> ext_call (c_indet E) s;
         (blk, s) \<leftarrow> fresh_block E (PSTAT_SIZE + INLINE_MAX) s;
         let p_st = set_stat_flag (set_stat_flag (new_stat f_mode ct at mt (ucast sz) uid gid junk) STAT_type 1) STAT_inline 1;
         val \<leftarrow> seri_inline_data (Some p_st) buf blk;
         (ret, s) \<leftarrow> add_evict n E p path val (PSTAT_SIZE + unat sz) s;
         (ret, s) \<leftarrow> (if ret \<noteq> 0 then create_write_exists E p path val (PSTAT_SIZE + unat sz) s else Some (0, s));
         if ret = -1 then Some (-1, f, s)
         else do {
           (ret, s) \<leftarrow> add_to_mq E p path CREATE ct s;
           Some (ret, f\<lparr>f_fd := -1\<rparr>, s)
         }
       }
       else Some (-1, f, s)
     }
   }"

subsection \<open>Reading\<close>

text \<open>\<open>pread (fd, buf, size, offset)\<close> puts what it read at the start of \<open>buf\<close>.\<close>

definition pread_buf ::
  "'e ext \<Rightarrow> int \<Rightarrow> bytes \<Rightarrow> u64 \<Rightarrow> u64 \<Rightarrow> 'e client \<Rightarrow> (int \<times> bytes \<times> 'e client) option" where
  "pread_buf E fd buf sz offset s = do {
     ((ret, data), s) \<leftarrow> ext_call (c_pread E fd sz offset) s;
     buf \<leftarrow> memcpy buf 0 data (length data);
     Some (ret, buf, s)
   }"

text \<open>
  A file of a joined region: the index into \<open>remote_pacon_list\<close> is \<open>hit_remote_cr\<close>, the flag
  that \<open>pacon_open\<close> sets to 1, and the same open file goes down to the call on that region.
\<close>

fun pacon_read ::
  "nat \<Rightarrow> 'e ext \<Rightarrow> pacon \<Rightarrow> string \<Rightarrow> pacon_file \<Rightarrow> bytes \<Rightarrow> u64 \<Rightarrow> u64 \<Rightarrow> 'e client \<Rightarrow>
   (int \<times> pacon_file \<times> bytes \<times> 'e client) option" where
  "pacon_read 0 E p path f buf sz offset s = None"
| "pacon_read (Suc n) E p path f buf sz offset s = do {
     (ret, s) \<leftarrow> permitted E p path 1 READ_PC s;
     if ret < 0 then Some (-1, f, buf, s)
     else if hit_remote_cr f > 0 then
       (if nat (hit_remote_cr f) < length (remote_pacon_list p) then do {
          (ret, f, buf, s) \<leftarrow> pacon_read n E (remote_pacon_list p ! nat (hit_remote_cr f)) path f buf sz offset s;
          Some (ret, f, buf, s)
        }
        else None)
     else if f_fd f \<noteq> -1 then do {
       (ret, buf, s) \<leftarrow> pread_buf E (f_fd f) buf sz offset s;
       Some (ret, f, buf, s)
     }
     else do {
       (g, s) \<leftarrow> dmkv_get_cas E (kv_of p) path s;
       (case g of
          None \<Rightarrow> Some (-1, f, buf, s)
        | Some (val, cas) \<Rightarrow> do {
            (blk, s) \<leftarrow> fresh_block E INLINE_MAX s;
            (new_st, inline_data) \<leftarrow> deseri_inline_data blk val;
            if get_stat_flag new_st STAT_inline = 0 \<and> get_stat_flag new_st STAT_file_created = 1 \<and> ps_size new_st > 0 then do {
              (fd, s) \<leftarrow> ext_call (c_open E path (f_flags f) (f_mode f)) s;
              if fd = -1 then Some (-1, f, buf, s)
              else do {
                (ret, s) \<leftarrow> open_counter_loop n E p path new_st val cas s;
                if ret = -1 then Some (-1, f, buf, s)
                else do {
                  (ret, buf, s) \<leftarrow> pread_buf E fd buf sz offset (add_local_fd path fd s);
                  Some (ret, f\<lparr>f_fd := fd\<rparr>, buf, s)
                }
              }
            }
            else if offset + sz > ucast (ps_size new_st) then Some (-1, f, buf, s)
            else do {
              buf \<leftarrow> memcpy buf 0 (drop (unat offset) inline_data) (unat sz);
              buf \<leftarrow> poke buf (unat (offset + sz)) NUL;
              Some (as_int sz, f, buf, s)
            }
          })
     }
   }"

definition read_dfs ::
  "'e ext \<Rightarrow> string \<Rightarrow> pacon_file \<Rightarrow> bytes \<Rightarrow> u64 \<Rightarrow> u64 \<Rightarrow> 'e client \<Rightarrow> (int \<times> pacon_file \<times> bytes \<times> 'e client) option" where
  "read_dfs E path f buf sz offset s = do {
     (fd, s) \<leftarrow> ext_call (c_open E path O_RDWR 0) s;
     (ret, buf, s) \<leftarrow> pread_buf E fd buf sz offset s;
     Some (ret, f\<lparr>f_fd := fd\<rparr>, buf, s)
   }"

text \<open>After a remote read that worked the function goes on with the local one.\<close>

fun pacon_read_new ::
  "nat \<Rightarrow> 'e ext \<Rightarrow> pacon \<Rightarrow> string \<Rightarrow> pacon_file \<Rightarrow> bytes \<Rightarrow> u64 \<Rightarrow> u64 \<Rightarrow> 'e client \<Rightarrow>
   (int \<times> pacon_file \<times> bytes \<times> 'e client) option" where
  "pacon_read_new 0 E p path f buf sz offset s = None"
| "pacon_read_new (Suc n) E p path f buf sz offset s = do {
     (ret, s) \<leftarrow> permitted E p path 1 READ_PC s;
     if ret < 0 then Some (-1, f, buf, s)
     else do {
       (ret, f, buf, s) \<leftarrow>
         (if hit_remote_cr f > 0 then
            (if nat (hit_remote_cr f) < length (remote_pacon_list p)
             then pacon_read_new n E (remote_pacon_list p ! nat (hit_remote_cr f)) path f buf sz offset s
             else None)
          else Some (0, f, buf, s));
       if ret = -1 then read_dfs E path f buf sz offset s
       else if f_fd f > 0 then do {
         (ret, buf, s) \<leftarrow> pread_buf E (f_fd f) buf sz offset s;
         Some (ret, f, buf, s)
       }
       else do {
         (g, s) \<leftarrow> dmkv_get_cas E (kv_of p) path s;
         (case g of
            None \<Rightarrow> Some (-1, f, buf, s)
          | Some (val, cas) \<Rightarrow> do {
              (blk, s) \<leftarrow> fresh_block E INLINE_MAX s;
              (new_st, inline_data) \<leftarrow> deseri_inline_data blk val;
              if get_stat_flag new_st STAT_inline = 1 then
                (if offset + sz > ucast (ps_size new_st) then Some (-1, f, buf, s)
                 else do {
                   buf \<leftarrow> memcpy buf 0 (drop (unat offset) inline_data) (unat sz);
                   buf \<leftarrow> poke buf (unat sz) NUL;
                   Some (as_int sz, f, buf, s)
                 })
              else read_dfs E path f buf sz offset s
            })
       }
     }
   }"

subsection \<open>Writing\<close>

text \<open>
  The new inline data: the old bytes before \<open>offset\<close>, the written ones, the old bytes behind them,
  and a terminator at \<open>stop\<close>.
\<close>

definition splice :: "bytes \<Rightarrow> bytes \<Rightarrow> bytes \<Rightarrow> u64 \<Rightarrow> u64 \<Rightarrow> u32 \<Rightarrow> int \<Rightarrow> bytes option" where
  "splice new_data inline_data buf sz offset old_size stop = do {
     new_data \<leftarrow> memcpy new_data 0 inline_data (unat offset);
     new_data \<leftarrow> memcpy new_data (unat offset) buf (unat sz);
     new_data \<leftarrow>
       (if offset + sz < ucast old_size
        then memcpy new_data (unat offset + unat sz) (drop (unat offset + unat sz) inline_data)
               (unat (ucast old_size - (offset + sz)))
        else Some new_data);
     guard (0 \<le> stop);
     poke new_data (nat stop) NUL
   }"

text \<open>\<open>pwrite (fd, buf, size, offset)\<close> reads \<open>size\<close> bytes of the block.\<close>

definition pwrite_buf ::
  "'e ext \<Rightarrow> int \<Rightarrow> bytes \<Rightarrow> u64 \<Rightarrow> u64 \<Rightarrow> 'e client \<Rightarrow> (int \<times> 'e client) option" where
  "pwrite_buf E fd buf sz offset s = do {
     guard (unat sz \<le> length buf);
     ext_call (c_pwrite E fd (take (unat sz) buf) offset) s
   }"

text \<open>
  \<open>char val[PSTAT_SIZE+INLINE_MAX]; seri_inline_data (&new_st, ..., val); ret = dmkv_cas (...)\<close>; after a
  conflict, the result 1, the callers go back to \<open>retry\<close>.
\<close>

definition store_inline ::
  "'e ext \<Rightarrow> pacon \<Rightarrow> string \<Rightarrow> pacon_stat \<Rightarrow> bytes \<Rightarrow> nat \<Rightarrow> u64 \<Rightarrow> 'e client \<Rightarrow> (int \<times> 'e client) option" where
  "store_inline E p path new_st data len cas s = do {
     (blk, s) \<leftarrow> fresh_block E (PSTAT_SIZE + INLINE_MAX) s;
     val \<leftarrow> seri_inline_data (Some new_st) data blk;
     dmkv_cas E (kv_of p) path val (PSTAT_SIZE + len) cas s
   }"

text \<open>\<open>pacon_write\<close> from the label \<open>begin\<close> on.\<close>

fun write_begin ::
  "nat \<Rightarrow> 'e ext \<Rightarrow> pacon \<Rightarrow> string \<Rightarrow> pacon_file \<Rightarrow> bytes \<Rightarrow> u64 \<Rightarrow> u64 \<Rightarrow> 'e client \<Rightarrow> (int \<times> pacon_file \<times> 'e client) option" where
  "write_begin 0 E p path f buf sz offset s = None"
| "write_begin (Suc n) E p path f buf sz offset s =
     (if f_fd f \<noteq> -1 then do {
        (ret, s) \<leftarrow> pwrite_buf E (f_fd f) buf sz offset s;
        Some (ret, f, s)
      }
      else do {
        (g, s) \<leftarrow> dmkv_get_cas E (kv_of p) path s;
        (val, cas) \<leftarrow> g;
        (blk, s) \<leftarrow> fresh_block E INLINE_MAX s;
        (new_st, inline_data) \<leftarrow> deseri_inline_data blk val;
        if get_stat_flag new_st STAT_inline = 0 \<and> get_stat_flag new_st STAT_file_created = 0 then
          (if sz + offset < of_nat (INLINE_MAX - 1) then do {
             (at, s) \<leftarrow> ext_call (c_time E) s;
             (mt, s) \<leftarrow> ext_call (c_time E) s;
             let new_st = set_stat_flag (new_st\<lparr>ps_flags := f_flags f\<rparr>) STAT_inline 1;
             let new_st = new_st\<lparr>ps_atime := at, ps_mtime := mt, ps_size := ucast (sz + offset)\<rparr>;
             (ret, s) \<leftarrow> store_inline E p path new_st buf (unat sz) cas s;
             if ret = 1 then write_begin n E p path f buf sz offset s
             else if ret = -1 then Some (-1, f, s)
             else do {
               (t, s) \<leftarrow> ext_call (c_time E) s;
               (_, s) \<leftarrow> add_to_mq E p path WRITE t s;
               Some (as_int sz, f\<lparr>f_size := ucast (sz + offset)\<rparr>, s)
             }
           }
           else Some (-1, f, s))
        else if get_stat_flag new_st STAT_inline = 1 \<and> get_stat_flag new_st STAT_file_created = 0 then do {
          let old = (ucast (ps_size new_st) :: u64);
          let new_size = as_int (if old - offset + sz > old then old - offset + sz else old);
          if new_size < int INLINE_MAX - 1 then do {
            (blk, s) \<leftarrow> fresh_block E INLINE_MAX s;
            new_data \<leftarrow> splice blk inline_data buf sz offset (ps_size new_st) (new_size + 1);
            (at, s) \<leftarrow> ext_call (c_time E) s;
            (mt, s) \<leftarrow> ext_call (c_time E) s;
            let new_st = new_st\<lparr>ps_atime := at, ps_mtime := mt, ps_size := word_of_int new_size\<rparr>;
            guard (0 \<le> new_size);
            (ret, s) \<leftarrow> store_inline E p path new_st new_data (nat new_size) cas s;
            if ret = 1 then write_begin n E p path f buf sz offset s
            else if ret = -1 then Some (-1, f, s)
            else do {
              (t, s) \<leftarrow> ext_call (c_time E) s;
              (_, s) \<leftarrow> add_to_mq E p path WRITE t s;
              Some (as_int sz, f\<lparr>f_size := ucast (sz + offset)\<rparr>, s)
            }
          }
          else Some (-1, f, s)
        }
        else if get_stat_flag new_st STAT_inline = 0 \<and> get_stat_flag new_st STAT_file_created = 1 then do {
          (fd, s) \<leftarrow> ext_call (c_open E path (f_flags f) (f_mode f)) s;
          if fd = -1 then Some (-1, f, s)
          else do {
            (ret, s) \<leftarrow> open_counter_loop n E p path new_st val cas s;
            if ret = -1 then Some (-1, f, s)
            else do {
              let s = add_local_fd path fd s;
              (t, s) \<leftarrow> ext_call (c_time E) s;
              (_, s) \<leftarrow> add_to_mq E p path WRITE t s;
              write_begin n E p path (f\<lparr>f_fd := fd\<rparr>) buf sz offset s
            }
          }
        }
        else Some (-1, f, s)
      })"

definition pacon_write ::
  "nat \<Rightarrow> 'e ext \<Rightarrow> pacon \<Rightarrow> string \<Rightarrow> pacon_file \<Rightarrow> bytes \<Rightarrow> u64 \<Rightarrow> u64 \<Rightarrow> 'e client \<Rightarrow> (int \<times> pacon_file \<times> 'e client) option" where
  "pacon_write n E p path f buf sz offset s = do {
     (ret, s) \<leftarrow> permitted E p path 1 WRITE_PC s;
     if ret < 0 then Some (-1, f, s)
     else do {
       t \<leftarrow> cstr buf;
       if strlen_exceeds t sz then Some (-1, f, s)
       else write_begin n E p path f buf sz offset s
     }
   }"

text \<open>
  \<open>pacon_write_new\<close> from the label \<open>retry\<close> on. \<open>new_size\<close> is the variable of the function, which has
  no value before the first inline write. The end, from the label \<open>update\<close> on, stores the block
  \<open>val\<close> that was read, and takes the struct \<open>new_st\<close> only to decide about a retry.
\<close>

definition write_update ::
  "'e ext \<Rightarrow> pacon \<Rightarrow> string \<Rightarrow> pacon_file \<Rightarrow> u64 \<Rightarrow> pacon_stat \<Rightarrow> bytes \<Rightarrow> u64 \<Rightarrow> int \<Rightarrow> u32 \<Rightarrow> 'e client \<Rightarrow>
   (bool \<times> int \<times> pacon_file \<times> 'e client) option" where
  "write_update E p path f sz new_st val cas_tmp new_size exetime s = do {
     let new_st = set_stat_flag (new_st\<lparr>ps_atime := exetime, ps_mtime := exetime, ps_size := word_of_int new_size\<rparr>) STAT_inline 0;
     (ret, s) \<leftarrow> dmkv_cas E (kv_of p) path val PSTAT_SIZE cas_tmp s;
     if ret = 1 \<and> (ps_atime new_st < exetime \<or> ps_size new_st < word_of_int new_size)
     then Some (True, 0, f, s)
     else Some (False, as_int sz, f\<lparr>f_size := word_of_int new_size\<rparr>, s)
   }"

definition write_dfs ::
  "nat \<Rightarrow> 'e ext \<Rightarrow> pacon \<Rightarrow> string \<Rightarrow> pacon_file \<Rightarrow> bytes \<Rightarrow> u64 \<Rightarrow> u64 \<Rightarrow> pacon_stat \<Rightarrow> bytes \<Rightarrow> bytes \<Rightarrow> u64 \<Rightarrow> int \<Rightarrow> 'e client \<Rightarrow>
   (bool \<times> int \<times> pacon_file \<times> 'e client) option" where
  "write_dfs n E p path f buf sz offset new_st inline_data val cas_tmp new_size s = do {
     (fd, s) \<leftarrow> open_wait n E path s;
     let f = f\<lparr>f_fd := fd\<rparr>;
     (ok, s) \<leftarrow>
       (if get_stat_flag new_st STAT_inline = 1 then do {
          (ret, s) \<leftarrow> pwrite_buf E fd inline_data (ucast (ps_size new_st)) 0 s;
          Some (word_of_int ret = ps_size new_st, s)
        }
        else Some (True, s));
     if \<not> ok then Some (False, -1, f, s)
     else do {
       (ret, s) \<leftarrow> pwrite_buf E fd buf sz offset s;
       if word_of_int ret \<noteq> sz then Some (False, -1, f, s)
       else do {
         (exetime, s) \<leftarrow> ext_call (c_time E) s;
         write_update E p path f sz new_st val cas_tmp new_size exetime s
       }
     }
   }"

definition write_inline ::
  "'e ext \<Rightarrow> pacon \<Rightarrow> string \<Rightarrow> pacon_file \<Rightarrow> bytes \<Rightarrow> u64 \<Rightarrow> u64 \<Rightarrow> pacon_stat \<Rightarrow> bytes \<Rightarrow> u64 \<Rightarrow> int \<Rightarrow> 'e client \<Rightarrow>
   (bool \<times> int \<times> pacon_file \<times> 'e client) option" where
  "write_inline E p path f buf sz offset new_st inline_data cas_tmp new_size s = do {
     (blk, s) \<leftarrow> fresh_block E INLINE_MAX s;
     new_data \<leftarrow> splice blk inline_data buf sz offset (ps_size new_st) new_size;
     (exetime, s) \<leftarrow> ext_call (c_time E) s;
     let new_st = set_stat_flag (new_st\<lparr>ps_atime := exetime, ps_mtime := exetime, ps_size := word_of_int new_size\<rparr>) STAT_inline 1;
     (ret, s) \<leftarrow> store_inline E p path new_st new_data (nat new_size) cas_tmp s;
     if ret = 1 then Some (True, 0, f, s)
     else if ret = -1 then Some (False, -1, f, s)
     else do {
       let f = f\<lparr>f_size := word_of_int new_size\<rparr>;
       (t, s) \<leftarrow> ext_call (c_time E) s;
       (_, s) \<leftarrow> add_to_mq E p path WRITE t s;
       Some (False, as_int sz, f, s)
     }
   }"

fun write_new_retry ::
  "nat \<Rightarrow> 'e ext \<Rightarrow> pacon \<Rightarrow> string \<Rightarrow> pacon_file \<Rightarrow> bytes \<Rightarrow> u64 \<Rightarrow> u64 \<Rightarrow> int \<Rightarrow> 'e client \<Rightarrow> (int \<times> pacon_file \<times> 'e client) option" where
  "write_new_retry 0 E p path f buf sz offset new_size s = None"
| "write_new_retry (Suc n) E p path f buf sz offset new_size s = do {
     (g, s) \<leftarrow> dmkv_get_cas E (kv_of p) path s;
     (case g of
        None \<Rightarrow> do {
          (fd_1, s) \<leftarrow> ext_call (c_open E path O_RDWR 0) s;
          (ret, s) \<leftarrow> pwrite_buf E fd_1 buf sz offset s;
          Some (ret, f, s)
        }
      | Some (val, cas) \<Rightarrow> do {
          (blk, s) \<leftarrow> fresh_block E INLINE_MAX s;
          (new_st, inline_data) \<leftarrow> deseri_inline_data blk val;
          if f_fd f \<le> 0 \<and> sint (ucast (ps_size new_st) :: u64) < sint offset then Some (-1, f, s)
          else do {
            let new_size = (if f_fd f > 0 then new_size
              else as_int (if offset + sz > ucast (ps_size new_st) then offset + sz else ucast (ps_size new_st)));
            (again, ret, f, s) \<leftarrow>
              (if f_fd f > 0 then do {
                 (_, s) \<leftarrow> pwrite_buf E (f_fd f) buf sz offset s;
                 let f = f\<lparr>f_size := word_of_int new_size\<rparr>;
                 (exetime, s) \<leftarrow> ext_call (c_time E) s;
                 write_update E p path f sz new_st val cas new_size exetime s
               }
               else if new_size < int INLINE_MAX - 1
               then write_inline E p path f buf sz offset new_st inline_data cas new_size s
               else write_dfs n E p path f buf sz offset new_st inline_data val cas new_size s);
            if again then write_new_retry n E p path f buf sz offset new_size s
            else Some (ret, f, s)
          }
        })
   }"

definition pacon_write_new ::
  "nat \<Rightarrow> 'e ext \<Rightarrow> pacon \<Rightarrow> string \<Rightarrow> pacon_file \<Rightarrow> bytes \<Rightarrow> u64 \<Rightarrow> u64 \<Rightarrow> 'e client \<Rightarrow> (int \<times> pacon_file \<times> 'e client) option" where
  "pacon_write_new n E p path f buf sz offset s = do {
     (ret, s) \<leftarrow> permitted E p path 1 WRITE_PC s;
     if ret < 0 then Some (-1, f, s)
     else do {
       t \<leftarrow> cstr buf;
       if strlen_exceeds t sz then Some (-1, f, s)
       else do {
         (junk, s) \<leftarrow> ext_call (c_indet E) s;
         write_new_retry n E p path f buf sz offset (sint junk) s
       }
     }
   }"

subsection \<open>Synchronizing\<close>

text \<open>
  The log of a client. \<open>posix_memalign (&inline_data, ...)\<close> is handed the address of the array, so
  the pointer it returns overwrites the first eight bytes of the data that is then written.
\<close>

definition fsync_to_log ::
  "'e ext \<Rightarrow> pacon \<Rightarrow> string \<Rightarrow> pacon_stat \<Rightarrow> bytes \<Rightarrow> 'e client \<Rightarrow> (int \<times> pacon \<times> 'e client) option" where
  "fsync_to_log E p path st inline_data s = do {
     t \<leftarrow> cstr inline_data;
     buf \<leftarrow> sprintf_buf (PATH_MAX + INLINE_MAX) (path @ t);
     (ptr, s) \<leftarrow> fresh_block E 8 s;
     inline_data \<leftarrow> memcpy inline_data 0 ptr 8;
     guard (length buf \<le> length inline_data);
     let offset = log_size (pf p);
     (ret, s) \<leftarrow> ext_call (c_write E (fsync_log_fd (pf p)) (take (length buf) inline_data)) s;
     if ret \<le> 0 then Some (-1, p, s)
     else do {
       let p = PACON ((pf p)\<lparr>log_size := log_size (pf p) + ret\<rparr>) (remote_pacon_list p);
       tmp_path \<leftarrow> sprintf_buf PATH_MAX
         (path @ ''|'' @ fsync_logfile_path (pf p) @ ''|'' @ show_int offset @ ''|'' @ show_int ret);
       (ret, s) \<leftarrow> add_to_mq E p tmp_path FSYNC (ps_ctime st) s;
       Some (if ret \<noteq> 0 then -1 else 0, p, s)
     }
   }"

definition pacon_fsync ::
  "'e ext \<Rightarrow> pacon \<Rightarrow> string \<Rightarrow> pacon_file \<Rightarrow> 'e client \<Rightarrow> (int \<times> pacon \<times> 'e client) option" where
  "pacon_fsync E p path f s = do {
     (ret, s) \<leftarrow> permitted E p path 1 WRITE_PC s;
     if ret < 0 then Some (-1, p, s)
     else if f_fd f \<noteq> -1 then do {
       (ret, s) \<leftarrow> ext_call (c_fsync E (f_fd f)) s;
       Some (if ret = -1 then -1 else 0, p, s)
     }
     else do {
       (g, s) \<leftarrow> dmkv_get_cas E (kv_of p) path s;
       (case g of
          None \<Rightarrow> Some (-1, p, s)
        | Some (val, cas) \<Rightarrow> do {
            (blk, s) \<leftarrow> fresh_block E INLINE_MAX s;
            (st, inline_data) \<leftarrow> deseri_inline_data blk val;
            if get_stat_flag st STAT_file_created = 1 \<and> get_stat_flag st STAT_inline = 0 \<and> ps_size st > 0 then do {
              (fd, s) \<leftarrow> ext_call (c_open E path 0 0) s;
              (_, s) \<leftarrow> ext_call (c_fsync E fd) s;
              (_, s) \<leftarrow> ext_call (c_close E fd) s;
              Some (0, p, s)
            }
            else fsync_to_log E p path st inline_data s
          })
     }
   }"

end
