(* ===== verification/Frames.thy ===== *)
theory Frames
  imports Dmkv
begin

text \<open>
  Frames: what a function leaves alone. The locale \<open>env_stable\<close> takes a predicate on process states
  that does not look at the outside world; the calls to the outside world and to the key-value
  layer keep it. The theories of the client and of the server extend the locale by their own
  functions and interpret it for the fields of their states.
\<close>

locale env_stable =
  fixes P :: "('e, 'z) world_scheme \<Rightarrow> bool"
  assumes env_stable: "P s \<Longrightarrow> P (s\<lparr>env := e\<rparr>)"
begin

lemma st_ext [lands_intros]: "P s \<Longrightarrow> lands P (ext_call f s)"
  by (simp add: lands_def ext_call_eq env_stable)

lemma st_block [lands_intros]: "P s \<Longrightarrow> lands P (fresh_block E n s)"
  by (simp add: lands_def fresh_block_run env_stable)

lemma st_get [lands_intros]: "P s \<Longrightarrow> lands P (dmkv_get E h k s)"
  unfolding dmkv_defs memc_defs by (intro lands_intros; assumption)

lemma st_get_cas [lands_intros]: "P s \<Longrightarrow> lands P (dmkv_get_cas E h k s)"
  unfolding dmkv_defs memc_defs by (intro lands_intros; assumption)

lemma st_add [lands_intros]: "P s \<Longrightarrow> lands P (dmkv_add E h k v n s)"
  unfolding dmkv_defs memc_defs by (intro lands_intros; assumption)

lemma st_set [lands_intros]: "P s \<Longrightarrow> lands P (dmkv_set E h k v n s)"
  unfolding dmkv_defs memc_defs by (intro lands_intros; assumption)

lemma st_cas [lands_intros]: "P s \<Longrightarrow> lands P (dmkv_cas E h k v n c s)"
  unfolding dmkv_defs memc_defs by (intro lands_intros; assumption)

lemma st_del [lands_intros]: "P s \<Longrightarrow> lands P (dmkv_del E h k s)"
  unfolding dmkv_defs memc_defs by (intro lands_intros; assumption)

end

end
