(* ===== verification/Cache_Frame.thy ===== *)
theory Cache_Frame
  imports Cache Frames
begin

text \<open>
  The functions of the theory \<open>Cache\<close> keep every predicate of a client's state that does not look
  at the outside world; on the circle of calls through \<open>add_evict\<close> by induction on the fuel.
\<close>

lemma lands_case_dirp [lands_intros]:
  "lands P a \<Longrightarrow> lands P b \<Longrightarrow> (\<And>es. lands P (c es)) \<Longrightarrow> lands P (case d of DIR_ERR \<Rightarrow> a | DIR_NULL \<Rightarrow> b | DIR es \<Rightarrow> c es)"
  by (cases d) auto

locale client_stable = env_stable P for P :: "'e client \<Rightarrow> bool"
begin

lemma st_mq [lands_intros]: "P s \<Longrightarrow> lands P (add_to_mq E p path opt t s)"
  unfolding add_to_mq_def by (intro lands_intros; assumption)

lemma st_rpc [lands_intros]: "P s \<Longrightarrow> lands P (add_to_local_rpc E p path opt t s)"
  unfolding add_to_local_rpc_def by (intro lands_intros; assumption)

lemma st_permitted [lands_intros]: "P s \<Longrightarrow> lands P (permitted E p path ty opt s)"
  unfolding permitted_def check_permission_def by (intro lands_intros; assumption)

lemma st_flush_dir [lands_intros]: "P s \<Longrightarrow> lands P (flush_dir E p path s)"
  unfolding flush_dir_def by (intro lands_intros; assumption)

lemma st_flush_loop [lands_intros]:
  "P s \<Longrightarrow> lands P (flush_file_loop n E p path ret s)"
  by (induction n arbitrary: ret s) (simp_all, intro lands_intros; assumption)+

lemma st_flush_file [lands_intros]: "P s \<Longrightarrow> lands P (flush_file n E p path s)"
  unfolding flush_file_def by (intro lands_intros; assumption)

lemma st_lock [lands_intros]: "P s \<Longrightarrow> lands P (evict_lock_loop n E p s)"
  by (induction n arbitrary: s) (simp_all, intro lands_intros; assumption)+

lemma st_finish [lands_intros]: "P s \<Longrightarrow> lands P (evict_finish E p rr s)"
  unfolding evict_finish_def by (intro lands_intros; assumption)

lemma st_begin [lands_intros]: "P s \<Longrightarrow> lands P (evict_begin n E p s)"
  unfolding evict_begin_def by (intro lands_intros; assumption)

text \<open>The functions on the circle through \<open>add_evict\<close>.\<close>

lemma st_load_with:
  assumes add: "\<And>path val len s. P s \<Longrightarrow> lands P (add path val len s)"
  shows "P s \<Longrightarrow> lands P (load_with add E p path s)"
  unfolding load_with_def by (intro lands_intros add; assumption)

lemma st_ensure_with:
  assumes add: "\<And>path val len s. P s \<Longrightarrow> lands P (add path val len s)"
  shows "P s \<Longrightarrow> lands P (ensure_cached_with add E p path s)"
  unfolding ensure_cached_with_def by (intro lands_intros st_load_with add; assumption)

lemma st_opendir_with:
  assumes add: "\<And>path val len s. P s \<Longrightarrow> lands P (add path val len s)"
  shows "P s \<Longrightarrow> lands P (opendir_with add E p path s)"
  unfolding opendir_with_def by (intro lands_intros st_ensure_with add; assumption)

lemma st_find_with:
  assumes add: "\<And>path val len s. P s \<Longrightarrow> lands P (add path val len s)"
  shows "P s \<Longrightarrow> lands P (evict_find_with n add E p rr s)"
  by (induction n arbitrary: rr s) (simp_all, intro lands_intros st_opendir_with add; assumption)+

lemma st_evict_with:
  assumes add: "\<And>path val len s. P s \<Longrightarrow> lands P (add path val len s)"
  shows "P s \<Longrightarrow> lands P (evict_metadata_with n add E p s)"
  unfolding evict_metadata_with_def by (intro lands_intros st_find_with add; assumption)

lemma st_add_evict [lands_intros]:
  "P s \<Longrightarrow> lands P (add_evict n E p path val len s)"
  by (induction n arbitrary: path val len s) (simp_all, intro lands_intros st_evict_with; assumption)+

lemma st_load [lands_intros]: "P s \<Longrightarrow> lands P (load_to_pacon n E p path s)"
  unfolding load_to_pacon_def by (intro lands_intros st_load_with; assumption)

lemma st_ensure [lands_intros]: "P s \<Longrightarrow> lands P (ensure_cached n E p path s)"
  unfolding ensure_cached_def by (intro lands_intros st_ensure_with; assumption)

end

text \<open>The hash tables of a client and its barrier number are such parts.\<close>

interpretation dir_check: client_stable "\<lambda>s :: 'e client. dir_check_table s = T" for T
  by unfold_locales simp

interpretation barrier_no: client_stable "\<lambda>s :: 'e client. current_barrier_id s = i" for i
  by unfold_locales simp

end
