(* ===== verification/Reference_Env.thy ===== *)
theory Reference_Env
  imports Dmkv
begin

text \<open>
  A concrete environment: memcached as a map from keys to values with a cas number per item, a
  flat file system of directories and files, a log of sent messages and a clock. It satisfies the
  contracts of \<open>Environment\<close>, which shows that they can hold together, and the witnesses of the
  theorems run the model's definitions on it.
\<close>

record ref_env =
  r_items :: items
  r_sent :: "(nat \<times> bytes) list"
  r_reply :: bytes
  r_fs :: "path \<rightharpoonup> fnode"
  r_ls :: "path \<rightharpoonup> dirent list"
  r_fds :: "int \<rightharpoonup> path"
  r_nfd :: nat
  r_clock :: u32
  r_text :: "path \<rightharpoonup> string"

definition ref_store ::
  "memcached_st \<Rightarrow> string \<Rightarrow> bytes \<Rightarrow> ref_env \<Rightarrow> memcached_return_t \<times> ref_env" where
  "ref_store m k v e =
     (MEMCACHED_SUCCESS, e\<lparr>r_items := put_item m k (v, case r_items e m k of None \<Rightarrow> 1 | Some (_, c) \<Rightarrow> c + 1) (r_items e)\<rparr>)"

definition ref_get ::
  "memcached_st \<Rightarrow> string \<Rightarrow> ref_env \<Rightarrow> (memcached_return_t \<times> bytes \<times> u64) \<times> ref_env" where
  "ref_get m k e = (case r_items e m k of
     None \<Rightarrow> ((MEMCACHED_NOTFOUND, [], 0), e) | Some (v, c) \<Rightarrow> ((MEMCACHED_SUCCESS, v @ [NUL], c), e))"

definition ref_add ::
  "memcached_st \<Rightarrow> string \<Rightarrow> bytes \<Rightarrow> ref_env \<Rightarrow> memcached_return_t \<times> ref_env" where
  "ref_add m k v e = (if r_items e m k = None then ref_store m k v e else (MEMCACHED_NOTSTORED, e))"

definition ref_cas ::
  "memcached_st \<Rightarrow> string \<Rightarrow> bytes \<Rightarrow> u64 \<Rightarrow> ref_env \<Rightarrow> memcached_return_t \<times> ref_env" where
  "ref_cas m k v cas e = (case r_items e m k of
     None \<Rightarrow> (MEMCACHED_NOTFOUND, e)
   | Some (_, c) \<Rightarrow> if c = cas then ref_store m k v e else (MEMCACHED_DATA_EXISTS, e))"

definition ref_delete :: "memcached_st \<Rightarrow> string \<Rightarrow> ref_env \<Rightarrow> memcached_return_t \<times> ref_env" where
  "ref_delete m k e = (if r_items e m k = None then (MEMCACHED_NOTFOUND, e)
     else (MEMCACHED_SUCCESS, e\<lparr>r_items := del_item m k (r_items e)\<rparr>))"

definition node_stat :: "fnode \<Rightarrow> stat" where
  "node_stat nd = \<lparr>st_mode = (case nd of FDir \<Rightarrow> 0x41ED | FFile _ \<Rightarrow> 0x81A4), st_ctime = 7, st_atime = 7,
     st_mtime = 7, st_size = (case nd of FDir \<Rightarrow> 0 | FFile b \<Rightarrow> of_nat (length b)),
     st_uid = 1000, st_gid = 1000, st_nlink = 1\<rparr>"

definition ref_parent_dir :: "path \<Rightarrow> path" where
  "ref_parent_dir p = (let d = butlast (rev (dropWhile (\<lambda>c. c \<noteq> CHR ''/'') (rev p))) in if d = [] then ''/'' else d)"

definition ref_new_node :: "path \<Rightarrow> fnode \<Rightarrow> ref_env \<Rightarrow> bool \<times> ref_env" where
  "ref_new_node p nd e =
     (if r_fs e p = None \<and> r_fs e (ref_parent_dir p) = Some FDir then (True, e\<lparr>r_fs := (r_fs e)(p \<mapsto> nd)\<rparr>)
      else (False, e))"

definition ref_fd :: "path \<Rightarrow> ref_env \<Rightarrow> int \<times> ref_env" where
  "ref_fd p e = (int (r_nfd e), e\<lparr>r_nfd := r_nfd e + 1, r_fds := (r_fds e)(int (r_nfd e) \<mapsto> p)\<rparr>)"

definition ref_creat :: "path \<Rightarrow> ref_env \<Rightarrow> int \<times> ref_env" where
  "ref_creat p e =
     (case r_fs e p of
        Some (FFile _) \<Rightarrow> ref_fd p (e\<lparr>r_fs := (r_fs e)(p \<mapsto> FFile [])\<rparr>)
      | Some FDir \<Rightarrow> (-1, e)
      | None \<Rightarrow> (let (ok, e') = ref_new_node p (FFile []) e in if ok then ref_fd p e' else (-1, e)))"

definition ref_write_at :: "bytes \<Rightarrow> nat \<Rightarrow> bytes \<Rightarrow> bytes" where
  "ref_write_at old off b = take off (old @ replicate off NUL) @ b @ drop (off + length b) old"

definition ref_pwrite :: "int \<Rightarrow> bytes \<Rightarrow> u64 \<Rightarrow> ref_env \<Rightarrow> int \<times> ref_env" where
  "ref_pwrite fd b off e =
     (case r_fds e fd of
        None \<Rightarrow> (-1, e)
      | Some p \<Rightarrow> (case r_fs e p of
          Some (FFile old) \<Rightarrow> (int (length b), e\<lparr>r_fs := (r_fs e)(p \<mapsto> FFile (ref_write_at old (unat off) b))\<rparr>)
        | _ \<Rightarrow> (-1, e)))"

definition ref_pread :: "int \<Rightarrow> u64 \<Rightarrow> u64 \<Rightarrow> ref_env \<Rightarrow> (int \<times> bytes) \<times> ref_env" where
  "ref_pread fd n off e =
     (case r_fds e fd of
        None \<Rightarrow> ((-1, []), e)
      | Some p \<Rightarrow> (case r_fs e p of
          Some (FFile old) \<Rightarrow> (let b = take (unat n) (drop (unat off) old) in ((int (length b), b), e))
        | _ \<Rightarrow> ((-1, []), e)))"

definition ref_unlink :: "path \<Rightarrow> ref_env \<Rightarrow> int \<times> ref_env" where
  "ref_unlink p e = (if r_fs e p = None then (-1, e) else (0, e\<lparr>r_fs := (r_fs e)(p := None)\<rparr>))"

definition ref_ext :: "ref_env ext" where
  "ref_ext = \<lparr>memcached_create = (\<lambda>e. (True, e)),
     memcached_set = ref_store, memcached_add = ref_add, memcached_cas = ref_cas,
     memcached_get = ref_get, memcached_delete = ref_delete,
     c_stat = (\<lambda>p e. (map_option node_stat (r_fs e p), e)),
     c_open = (\<lambda>p fl md e. case r_fs e p of Some (FFile _) \<Rightarrow> ref_fd p e | _ \<Rightarrow> (-1, e)),
     c_creat = (\<lambda>p md e. ref_creat p e),
     c_mkdir = (\<lambda>p md e. let (ok, e') = ref_new_node p FDir e in (if ok then 0 else -1, e')),
     c_remove = ref_unlink, c_rmdir = ref_unlink,
     c_rename = (\<lambda>p q e. case r_fs e p of None \<Rightarrow> (-1, e)
        | Some nd \<Rightarrow> (0, e\<lparr>r_fs := (r_fs e)(p := None, q \<mapsto> nd)\<rparr>)),
     c_opendir = (\<lambda>p e. (r_ls e p, e)),
     c_pread = ref_pread, c_pwrite = ref_pwrite,
     c_write = (\<lambda>fd b e. (int (length b), e)),
     c_fsync = (\<lambda>fd e. (0, e)), c_close = (\<lambda>fd e. (0, e)),
     c_access = (\<lambda>p e. (if r_fs e p = None then -1 else 0, e)),
     c_system = (\<lambda>cmd e. (0, e)),
     c_fopen = (\<lambda>p e. (r_text e p, e)),
     c_time = (\<lambda>e. (if 0 \<le> sint (r_clock e) then r_clock e else 0, e)), c_getuid = (\<lambda>e. (1000, e)), c_getgid = (\<lambda>e. (1000, e)),
     c_getpid = (\<lambda>e. (42, e)),
     zmq_connect = (\<lambda>a e. ((0, 0), e)), zmq_bind = (\<lambda>a e. ((0, 0), e)),
     zmq_send = (\<lambda>sock b e. (int (length b), e\<lparr>r_sent := r_sent e @ [(sock, b)]\<rparr>)),
     zmq_recv = (\<lambda>sock n e. ((int (length (r_reply e)), take n (r_reply e)), e)),
     c_shmget = (\<lambda>k e. (k, e)), c_shmat = (\<lambda>i e. (True, e)),
     c_indet = (\<lambda>e. (0xDEAD, e)), c_indet_block = (\<lambda>n e. (replicate n (CHR ''?''), e)), c_stack_pad = 8\<rparr>"

lemmas ref_call_defs = ref_store_def ref_get_def ref_add_def ref_cas_def ref_delete_def ref_new_node_def
  ref_fd_def ref_creat_def ref_pwrite_def ref_pread_def ref_unlink_def

lemma fresh_cas: "\<exists>c'. c' \<noteq> (c :: u64) \<and> put_item m k (v, c + 1) I = put_item m k (v, c') I"
  by (rule exI [of _ "c + 1"]) simp

interpretation ref: client_env ref_ext r_items r_sent
  by unfold_locales
     (auto simp: ref_ext_def ref_call_defs keeps_def fresh_cas split: option.splits if_splits fnode.splits)

interpretation ref: server_env ref_ext r_items r_fs "\<lambda>fs p. fs (ref_parent_dir p) = Some FDir"
  by unfold_locales
     (auto simp: ref_ext_def ref_call_defs keeps_def Let_def split: option.splits if_splits fnode.splits prod.splits)

definition ref_env0 :: ref_env where
  "ref_env0 = \<lparr>r_items = (\<lambda>_. Map.empty), r_sent = [], r_reply = ''0'',
     r_fs = [''/w'' \<mapsto> FDir], r_ls = [''/w'' \<mapsto> []], r_fds = Map.empty, r_nfd = 3, r_clock = 1000, r_text = Map.empty\<rparr>"

definition ref_kv :: dmkv where
  "ref_kv = \<lparr>c_info = \<lparr>node_num = 1, node_list = [''10.0.0.1'']\<rparr>, memc = [''10.0.0.1'']\<rparr>"

lemma ref_calls [simp]:
  "snd (memcached_get ref_ext m k e) = e" "snd (c_time ref_ext e) = e"
  "fst (c_time ref_ext e) = (if 0 \<le> sint (r_clock e) then r_clock e else 0)"
  by (simp_all add: ref_ext_def ref_get_def split: option.splits)

lemma ref_delete_items [simp]: "r_items (snd (memcached_delete ref_ext m k e)) = del_item m k (r_items e)"
  by (auto simp: ref_ext_def ref_delete_def del_item_def fun_eq_iff)

lemma show_int_0: "show_int 0 = ''0''"
  by (simp add: show_int_def show_nat.simps [of 0] digit_char_def char_of_def bit_0)

end
