(* ===== verification/Namespace_Thms.thy ===== *)
theory Namespace_Thms
  imports Namespace Cache_Frame Reference_Env
begin

text \<open>
  Correctness of the namespace operations. The lemmas about single runs are proved inside the
  locale \<open>client_env\<close>, the contract of memcached and of the message log; the properties at the
  end state them for every environment that meets the contract.
\<close>

subsection \<open>Paths and parents\<close>

definition entry_path :: "string \<Rightarrow> string \<Rightarrow> string \<Rightarrow> bool" where
  "entry_path path d name \<longleftrightarrow> path = d @ CHR ''/'' # name \<and> d \<noteq> [] \<and> name \<noteq> [] \<and> CHR ''/'' \<notin> set name"

lemma entry_path_last: "entry_path path d name \<Longrightarrow> last path \<noteq> CHR ''/'' \<and> path \<noteq> [] \<and> path \<noteq> ''/''"
  unfolding entry_path_def by (cases d) (auto dest: last_in_set)

lemma entry_path_key:
  assumes "entry_path path d name" shows "plain_key path" "norm_key path = path" "path \<noteq> []"
proof -
  from entry_path_last [OF assms] show "norm_key path = path" "path \<noteq> []" by (auto simp: norm_key_def)
  from assms have "last name \<in> set path" "last name \<noteq> CHR ''/''"
    by (auto simp: entry_path_def dest: last_in_set)
  moreover have "\<not> suffix ''//'' path"
    using entry_path_last [OF assms] by (auto simp: suffix_def)
  ultimately show "plain_key path" by (auto simp: plain_key_def)
qed

lemma check_parent_dir_entry:
  assumes "entry_path path d name" "length path < PATH_MAX"
  shows "check_parent_dir n E p path s = check_dir n E p d s"
  using assms entry_path_last [OF assms(1)] parent_dir_append [of name d "[]"]
  by (auto simp: check_parent_dir_def entry_path_def)

text \<open>
  A directory whose check needs no access to the file system: its name is in the local table, or
  the cache holds it as a directory whose children need not be loaded.
\<close>

definition known_dir :: "pacon_stat \<Rightarrow> bool" where
  "known_dir st \<longleftrightarrow> get_stat_flag st STAT_type = 0 \<and>
     \<not> (get_stat_flag st STAT_existedin_dfs = 1 \<and> get_stat_flag st STAT_child_check = 0)"

definition parent_known :: "(string \<Rightarrow> item option) \<Rightarrow> string \<Rightarrow> 'e client \<Rightarrow> bool" where
  "parent_known I d s \<longleftrightarrow> dir_check_local d s \<noteq> -1 \<or>
     (case I (norm_key d) of None \<Rightarrow> False | Some (v, c) \<Rightarrow> PSTAT_SIZE \<le> length v \<and> known_dir (bytes_stat v))"

lemma word_at_append: "4 * i + 4 \<le> length b \<Longrightarrow> word_at (b @ r) i = word_at b i"
  by (simp add: word_at_def)

lemma bytes_stat_append [simp]: "PSTAT_SIZE \<le> length b \<Longrightarrow> bytes_stat (b @ r) = bytes_stat b"
  by (simp add: bytes_stat_def word_at_append PSTAT_SIZE_def)

lemma deseri_val_append: "PSTAT_SIZE \<le> length b \<Longrightarrow> deseri_val (b @ r) = Some (bytes_stat b)"
  by (simp add: deseri_val_def)

lemma dir_check_local_env [simp]: "dir_check_local d (s\<lparr>env := e\<rparr>) = dir_check_local d s"
  by (simp add: table_defs)

lemma permitted_free [simp]: "perm_info (pf p) = None \<Longrightarrow> permitted E p path ty opt s = Some (0, s)"
  by (simp add: permitted_def)

lemma new_mode_free [simp]: "perm_info (pf p) = None \<Longrightarrow> new_mode p df modes ret = Some df"
  by (simp add: new_mode_def)

lemma add_to_mq_run:
  assumes "0 \<le> sint t" "length path + 3 \<le> PATH_MAX"
  shows "add_to_mq E p path opt t s =
    Some (0, s\<lparr>env := snd (zmq_send E (publisher (pf p)) (path @ opt_str opt @ show_int (sint t)) (env s))\<rparr>)"
proof -
  have "mesg_text (PATH_MAX + TIMESTAMP_SIZE) path opt t = Some (path @ opt_str opt @ show_int (sint t))"
    using assms by (intro mesg_text_eq) (simp_all add: TIMESTAMP_SIZE_def)
  with assms show ?thesis by (simp add: add_to_mq_def ext_call_eq)
qed

lemma add_evict_done:
  "dmkv_add E (kv_of p) path val len s = Some (r, s') \<Longrightarrow> r \<noteq> -2 \<Longrightarrow> add_evict (Suc n) E p path val len s = Some (r, s')"
  by simp

text \<open>A clock whose times are positive as signed 32 bit numbers (before 2038).\<close>

definition sane_clock :: "'e ext \<Rightarrow> bool" where
  "sane_clock E \<longleftrightarrow> (\<forall>e. 0 \<le> sint (fst (c_time E e)))"

text \<open>The last part of \<open>pacon_create\<close> and \<open>pacon_mkdir\<close>: storing the entry and telling the server.\<close>

definition create_tail :: "nat \<Rightarrow> 'e ext \<Rightarrow> pacon \<Rightarrow> string \<Rightarrow> pacon_stat \<Rightarrow> u32 \<Rightarrow> 'e client \<Rightarrow> (int \<times> 'e client) option" where
  "create_tail n E p path st t s = do {
     (ret, s) \<leftarrow> add_evict n E p path (stat_bytes st) PSTAT_SIZE s;
     (ret, s) \<leftarrow> (if ret \<noteq> 0 then replace_removed E p path (stat_bytes st) PSTAT_SIZE s else Some (0, s));
     if ret \<noteq> 0 then Some (-1, s) else add_to_mq E p path CREATE t s }"

definition mkdir_tail :: "nat \<Rightarrow> 'e ext \<Rightarrow> pacon \<Rightarrow> string \<Rightarrow> pacon_stat \<Rightarrow> u32 \<Rightarrow> 'e client \<Rightarrow> (int \<times> 'e client) option" where
  "mkdir_tail n E p path st t s = do {
     (ret, s) \<leftarrow> add_evict n E p path (stat_bytes st) PSTAT_SIZE s;
     if ret \<noteq> 0 then replace_removed E p path (stat_bytes st) PSTAT_SIZE s else add_to_mq E p path MKDIR t s }"

text \<open>An entry that is there, and whether it is marked as removed.\<close>

definition entry_stat :: "item option \<Rightarrow> pacon_stat option" where
  "entry_stat i = (case i of None \<Rightarrow> None | Some (v, c) \<Rightarrow> if PSTAT_SIZE \<le> length v then Some (bytes_stat v) else None)"

lemma entry_stat_SomeE:
  assumes "entry_stat i = Some st"
  obtains v c where "i = Some (v, c)" "PSTAT_SIZE \<le> length v" "st = bytes_stat v"
  using assms by (auto simp: entry_stat_def split: option.splits if_splits)

lemma entry_stat_stored [simp]: "entry_stat (Some (stat_bytes st, c)) = Some st"
  using bytes_stat_bytes [of st "[]"] by (simp add: entry_stat_def)

lemma entry_stat_append [simp]: "entry_stat (Some (stat_bytes st @ r, c)) = Some st"
  by (simp add: entry_stat_def)

context client_env
begin

lemma check_dir_known:
  assumes "parent_known (items (env s) (memc (kv_of p))) d s" "d \<noteq> []"
  shows "\<exists>e t. check_dir n E p d s = Some (0, s\<lparr>dir_check_table := t, env := e\<rparr>) \<and>
    items e = items (env s) \<and> sent e = sent (env s)"
proof (cases "dir_check_local d s \<noteq> -1")
  case True
  then have "check_dir n E p d s = Some (0, s\<lparr>dir_check_table := dir_check_table s, env := env s\<rparr>)"
    by (simp add: check_dir_def)
  then show ?thesis by blast
next
  case False
  with assms obtain v c where i: "items (env s) (memc (kv_of p)) (norm_key d) = Some (v, c)"
    and l: "PSTAT_SIZE \<le> length v" and k: "known_dir (bytes_stat v)"
    by (auto simp: parent_known_def split: option.splits)
  let ?e = "snd (memcached_get E (memc (kv_of p)) (norm_key d) (env s))"
  have "check_dir n E p d s = Some (0, add_to_dir_check_table d (s\<lparr>env := ?e\<rparr>))"
    using False i l k assms(2)
    by (auto simp: check_dir_def dmkv_get_cas_run deseri_val_append known_dir_def)
  then have "check_dir n E p d s =
      Some (0, s\<lparr>dir_check_table := ht_insert (dir_check_table s) d 0, env := ?e\<rparr>)"
    by (simp add: table_defs)
  then show ?thesis
    by (intro exI [of _ ?e] exI [of _ "ht_insert (dir_check_table s) d 0"]) simp
qed

subsection \<open>Storing a new entry\<close>

lemma add_new:
  assumes "path \<noteq> []" "norm_key path = path" "items (env s) (memc (kv_of p)) path = None" "n \<le> length v"
  shows "\<exists>e c. add_evict (Suc k) E p path v n s = Some (0, s\<lparr>env := e\<rparr>) \<and>
    items e = put_item (memc (kv_of p)) path (take n v, c) (items (env s)) \<and> sent e = sent (env s)"
proof -
  obtain c where "items (snd (memcached_add E (memc (kv_of p)) path (take n v) (env s))) =
      put_item (memc (kv_of p)) path (take n v, c) (items (env s))"
    using add_absent_items [OF assms(3)] by blast
  then show ?thesis using assms by (simp add: dmkv_add_absent) (metis sent_env(2))
qed

lemma add_present:
  assumes "path \<noteq> []" "norm_key path = path" "items (env s) (memc (kv_of p)) path = Some i" "n \<le> length v"
  shows "\<exists>e. add_evict (Suc k) E p path v n s = Some (-1, s\<lparr>env := e\<rparr>) \<and>
    items e = items (env s) \<and> sent e = sent (env s)"
  using assms add_present_items [OF assms(3)] by (simp add: dmkv_add_present) (metis sent_env(2))

lemma replace_live:
  assumes "path \<noteq> []" "norm_key path = path" "entry_stat (items (env s) (memc (kv_of p)) path) = Some st"
    "get_stat_flag st STAT_rm \<noteq> 1"
  shows "\<exists>e. replace_removed E p path v n s = Some (-1, s\<lparr>env := e\<rparr>) \<and> items e = items (env s) \<and> sent e = sent (env s)"
proof -
  from assms(3) obtain w c where i: "items (env s) (memc (kv_of p)) path = Some (w, c)"
    and w: "PSTAT_SIZE \<le> length w" "st = bytes_stat w" by (rule entry_stat_SomeE)
  have "replace_removed E p path v n s = Some (-1, s\<lparr>env := snd (memcached_get E (memc (kv_of p)) path (env s))\<rparr>)"
    using assms i w by (simp add: replace_removed_def dmkv_get_run deseri_val_append)
  then show ?thesis by (intro exI conjI) (assumption, simp_all)
qed

lemma replace_done:
  assumes "plain_key path" "norm_key path = path" "entry_stat (items (env s) (memc (kv_of p)) path) = Some st"
    "get_stat_flag st STAT_rm = 1" "n \<le> length v"
  shows "\<exists>e c. replace_removed E p path v n s = Some (0, s\<lparr>env := e\<rparr>) \<and>
    items e = put_item (memc (kv_of p)) path (take n v, c) (items (env s)) \<and> sent e = sent (env s)"
proof -
  from assms(3) obtain w c where i: "items (env s) (memc (kv_of p)) path = Some (w, c)"
    and w: "PSTAT_SIZE \<le> length w" "st = bytes_stat w" by (rule entry_stat_SomeE)
  let ?e1 = "snd (memcached_get E (memc (kv_of p)) path (env s))"
  let ?e2 = "snd (memcached_set E (memc (kv_of p)) path (take n v) ?e1)"
  have "replace_removed E p path v n s = Some (0, s\<lparr>env := ?e2\<rparr>)"
    using assms i w by (simp add: replace_removed_def dmkv_get_run deseri_val_append dmkv_set_ok)
  moreover obtain c' where "items ?e2 = put_item (memc (kv_of p)) path (take n v, c') (items (env s))"
    using set_items [of "memc (kv_of p)" path "take n v" ?e1] by auto
  ultimately show ?thesis by (intro exI conjI) (assumption, assumption, simp)
qed

text \<open>\<open>pacon_create\<close> and \<open>pacon_mkdir\<close> up to the point where the entry is stored.\<close>

lemma create_prefix:
  assumes free: "perm_info (pf p) = None"
    and path: "entry_path path d name" "length path + 3 \<le> PATH_MAX"
    and parent: "parent_known (items (env s) (memc (kv_of p))) d s"
    and time: "t = fst (c_time E (env s))"
  shows "\<exists>e tb uid gid junk. items e = items (env s) \<and> sent e = sent (env s) \<and>
    pacon_create n E p path mode s = create_tail n E p path
      (set_stat_flag (new_stat (df_f_mode (pf p)) t t t 0 uid gid junk) STAT_type 1) t
      (s\<lparr>dir_check_table := tb, env := e\<rparr>)"
proof -
  let ?s1 = "s\<lparr>env := snd (c_time E (env s))\<rparr>"
  have "parent_known (items (env ?s1) (memc (kv_of p))) d ?s1" using parent by (simp add: parent_known_def)
  moreover have "d \<noteq> []" using path by (simp add: entry_path_def)
  ultimately obtain e1 tb where cd: "check_dir n E p d ?s1 = Some (0, ?s1\<lparr>dir_check_table := tb, env := e1\<rparr>)"
    and e1: "items e1 = items (env s)" "sent e1 = sent (env s)"
    using check_dir_known [of ?s1 p d n] by auto
  have lt: "length path < PATH_MAX" using path(2) by simp
  define e2 where "e2 = snd (c_indet_block E PSTAT_SIZE (snd (c_indet E (snd (c_getgid E (snd (c_getuid E e1)))))))"
  have "items e2 = items (env s)" "sent e2 = sent (env s)" using e1 by (simp_all add: e2_def)
  moreover have "pacon_create n E p path mode s = create_tail n E p path
      (set_stat_flag (new_stat (df_f_mode (pf p)) t t t 0 (fst (c_getuid E e1)) (fst (c_getgid E (snd (c_getuid E e1))))
        (fst (c_indet E (snd (c_getgid E (snd (c_getuid E e1))))))) STAT_type 1) t
      (s\<lparr>dir_check_table := tb, env := e2\<rparr>)"
    using free path cd e1 time
    by (simp add: pacon_create_def check_parent_dir_entry [OF path(1) lt] ext_call_eq fresh_block_run seri_val_eq e2_def
        create_tail_def cong: if_cong)
  ultimately show ?thesis by blast
qed

lemma mkdir_prefix:
  assumes free: "perm_info (pf p) = None"
    and path: "entry_path path d name" "length path + 3 \<le> PATH_MAX"
    and parent: "parent_known (items (env s) (memc (kv_of p))) d s"
  shows "\<exists>e tb t st. items e = items (env s) \<and> sent e = sent (env s) \<and>
    t \<in> range (\<lambda>e. fst (c_time E e)) \<and> ps_mode st = df_dir_mode (pf p) \<and> ps_flags st = 0 \<and>
    pacon_mkdir n E p path mode s = mkdir_tail n E p path st t
      (s\<lparr>dir_check_table := tb, env := e\<rparr>)"
proof -
  have "d \<noteq> []" using path by (simp add: entry_path_def)
  with parent obtain e1 tb where cd: "check_dir n E p d s = Some (0, s\<lparr>dir_check_table := tb, env := e1\<rparr>)"
    and e1: "items e1 = items (env s)" "sent e1 = sent (env s)"
    using check_dir_known [of s p d n] by auto
  have lt: "length path < PATH_MAX" using path(2) by simp
  define e2 e3 e4 e5 e6 where "e2 = snd (c_time E e1)" and "e3 = snd (c_time E e2)" and "e4 = snd (c_time E e3)"
    and "e5 = snd (c_getuid E e4)" and "e6 = snd (c_getgid E e5)"
  note es = e2_def e3_def e4_def e5_def e6_def
  define e7 where "e7 = snd (c_indet_block E PSTAT_SIZE (snd (c_indet E e6)))"
  have "items e7 = items (env s)" "sent e7 = sent (env s)" using e1 by (simp_all add: e7_def es)
  moreover define st where "st = new_stat (df_dir_mode (pf p)) (fst (c_time E e1)) (fst (c_time E e2))
    (fst (c_time E e3)) 0 (fst (c_getuid E e4)) (fst (c_getgid E e5)) (fst (c_indet E e6))"
  moreover have "ps_mode st = df_dir_mode (pf p)" "ps_flags st = 0" by (simp_all add: st_def new_stat_def)
  moreover have "pacon_mkdir n E p path mode s = mkdir_tail n E p path st (fst (c_time E e1))
      (s\<lparr>dir_check_table := tb, env := e7\<rparr>)"
    using free path cd e1
    by (simp add: pacon_mkdir_def check_parent_dir_entry [OF path(1) lt] ext_call_eq fresh_block_run seri_val_eq es e7_def
        mkdir_tail_def st_def cong: if_cong)
  ultimately show ?thesis by blast
qed


subsection \<open>Create and mkdir, branch by branch\<close>

lemma mq_run:
  assumes "sane_clock E" "t \<in> range (\<lambda>e. fst (c_time E e))" "length path + 3 \<le> PATH_MAX"
  shows "\<exists>e. add_to_mq E p path opt t s = Some (0, s\<lparr>env := e\<rparr>) \<and> items e = items (env s) \<and>
    sent e = sent (env s) @ [(publisher (pf p), path @ opt_str opt @ show_int (sint t))]"
proof -
  have "0 \<le> sint t" using assms(1,2) by (auto simp: sane_clock_def)
  from add_to_mq_run [OF this assms(3)] show ?thesis by (intro exI conjI) (assumption, simp_all)
qed

lemma create_new_run:
  assumes free: "perm_info (pf p) = None" and clock: "sane_clock E"
    and path: "entry_path path d name" "length path + 3 \<le> PATH_MAX"
    and parent: "parent_known (items (env s) (memc (kv_of p))) d s"
    and new: "items (env s) (memc (kv_of p)) path = None \<or>
      (\<exists>st. entry_stat (items (env s) (memc (kv_of p)) path) = Some st \<and> get_stat_flag st STAT_rm = 1)"
    and time: "t = fst (c_time E (env s))"
  shows "\<exists>s' uid gid junk c. pacon_create (Suc n) E p path mode s = Some (0, s') \<and>
    items (env s') = put_item (memc (kv_of p)) path
      (stat_bytes (set_stat_flag (new_stat (df_f_mode (pf p)) t t t 0 uid gid junk) STAT_type 1), c) (items (env s)) \<and>
    sent (env s') = sent (env s) @ [(publisher (pf p), path @ opt_str CREATE @ show_int (sint t))]"
proof -
  note key = entry_path_key [OF path(1)]
  from create_prefix [OF free path parent time, of "Suc n" mode] obtain e tb uid gid junk
    where e: "items e = items (env s)" "sent e = sent (env s)"
      and pc: "pacon_create (Suc n) E p path mode s = create_tail (Suc n) E p path
        (set_stat_flag (new_stat (df_f_mode (pf p)) t t t 0 uid gid junk) STAT_type 1) t (s\<lparr>dir_check_table := tb, env := e\<rparr>)"
    by blast
  let ?st = "set_stat_flag (new_stat (df_f_mode (pf p)) t t t 0 uid gid junk) STAT_type 1"
  let ?s1 = "s\<lparr>dir_check_table := tb, env := e\<rparr>"
  have "\<exists>e2 c. create_tail (Suc n) E p path ?st t ?s1 = add_to_mq E p path CREATE t (?s1\<lparr>env := e2\<rparr>) \<and>
      items e2 = put_item (memc (kv_of p)) path (stat_bytes ?st, c) (items (env s)) \<and> sent e2 = sent (env s)"
  proof (cases "items (env s) (memc (kv_of p)) path")
    case None
    then have "items (env ?s1) (memc (kv_of p)) path = None" using e by simp
    from add_new [OF key(3) key(2) this, of PSTAT_SIZE "stat_bytes ?st" n] e show ?thesis
      by (auto simp: create_tail_def simp del: add_evict.simps)
  next
    case (Some i)
    with new obtain old where old: "entry_stat (items (env s) (memc (kv_of p)) path) = Some old" "get_stat_flag old STAT_rm = 1"
      by auto
    have "items (env ?s1) (memc (kv_of p)) path = Some i" using Some e by simp
    from add_present [OF key(3) key(2) this, of PSTAT_SIZE "stat_bytes ?st" n] obtain e1 where
      a: "add_evict (Suc n) E p path (stat_bytes ?st) PSTAT_SIZE ?s1 = Some (-1, ?s1\<lparr>env := e1\<rparr>)"
        "items e1 = items (env s)" "sent e1 = sent (env s)" using e by auto
    then have "entry_stat (items (env (?s1\<lparr>env := e1\<rparr>)) (memc (kv_of p)) path) = Some old" using old by simp
    from replace_done [OF key(1) key(2) this old(2), of PSTAT_SIZE "stat_bytes ?st"] a show ?thesis
      by (auto simp: create_tail_def simp del: add_evict.simps)
  qed
  then obtain e2 c where tl: "create_tail (Suc n) E p path ?st t ?s1 = add_to_mq E p path CREATE t (?s1\<lparr>env := e2\<rparr>)"
    and e2: "items e2 = put_item (memc (kv_of p)) path (stat_bytes ?st, c) (items (env s))" "sent e2 = sent (env s)" by blast
  have "t \<in> range (\<lambda>e. fst (c_time E e))" using time by blast
  from mq_run [OF clock this path(2), of p CREATE "?s1\<lparr>env := e2\<rparr>"] obtain e3 where
    "add_to_mq E p path CREATE t (?s1\<lparr>env := e2\<rparr>) = Some (0, ?s1\<lparr>env := e3\<rparr>)"
    "items e3 = put_item (memc (kv_of p)) path (stat_bytes ?st, c) (items (env s))"
    "sent e3 = sent (env s) @ [(publisher (pf p), path @ opt_str CREATE @ show_int (sint t))]"
    using e2 by auto
  with pc tl show ?thesis by (intro exI conjI) (simp, simp_all)
qed

lemma create_existing_run:
  assumes free: "perm_info (pf p) = None"
    and path: "entry_path path d name" "length path + 3 \<le> PATH_MAX"
    and parent: "parent_known (items (env s) (memc (kv_of p))) d s"
    and live: "entry_stat (items (env s) (memc (kv_of p)) path) = Some st" "get_stat_flag st STAT_rm = 0"
  shows "\<exists>s'. pacon_create (Suc n) E p path mode s = Some (-1, s') \<and>
    items (env s') = items (env s) \<and> sent (env s') = sent (env s)"
proof -
  note key = entry_path_key [OF path(1)]
  from create_prefix [OF free path parent refl, of "Suc n" mode] obtain e tb st' t
    where e: "items e = items (env s)" "sent e = sent (env s)"
      and pc: "pacon_create (Suc n) E p path mode s = create_tail (Suc n) E p path st' t (s\<lparr>dir_check_table := tb, env := e\<rparr>)"
    by blast
  let ?s1 = "s\<lparr>dir_check_table := tb, env := e\<rparr>"
  from live(1) obtain v c where "items (env ?s1) (memc (kv_of p)) path = Some (v, c)" using e by (auto elim: entry_stat_SomeE)
  from add_present [OF key(3) key(2) this, of PSTAT_SIZE "stat_bytes st'" n] obtain e1 where
    a: "add_evict (Suc n) E p path (stat_bytes st') PSTAT_SIZE ?s1 = Some (-1, ?s1\<lparr>env := e1\<rparr>)"
      "items e1 = items (env s)" "sent e1 = sent (env s)" using e by auto
  have "entry_stat (items (env (?s1\<lparr>env := e1\<rparr>)) (memc (kv_of p)) path) = Some st" using live a by simp
  from replace_live [OF key(3) key(2) this, of "stat_bytes st'" PSTAT_SIZE] a pc live(2) show ?thesis
    by (auto simp: create_tail_def simp del: add_evict.simps)
qed

lemma mkdir_new_run:
  assumes free: "perm_info (pf p) = None" and clock: "sane_clock E"
    and path: "entry_path path d name" "length path + 3 \<le> PATH_MAX"
    and parent: "parent_known (items (env s) (memc (kv_of p))) d s"
    and absent: "items (env s) (memc (kv_of p)) path = None"
  shows "\<exists>s' (t :: u32) st c. pacon_mkdir (Suc n) E p path mode s = Some (0, s') \<and>
    ps_mode st = df_dir_mode (pf p) \<and> ps_flags st = 0 \<and>
    items (env s') = put_item (memc (kv_of p)) path (stat_bytes st, c) (items (env s)) \<and>
    sent (env s') = sent (env s) @ [(publisher (pf p), path @ opt_str MKDIR @ show_int (sint t))]"
proof -
  note key = entry_path_key [OF path(1)]
  from mkdir_prefix [OF free path parent, of "Suc n" mode] obtain e tb t st
    where e: "items e = items (env s)" "sent e = sent (env s)" and t: "t \<in> range (\<lambda>e. fst (c_time E e))"
      and st: "ps_mode st = df_dir_mode (pf p)" "ps_flags st = 0"
      and pc: "pacon_mkdir (Suc n) E p path mode s = mkdir_tail (Suc n) E p path st t (s\<lparr>dir_check_table := tb, env := e\<rparr>)"
    by blast
  let ?s1 = "s\<lparr>dir_check_table := tb, env := e\<rparr>"
  have "items (env ?s1) (memc (kv_of p)) path = None" using absent e by simp
  from add_new [OF key(3) key(2) this, of PSTAT_SIZE "stat_bytes st" n] e obtain e1 c where
    a: "add_evict (Suc n) E p path (stat_bytes st) PSTAT_SIZE ?s1 = Some (0, ?s1\<lparr>env := e1\<rparr>)"
      "items e1 = put_item (memc (kv_of p)) path (stat_bytes st, c) (items (env s))" "sent e1 = sent (env s)" by auto
  from mq_run [OF clock t path(2), of p MKDIR "?s1\<lparr>env := e1\<rparr>"] a obtain e2 where
    m: "add_to_mq E p path MKDIR t (?s1\<lparr>env := e1\<rparr>) = Some (0, ?s1\<lparr>env := e2\<rparr>)"
      "items e2 = put_item (memc (kv_of p)) path (stat_bytes st, c) (items (env s))"
      "sent e2 = sent (env s) @ [(publisher (pf p), path @ opt_str MKDIR @ show_int (sint t))]" by auto
  have "pacon_mkdir (Suc n) E p path mode s = Some (0, ?s1\<lparr>env := e2\<rparr>)"
    using a m pc by (simp add: mkdir_tail_def del: add_evict.simps)
  moreover have "items (env (?s1\<lparr>env := e2\<rparr>)) = put_item (memc (kv_of p)) path (stat_bytes st, c) (items (env s))"
    "sent (env (?s1\<lparr>env := e2\<rparr>)) = sent (env s) @ [(publisher (pf p), path @ opt_str MKDIR @ show_int (sint t))]"
    using m by simp_all
  ultimately show ?thesis using st by blast
qed

text \<open>Over an entry marked as removed \<open>pacon_mkdir\<close> stores the directory and sends nothing.\<close>

lemma mkdir_removed_run:
  assumes free: "perm_info (pf p) = None"
    and path: "entry_path path d name" "length path + 3 \<le> PATH_MAX"
    and parent: "parent_known (items (env s) (memc (kv_of p))) d s"
    and removed: "entry_stat (items (env s) (memc (kv_of p)) path) = Some old" "get_stat_flag old STAT_rm = 1"
  shows "\<exists>s' st c. pacon_mkdir (Suc n) E p path mode s = Some (0, s') \<and>
    ps_mode st = df_dir_mode (pf p) \<and> ps_flags st = 0 \<and>
    items (env s') = put_item (memc (kv_of p)) path (stat_bytes st, c) (items (env s)) \<and> sent (env s') = sent (env s)"
proof -
  note key = entry_path_key [OF path(1)]
  from mkdir_prefix [OF free path parent, of "Suc n" mode] obtain e tb t st
    where e: "items e = items (env s)" "sent e = sent (env s)"
      and st: "ps_mode st = df_dir_mode (pf p)" "ps_flags st = 0"
      and pc: "pacon_mkdir (Suc n) E p path mode s = mkdir_tail (Suc n) E p path st t (s\<lparr>dir_check_table := tb, env := e\<rparr>)"
    by blast
  let ?s1 = "s\<lparr>dir_check_table := tb, env := e\<rparr>"
  from removed(1) obtain v c where "items (env ?s1) (memc (kv_of p)) path = Some (v, c)" using e by (auto elim: entry_stat_SomeE)
  from add_present [OF key(3) key(2) this, of PSTAT_SIZE "stat_bytes st" n] obtain e1 where
    a: "add_evict (Suc n) E p path (stat_bytes st) PSTAT_SIZE ?s1 = Some (-1, ?s1\<lparr>env := e1\<rparr>)"
      "items e1 = items (env s)" "sent e1 = sent (env s)" using e by auto
  have "entry_stat (items (env (?s1\<lparr>env := e1\<rparr>)) (memc (kv_of p)) path) = Some old" using removed a by simp
  from replace_done [OF key(1) key(2) this removed(2), of PSTAT_SIZE "stat_bytes st"] a pc st show ?thesis
    by (fastforce simp: mkdir_tail_def simp del: add_evict.simps)
qed

subsection \<open>Getattr, rm and rmdir\<close>

lemma getattr_cached_run:
  assumes free: "perm_info (pf p) = None" and key: "path \<noteq> []" "norm_key path = path"
    and hit: "entry_stat (items (env s) (memc (kv_of p)) path) = Some x"
    and "local": "get_stat_flag x STAT_inline = 1 \<or> get_stat_flag x STAT_file_created = 0"
  shows "\<exists>e. pacon_getattr (Suc n) E p path st s = Some (if get_stat_flag x STAT_rm = 1 then -1 else 0,
      x\<lparr>ps_open_counter := ps_open_counter st, ps_fd := ps_fd st\<rparr>, s\<lparr>env := e\<rparr>) \<and>
    items e = items (env s) \<and> sent e = sent (env s)"
proof -
  from hit obtain v c where i: "items (env s) (memc (kv_of p)) path = Some (v, c)"
    and v: "PSTAT_SIZE \<le> length v" "x = bytes_stat v" by (rule entry_stat_SomeE)
  let ?e = "snd (memcached_get E (memc (kv_of p)) path (env s))"
  have "pacon_getattr (Suc n) E p path st s = Some (if get_stat_flag x STAT_rm = 1 then -1 else 0,
      x\<lparr>ps_open_counter := ps_open_counter st, ps_fd := ps_fd st\<rparr>, s\<lparr>env := ?e\<rparr>)"
    using free key "local" i v
    by (auto simp: pacon_getattr.simps(2) dmkv_get_run getattr_hit_def deseri_val_append get_stat_flag_def)
  then show ?thesis by (intro exI conjI) (assumption, simp_all)
qed

lemma rm_cached_run:
  assumes free: "perm_info (pf p) = None" and clock: "sane_clock E"
    and key: "path \<noteq> []" "norm_key path = path" "length path + 3 \<le> PATH_MAX"
    and hit: "entry_stat (items (env s) (memc (kv_of p)) path) = Some x"
  shows "\<exists>s' (t :: u32) c. pacon_rm (Suc n) E p path s = Some (0, s') \<and>
    items (env s') = put_item (memc (kv_of p)) path (stat_bytes (set_stat_flag x STAT_rm 1), c) (items (env s)) \<and>
    sent (env s') = sent (env s) @ [(publisher (pf p), path @ opt_str RM @ show_int (sint t))]"
proof -
  from hit obtain v c where i: "items (env s) (memc (kv_of p)) path = Some (v, c)"
    and v: "PSTAT_SIZE \<le> length v" "x = bytes_stat v" by (rule entry_stat_SomeE)
  let ?st = "set_stat_flag x STAT_rm 1"
  let ?e1 = "snd (memcached_get E (memc (kv_of p)) path (env s))"
  let ?e2 = "snd (memcached_cas E (memc (kv_of p)) path (stat_bytes ?st) c ?e1)"
  let ?e3 = "snd (c_time E ?e2)" and ?t = "fst (c_time E ?e2)"
  obtain c' where c': "items ?e2 = put_item (memc (kv_of p)) path (stat_bytes ?st, c') (items (env s))"
    using cas_items [of ?e1 "memc (kv_of p)" path v c "stat_bytes ?st"] i by auto
  have "pacon_rm (Suc n) E p path s = add_to_mq E p path RM ?t (s\<lparr>env := ?e3\<rparr>)"
    using free key i v
    by (simp add: pacon_rm_def dmkv_get_cas_run deseri_val_append seri_val_eq dmkv_cas_match ext_call_eq)
  moreover have "?t \<in> range (\<lambda>e. fst (c_time E e))" by blast
  from mq_run [OF clock this key(3), of p RM "s\<lparr>env := ?e3\<rparr>"] obtain e4 where
    "add_to_mq E p path RM ?t (s\<lparr>env := ?e3\<rparr>) = Some (0, s\<lparr>env := e4\<rparr>)" "items e4 = items ?e2"
    "sent e4 = sent (env s) @ [(publisher (pf p), path @ opt_str RM @ show_int (sint ?t))]" by auto
  ultimately have "pacon_rm (Suc n) E p path s = Some (0, s\<lparr>env := e4\<rparr>)"
    "items (env (s\<lparr>env := e4\<rparr>)) = put_item (memc (kv_of p)) path (stat_bytes ?st, c') (items (env s))"
    "sent (env (s\<lparr>env := e4\<rparr>)) = sent (env s) @ [(publisher (pf p), path @ opt_str RM @ show_int (sint ?t))]"
    using c' by simp_all
  then show ?thesis by blast
qed

lemma created_visible_run:
  assumes "perm_info (pf p) = None" "sane_clock E"
    "entry_path path d name" "length path + 3 \<le> PATH_MAX"
    "parent_known (items (env s) (memc (kv_of p))) d s"
    "items (env s) (memc (kv_of p)) path = None"
    "pacon_create (Suc n) E p path mode s = Some (r, s')"
    "perm_info (pf p2) = None" "memc (kv_of p2) = memc (kv_of p)" "env s2 = env s'"
  shows "\<exists>a s3. r = 0 \<and> pacon_getattr (Suc m) E p2 path st s2 = Some (0, a, s3) \<and>
    get_stat_flag a STAT_type = 1 \<and> ps_size a = 0 \<and> ps_mode a = df_f_mode (pf p) \<and> ps_ctime a = fst (c_time E (env s))"
proof -
  let ?t = "fst (c_time E (env s))"
  note key = entry_path_key [OF assms(3)]
  from create_new_run [OF assms(1-5) _ refl, of n mode] assms(6,7) obtain uid gid junk c where
    r: "r = 0" and i: "items (env s') = put_item (memc (kv_of p)) path
      (stat_bytes (set_stat_flag (new_stat (df_f_mode (pf p)) ?t ?t ?t 0 uid gid junk) STAT_type 1), c) (items (env s))"
    by auto
  let ?x = "set_stat_flag (new_stat (df_f_mode (pf p)) ?t ?t ?t 0 uid gid junk) STAT_type 1"
  have "entry_stat (items (env s2) (memc (kv_of p2)) path) = Some ?x" using i assms(9,10) by simp
  moreover have z: "get_stat_flag ?x f = 0" if "f \<noteq> STAT_type" for f
    using that by (simp add: new_stat_def) (simp add: get_stat_flag_def get_flag_word_def)
  ultimately obtain e where
    "pacon_getattr (Suc m) E p2 path st s2 = Some (0, ?x\<lparr>ps_open_counter := ps_open_counter st, ps_fd := ps_fd st\<rparr>, s2\<lparr>env := e\<rparr>)"
    using getattr_cached_run [OF assms(8) key(3) key(2), of s2 ?x m st] by auto
  moreover have "get_stat_flag (?x\<lparr>ps_open_counter := a, ps_fd := b\<rparr>) STAT_type = get_stat_flag ?x STAT_type" for a b
    by (simp add: get_stat_flag_def)
  ultimately show ?thesis using r by (simp add: new_stat_def)
qed

lemma rm_hides_run:
  assumes "perm_info (pf p) = None" "sane_clock E"
    "path \<noteq> []" "norm_key path = path" "length path + 3 \<le> PATH_MAX"
    "entry_stat (items (env s) (memc (kv_of p)) path) = Some x"
    "get_stat_flag x STAT_inline = 1 \<or> get_stat_flag x STAT_file_created = 0"
    "perm_info (pf p2) = None" "memc (kv_of p2) = memc (kv_of p)"
  shows "\<exists>s' (t :: u32) c. pacon_rm (Suc n) E p path s = Some (0, s') \<and>
    items (env s') = put_item (memc (kv_of p)) path (stat_bytes (set_stat_flag x STAT_rm 1), c) (items (env s)) \<and>
    sent (env s') = sent (env s) @ [(publisher (pf p), path @ opt_str RM @ show_int (sint t))] \<and>
    (\<forall>s2. items (env s2) (memc (kv_of p)) path = items (env s') (memc (kv_of p)) path \<longrightarrow>
      (\<exists>a s3. pacon_getattr (Suc m) E p2 path st s2 = Some (-1, a, s3)))"
proof -
  let ?x = "set_stat_flag x STAT_rm 1"
  from rm_cached_run [OF assms(1-6), of n] obtain s' and t :: u32 and c where
    r: "pacon_rm (Suc n) E p path s = Some (0, s')"
      "items (env s') = put_item (memc (kv_of p)) path (stat_bytes ?x, c) (items (env s))"
      "sent (env s') = sent (env s) @ [(publisher (pf p), path @ opt_str RM @ show_int (sint t))]" by blast
  have "\<exists>a s3. pacon_getattr (Suc m) E p2 path st s2 = Some (-1, a, s3)" 
    if e: "items (env s2) (memc (kv_of p)) path = items (env s') (memc (kv_of p)) path" for s2
  proof -
    have "entry_stat (items (env s2) (memc (kv_of p2)) path) = Some ?x" using r(2) e assms(9) by simp
    from getattr_cached_run [OF assms(8,3,4) this, of m st] assms(7) show ?thesis by auto
  qed
  with r show ?thesis by blast
qed

end

lemma rmdir_keeps_table:
  assumes "pacon_rmdir n E p d s = Some (r, s')" shows "dir_check_table s' = dir_check_table s"
proof -
  have "lands (\<lambda>x. dir_check_table x = dir_check_table s) (pacon_rmdir n E p d s)"
    unfolding pacon_rmdir_def fdht_clean_def
    by (intro lands_intros dir_check.st_permitted dir_check.st_ensure dir_check.st_ext dir_check.st_rpc dir_check.st_del;
        simp)
  with assms show ?thesis by (auto dest: landsD)
qed

subsection \<open>A client on the reference environment\<close>

definition ref_fields :: pacon_fields where
  "ref_fields = \<lparr>mount_path = ''/w'', kv_handle = ref_kv, publisher = 1, local_rpc_req = 2, fsync_logfile_path = [],
     fsync_log_fd = 9, log_size = 0, perm_info = None, df_dir_mode = 0x41ED, df_f_mode = 0x81A4, cr_num = 0, remote_cr_root = []\<rparr>"

definition ref_pacon :: pacon where "ref_pacon = PACON ref_fields []"

definition ref_client :: "ref_env client" where
  "ref_client = \<lparr>env = ref_env0, dir_check_table = [''/w'' \<mapsto> 0], fd_table = Map.empty, openc_table = Map.empty, current_barrier_id = 0\<rparr>"

text \<open>An entry of the cache that is there, or marked as removed.\<close>

definition ref_stat :: pacon_stat where
  "ref_stat = set_stat_flag (new_stat 0x81A4 1 1 1 0 1000 1000 0) STAT_type 1"

definition ref_client_with :: "pacon_stat \<Rightarrow> ref_env client" where
  "ref_client_with st = ref_client\<lparr>env := ref_env0\<lparr>r_items := put_item [''10.0.0.1''] ''/w/a'' (stat_bytes st, 1) (\<lambda>_. Map.empty)\<rparr>\<rparr>"

lemmas ref_client_defs = ref_pacon_def ref_fields_def ref_kv_def ref_client_def ref_client_with_def ref_env0_def

lemma ref_clock [simp]: "sane_clock ref_ext"
  by (simp add: sane_clock_def ref_ext_def)

lemma ref_path: "entry_path ''/w/a'' ''/w'' ''a''"
  by (simp add: entry_path_def)

lemma ref_parent: "parent_known I ''/w'' ref_client" "parent_known I ''/w'' (ref_client_with st)"
  by (simp_all add: parent_known_def table_defs ht_get_def ref_client_defs)

lemma ref_free: "perm_info (pf ref_pacon) = None"
  by (simp add: ref_client_defs)

lemma ref_memc: "memc (kv_of ref_pacon) = [''10.0.0.1'']"
  by (simp add: ref_client_defs)

lemma ref_items: "r_items (env ref_client) m k = None"
  "r_items (env (ref_client_with st)) [''10.0.0.1''] ''/w/a'' = Some (stat_bytes st, 1)"
  by (simp_all add: ref_client_defs)

lemma ref_stat_flags [simp]:
  "get_stat_flag ref_stat STAT_rm = 0" "get_stat_flag ref_stat STAT_inline = 0" "get_stat_flag ref_stat STAT_file_created = 0"
  by (simp_all add: ref_stat_def) (simp_all add: new_stat_def get_stat_flag_def get_flag_word_def)

lemma ref_time: "r_clock (env ref_client) = 1000"
  by (simp add: ref_client_defs)

lemma ref_create_runs: "\<exists>s'. pacon_create 1 ref_ext ref_pacon ''/w/a'' 0 ref_client = Some (0, s')"
  using ref.create_new_run [OF ref_free ref_clock ref_path _ ref_parent(1) _ refl, of 0 0]
  by (auto simp: ref_items PATH_MAX_def)

definition ref_checked :: "ref_env client" where
  "ref_checked = (ref_client_with ref_stat)\<lparr>dir_check_table := [''/w/a'' \<mapsto> 0]\<rparr>"

lemma ref_rpc:
  assumes "length path + 13 \<le> PATH_MAX" "0 \<le> sint t" "r_reply (env s) = ''0''"
  shows "add_to_local_rpc ref_ext p path opt t s = Some (0,
    s\<lparr>env := (env s)\<lparr>r_sent := r_sent (env s) @ [(local_rpc_req (pf p), path @ opt_str opt @ show_int (sint t))]\<rparr>\<rparr>)"
  using assms by (simp add: add_to_local_rpc_def mesg_text_eq ext_call_eq fresh_block_run) (simp add: ref_ext_def)

lemma ref_rmdir_runs:
  "\<exists>s1. pacon_rmdir 1 ref_ext ref_pacon ''/w/a'' ref_checked = Some (0, s1) \<and>
     r_items (env s1) (memc (kv_of ref_pacon)) ''/w/a/b'' = None"
proof -
  have k: "norm_key ''/w/a'' = ''/w/a''" by (simp add: norm_key_def)
  have i: "r_items (env ref_checked) [''10.0.0.1''] ''/w/a'' = Some (stat_bytes ref_stat, 1)"
    "r_items (env ref_checked) [''10.0.0.1''] ''/w/a/b'' = None"
    "current_barrier_id ref_checked = 0" "r_reply (env ref_checked) = ''0''"
    by (simp_all add: ref_checked_def ref_client_defs)
  show ?thesis
    using i
    by (simp add: pacon_rmdir_def ref_free ensure_cached_def ensure_cached_with_def ref.dmkv_get_run k ref_memc
        sprintf_buf_def show_int_0 PATH_MAX_def ext_call_eq ref_rpc ref.dmkv_del_run)
qed

lemmas ref_facts = ref_free ref_path ref_parent ref_memc ref_items PATH_MAX_def

subsection \<open>Properties\<close>

text \<open>
  C4: In a region without permissions, with the parent directory known, \<open>pacon_create\<close> of a path
  that is not cached, or cached as removed, returns 0, stores under the path a file entry of size
  0 with the default mode and the current time, leaves every other item of the cache as it was,
  and sends the server of the node exactly one message, a CREATE for the path.
\<close>

theorem create_stores_and_publishes:
  assumes "client_env E items sent" "perm_info (pf p) = None" "sane_clock E"
    "entry_path path d name" "length path + 3 \<le> PATH_MAX"
    "parent_known (items (env s) (memc (kv_of p))) d s"
    "items (env s) (memc (kv_of p)) path = None \<or>
      (\<exists>st. entry_stat (items (env s) (memc (kv_of p)) path) = Some st \<and> get_stat_flag st STAT_rm = 1)"
    "t = fst (c_time E (env s))"
  shows "\<exists>s' uid gid junk c. pacon_create (Suc n) E p path mode s = Some (0, s') \<and>
    items (env s') = put_item (memc (kv_of p)) path
      (stat_bytes (set_stat_flag (new_stat (df_f_mode (pf p)) t t t 0 uid gid junk) STAT_type 1), c) (items (env s)) \<and>
    sent (env s') = sent (env s) @ [(publisher (pf p), path @ opt_str CREATE @ show_int (sint t))]"
  using assms by (rule client_env.create_new_run)

theorem create_stores_and_publishes_witness:
  "\<exists>s' uid gid junk c. pacon_create 1 ref_ext ref_pacon ''/w/a'' 0 ref_client = Some (0, s') \<and>
    r_items (env s') = put_item (memc (kv_of ref_pacon)) ''/w/a''
      (stat_bytes (set_stat_flag (new_stat (df_f_mode (pf ref_pacon)) 1000 1000 1000 0 uid gid junk) STAT_type 1), c) (r_items (env ref_client)) \<and>
    r_sent (env s') = r_sent (env ref_client) @ [(publisher (pf ref_pacon), ''/w/a'' @ opt_str CREATE @ show_int (sint (1000 :: u32)))]"
  using create_stores_and_publishes [OF ref.client_env_axioms ref_free ref_clock ref_path _ ref_parent(1), of 1000 0 0]
  by (simp add: ref_items PATH_MAX_def) (simp add: ref_ext_def ref_client_defs)

text \<open>
  C11: In a region without batch permissions, \<open>pacon_create\<close> of a path whose parent is known (the
  client has checked it, or it is cached as a directory whose children need not be loaded), and that
  is itself cached and not marked as removed, returns -1 and changes neither the cache nor the queue of messages.
\<close>

theorem create_existing_refused:
  assumes "client_env E items sent" "perm_info (pf p) = None"
    "entry_path path d name" "length path + 3 \<le> PATH_MAX"
    "parent_known (items (env s) (memc (kv_of p))) d s"
    "entry_stat (items (env s) (memc (kv_of p)) path) = Some st" "get_stat_flag st STAT_rm = 0"
  shows "\<exists>s'. pacon_create (Suc n) E p path mode s = Some (-1, s') \<and>
    items (env s') = items (env s) \<and> sent (env s') = sent (env s)"
  using assms by (rule client_env.create_existing_run)

theorem create_existing_refused_witness:
  "\<exists>s'. pacon_create 1 ref_ext ref_pacon ''/w/a'' 0 (ref_client_with ref_stat) = Some (-1, s') \<and>
    r_items (env s') = r_items (env (ref_client_with ref_stat)) \<and> r_sent (env s') = r_sent (env (ref_client_with ref_stat))"
  using create_existing_refused [OF ref.client_env_axioms ref_free ref_path _ ref_parent(2), of ref_stat ref_stat 0 0]
  by (simp add: ref_items ref_memc PATH_MAX_def ref_stat_flags)

text \<open>
  C10: After a successful \<open>pacon_create\<close> of a new path every client of the region, on whatever
  node, that asks for the attributes finds the file: \<open>pacon_getattr\<close> returns 0 and the file has
  type file, size 0, the default mode and the time of the creation.
\<close>

theorem created_file_visible:
  assumes "client_env E items sent" "perm_info (pf p) = None" "sane_clock E"
    "entry_path path d name" "length path + 3 \<le> PATH_MAX"
    "parent_known (items (env s) (memc (kv_of p))) d s"
    "items (env s) (memc (kv_of p)) path = None"
    "pacon_create (Suc n) E p path mode s = Some (r, s')"
    "perm_info (pf p2) = None" "memc (kv_of p2) = memc (kv_of p)" "env s2 = env s'"
  shows "\<exists>a s3. r = 0 \<and> pacon_getattr (Suc m) E p2 path st s2 = Some (0, a, s3) \<and>
    get_stat_flag a STAT_type = 1 \<and> ps_size a = 0 \<and> ps_mode a = df_f_mode (pf p) \<and> ps_ctime a = fst (c_time E (env s))"
  using assms by (rule client_env.created_visible_run)

theorem created_file_visible_witness:
  "\<exists>r s' a s3. pacon_create 1 ref_ext ref_pacon ''/w/a'' 0 ref_client = Some (r, s') \<and> r = 0 \<and>
    pacon_getattr 1 ref_ext ref_pacon ''/w/a'' ref_stat s' = Some (0, a, s3) \<and>
    get_stat_flag a STAT_type = 1 \<and> ps_size a = 0 \<and> ps_mode a = df_f_mode (pf ref_pacon) \<and> ps_ctime a = 1000"
proof -
  obtain r s' where c: "pacon_create (Suc 0) ref_ext ref_pacon ''/w/a'' 0 ref_client = Some (r, s')"
    using ref_create_runs by fastforce
  from created_file_visible [OF ref.client_env_axioms ref_free ref_clock ref_path _ ref_parent(1) _ c ref_free refl refl, of 0 ref_stat] c
  show ?thesis by (simp add: ref_items PATH_MAX_def ref_time)
qed

text \<open>
  C6: In a region without batch permissions, \<open>pacon_rm\<close> of a cached path whose data is inline or
  whose file is not yet on the file system returns 0, marks the entry as removed, changes nothing
  else in the cache and sends one RM message. In every later state in which the entry of the path
  is still the one that \<open>pacon_rm\<close> left, whatever else has changed, \<open>pacon_getattr\<close> of the path
  returns -1 to every client of the region.
\<close>

theorem rm_hides_and_publishes:
  assumes "client_env E items sent" "perm_info (pf p) = None" "sane_clock E"
    "path \<noteq> []" "norm_key path = path" "length path + 3 \<le> PATH_MAX"
    "entry_stat (items (env s) (memc (kv_of p)) path) = Some x"
    "get_stat_flag x STAT_inline = 1 \<or> get_stat_flag x STAT_file_created = 0"
    "perm_info (pf p2) = None" "memc (kv_of p2) = memc (kv_of p)"
  shows "\<exists>s' (t :: u32) c. pacon_rm (Suc n) E p path s = Some (0, s') \<and>
    items (env s') = put_item (memc (kv_of p)) path (stat_bytes (set_stat_flag x STAT_rm 1), c) (items (env s)) \<and>
    sent (env s') = sent (env s) @ [(publisher (pf p), path @ opt_str RM @ show_int (sint t))] \<and>
    (\<forall>s2. items (env s2) (memc (kv_of p)) path = items (env s') (memc (kv_of p)) path \<longrightarrow>
      (\<exists>a s3. pacon_getattr (Suc m) E p2 path st s2 = Some (-1, a, s3)))"
  using assms by (rule client_env.rm_hides_run)

theorem rm_hides_and_publishes_witness:
  "\<exists>s' (t :: u32) c. pacon_rm 1 ref_ext ref_pacon ''/w/a'' (ref_client_with ref_stat) = Some (0, s') \<and>
    r_items (env s') = put_item (memc (kv_of ref_pacon)) ''/w/a'' (stat_bytes (set_stat_flag ref_stat STAT_rm 1), c) (r_items (env (ref_client_with ref_stat))) \<and>
    r_sent (env s') = r_sent (env (ref_client_with ref_stat)) @ [(publisher (pf ref_pacon), ''/w/a'' @ opt_str RM @ show_int (sint t))] \<and>
    (\<forall>s2. r_items (env s2) (memc (kv_of ref_pacon)) ''/w/a'' = r_items (env s') (memc (kv_of ref_pacon)) ''/w/a'' \<longrightarrow>
      (\<exists>a s3. pacon_getattr 1 ref_ext ref_pacon ''/w/a'' ref_stat s2 = Some (-1, a, s3)))"
  using rm_hides_and_publishes [OF ref.client_env_axioms ref_free ref_clock, of "''/w/a''" "ref_client_with ref_stat" ref_stat ref_pacon 0 0 ref_stat]
  by (simp add: ref_items ref_memc PATH_MAX_def ref_stat_flags ref_free norm_key_def)

text \<open>
  \<open>pacon_mkdir\<close> of a path that is not cached returns 0, stores a directory entry with the
  default mode and sends one MKDIR message.
\<close>

theorem mkdir_stores_and_publishes:
  assumes "client_env E items sent" "perm_info (pf p) = None" "sane_clock E"
    "entry_path path d name" "length path + 3 \<le> PATH_MAX"
    "parent_known (items (env s) (memc (kv_of p))) d s"
    "items (env s) (memc (kv_of p)) path = None"
  shows "\<exists>s' (t :: u32) st c. pacon_mkdir (Suc n) E p path mode s = Some (0, s') \<and>
    ps_mode st = df_dir_mode (pf p) \<and> ps_flags st = 0 \<and>
    items (env s') = put_item (memc (kv_of p)) path (stat_bytes st, c) (items (env s)) \<and>
    sent (env s') = sent (env s) @ [(publisher (pf p), path @ opt_str MKDIR @ show_int (sint t))]"
  using assms by (rule client_env.mkdir_new_run)

theorem mkdir_stores_and_publishes_witness:
  "\<exists>s' (t :: u32) st c. pacon_mkdir 1 ref_ext ref_pacon ''/w/a'' 0 ref_client = Some (0, s') \<and>
    ps_mode st = df_dir_mode (pf ref_pacon) \<and> ps_flags st = 0 \<and>
    r_items (env s') = put_item (memc (kv_of ref_pacon)) ''/w/a'' (stat_bytes st, c) (r_items (env ref_client)) \<and>
    r_sent (env s') = r_sent (env ref_client) @ [(publisher (pf ref_pacon), ''/w/a'' @ opt_str MKDIR @ show_int (sint t))]"
  using mkdir_stores_and_publishes [OF ref.client_env_axioms ref_free ref_clock ref_path _ ref_parent(1), of 0 0]
  by (simp add: ref_items PATH_MAX_def)

text \<open>
  C35: Over an entry that is marked as removed \<open>pacon_mkdir\<close> returns 0 and stores the directory, but
  sends no message: the directory is never made on the file system.
\<close>

theorem mkdir_over_removed_not_published:
  assumes "client_env E items sent" "perm_info (pf p) = None"
    "entry_path path d name" "length path + 3 \<le> PATH_MAX"
    "parent_known (items (env s) (memc (kv_of p))) d s"
    "entry_stat (items (env s) (memc (kv_of p)) path) = Some old" "get_stat_flag old STAT_rm = 1"
  shows "\<exists>s' st c. pacon_mkdir (Suc n) E p path mode s = Some (0, s') \<and>
    ps_mode st = df_dir_mode (pf p) \<and> ps_flags st = 0 \<and>
    items (env s') = put_item (memc (kv_of p)) path (stat_bytes st, c) (items (env s)) \<and> sent (env s') = sent (env s)"
  using assms by (rule client_env.mkdir_removed_run)

theorem mkdir_over_removed_not_published_witness:
  "\<exists>s' st c. pacon_mkdir 1 ref_ext ref_pacon ''/w/a'' 0 (ref_client_with (set_stat_flag ref_stat STAT_rm 1)) = Some (0, s') \<and>
    ps_mode st = df_dir_mode (pf ref_pacon) \<and> ps_flags st = 0 \<and>
    r_items (env s') = put_item (memc (kv_of ref_pacon)) ''/w/a'' (stat_bytes st, c)
      (r_items (env (ref_client_with (set_stat_flag ref_stat STAT_rm 1)))) \<and>
    r_sent (env s') = r_sent (env (ref_client_with (set_stat_flag ref_stat STAT_rm 1)))"
  using mkdir_over_removed_not_published [OF ref.client_env_axioms ref_free ref_path _ ref_parent(2),
      of "set_stat_flag ref_stat STAT_rm 1" "set_stat_flag ref_stat STAT_rm 1" 0 0]
  by (simp add: ref_items ref_memc PATH_MAX_def)

text \<open>
  C36: A client that checked a directory and then removes it with \<open>pacon_rmdir\<close> still takes the
  directory for checked: creating a file below it returns 0 and is published, although the
  directory is gone.
\<close>

theorem create_below_removed_dir:
  assumes "client_env E items sent" "perm_info (pf p) = None" "sane_clock E"
    "dir_check_local d s \<noteq> -1" "pacon_rmdir n E p d s = Some (0, s1)"
    "entry_path path d name" "length path + 3 \<le> PATH_MAX"
    "items (env s1) (memc (kv_of p)) path = None"
  shows "\<exists>s2. pacon_create (Suc m) E p path mode s1 = Some (0, s2) \<and>
    sent (env s2) = sent (env s1) @ [(publisher (pf p), path @ opt_str CREATE @ show_int (sint (fst (c_time E (env s1)))))]"
proof -
  have "dir_check_local d s1 \<noteq> -1"
    using assms(4) rmdir_keeps_table [OF assms(5)] by (simp add: table_defs)
  then have "parent_known (items (env s1) (memc (kv_of p))) d s1" by (simp add: parent_known_def)
  from client_env.create_new_run [OF assms(1,2,3,6,7) this _ refl, of m mode] assms(8) show ?thesis by blast
qed

theorem create_below_removed_dir_witness:
  "\<exists>s1 s2. pacon_rmdir 1 ref_ext ref_pacon ''/w/a'' ref_checked = Some (0, s1) \<and>
    pacon_create 1 ref_ext ref_pacon ''/w/a/b'' 0 s1 = Some (0, s2) \<and> r_sent (env s2) \<noteq> r_sent (env s1)"
proof -
  obtain s1 where r: "pacon_rmdir 1 ref_ext ref_pacon ''/w/a'' ref_checked = Some (0, s1)"
    and i: "r_items (env s1) (memc (kv_of ref_pacon)) ''/w/a/b'' = None"
    using ref_rmdir_runs by blast
  have p: "entry_path ''/w/a/b'' ''/w/a'' ''b''" by (simp add: entry_path_def)
  have d: "dir_check_local ''/w/a'' ref_checked \<noteq> -1" by (simp add: table_defs ht_get_def ref_checked_def)
  from create_below_removed_dir [OF ref.client_env_axioms ref_free ref_clock d r p _ i, of 0 0] r
  show ?thesis by (auto simp: PATH_MAX_def)
qed

end
