(* ===== verification/File_Thms.thy ===== *)
theory File_Thms
  imports File_Data Namespace_Thms
begin

text \<open>
  Correctness of the file data operations: inline writes and reads against the plain list of
  bytes they stand for, files that are created together with their data, conflicts, and files of
  joined regions.
\<close>

subsection \<open>Inline data as a list of bytes\<close>

text \<open>Writing \<open>b\<close> at \<open>off\<close> into \<open>t\<close>.\<close>

definition overwrite :: "bytes \<Rightarrow> nat \<Rightarrow> bytes \<Rightarrow> bytes" where
  "overwrite t off b = take off t @ b @ drop (off + length b) t"

lemma length_overwrite: "off \<le> length t \<Longrightarrow> length (overwrite t off b) = max (off + length b) (length t)"
  by (simp add: overwrite_def)

lemma overwrite_read: "off \<le> length t \<Longrightarrow> take (length b) (drop off (overwrite t off b)) = b"
  by (simp add: overwrite_def)

lemma set_overwrite: "NUL \<notin> set t \<Longrightarrow> NUL \<notin> set b \<Longrightarrow> NUL \<notin> set (overwrite t off b)"
  by (auto simp: overwrite_def dest: in_set_takeD in_set_dropD)

lemma as_int_small:
  assumes "unat w < 2 ^ 31" shows "as_int w = int (unat w)"
proof -
  have "nat (uint w) < 2 ^ 31" using assms by (simp only: unat_eq_nat_uint)
  then have "uint w < int (2 ^ 31)" by (subst (asm) nat_less_iff) simp_all
  then have u: "uint w < 2 ^ 31" by simp
  have l: "- (2 ^ 31) \<le> uint w" by (rule order_trans [OF _ unsigned_greater_eq]) simp
  have "sint (ucast w :: u32) = uint w"
    using u l by (simp add: sint_uint unsigned_ucast_eq take_bit_int_eq_self signed_take_bit_int_eq_self)
  then show ?thesis by (simp add: as_int_def)
qed

text \<open>The block that \<open>splice\<close> builds starts with the overwritten data and its terminator.\<close>

lemma splice_cond:
  assumes "off < 2 ^ 31" "l < 2 ^ 31" "k < 2 ^ 31" "off + l < 2 ^ 31"
  shows "(of_nat off + of_nat l < (ucast (of_nat k :: u32) :: u64)) \<longleftrightarrow> off + l < k"
    "off + l \<le> k \<Longrightarrow> unat (ucast (of_nat k :: u32) - (of_nat off + of_nat l :: u64)) = k - (off + l)"
proof -
  show "(of_nat off + of_nat l < (ucast (of_nat k :: u32) :: u64)) \<longleftrightarrow> off + l < k"
    unfolding small_add small_up [OF assms(3)] by (rule small_less [OF assms(4,3)])
  assume le: "off + l \<le> k"
  have "k - (off + l) < 2 ^ 31" using assms(3) by simp
  then show "unat (ucast (of_nat k :: u32) - (of_nat off + of_nat l :: u64)) = k - (off + l)"
    unfolding small_add small_up [OF assms(3)] small_diff [OF le] by (rule unat_small)
qed

lemma poke_end: "m < length blk \<Longrightarrow> length p = m \<Longrightarrow> poke (p @ drop m blk) m c = Some (p @ c # drop (Suc m) blk)"
  by (auto simp: poke_def list_update_append Cons_nth_drop_Suc [symmetric])

lemma splice_eq:
  assumes len: "length blk = INLINE_MAX" "length t < INLINE_MAX" "off \<le> length t" "off + length b < INLINE_MAX"
    and stop: "stop = int (max (off + length b) (length t))"
  shows "\<exists>r. splice blk (t @ NUL # rest) (b @ brest) (of_nat (length b)) (of_nat off) (of_nat (length t)) stop =
    Some (overwrite t off b @ NUL # r)"
proof -
  have s: "off < 2 ^ 31" "length b < 2 ^ 31" "length t < 2 ^ 31" "off + length b < 2 ^ 31"
    using len by (simp_all add: INLINE_MAX_def)
  note w = splice_cond [OF s(1,2,3,4)] unat_small(1) [OF s(1)] unat_small(1) [OF s(2)]
  define m where "m = max (off + length b) (length t)"
  have m: "m < INLINE_MAX" "off + length b \<le> m" "length t \<le> m" using len by (auto simp: m_def)
  let ?d = "take off t @ b @ drop (off + length b) t @ drop m blk"
  have sp: "splice blk (t @ NUL # rest) (b @ brest) (of_nat (length b)) (of_nat off) (of_nat (length t)) (int m) =
      poke ?d m NUL"
  proof (cases "off + length b < length t")
    case True
    then have "m = length t" by (simp add: m_def)
    moreover have "length t - (off + length b) \<le> Suc (length t + length rest - (off + length b))"
      using diff_le_mono [of "length t" "length t + length rest" "off + length b"] by simp
    ultimately show ?thesis using True len unfolding splice_def w(1) w(3,4) w(2) [OF less_imp_le [OF True]] by (simp add: memcpy_def)
  next
    case False
    then have "m = off + length b" by (simp add: m_def)
    with False len show ?thesis unfolding splice_def w(1) w(3,4)
      by (simp add: memcpy_def add.commute [of "length b"] nat_add_distrib)
  qed
  have "length (take off t @ b @ drop (off + length b) t) = m" using len by (simp add: m_def)
  then have "poke ?d m NUL = Some ((take off t @ b @ drop (off + length b) t) @ NUL # drop (Suc m) blk)"
    using poke_end [of m blk "take off t @ b @ drop (off + length b) t"] m len(1) by simp
  with sp stop show ?thesis by (auto simp: overwrite_def m_def)
qed

subsection \<open>One inline write\<close>

lemma strlen_fits:
  assumes "length t < 2 ^ 31" shows "\<not> strlen_exceeds t (of_nat (length t))"
proof -
  have "sint (of_nat (length t) :: u32) = int (length t)"
    using assms by (simp add: sint_uint unsigned_of_nat take_bit_nat_eq_self signed_take_bit_int_eq_self)
  then show ?thesis by (simp add: strlen_exceeds_def scast_eq)
qed

lemma new_size_eq:
  assumes "off < 2 ^ 31" "l < 2 ^ 31" "k < 2 ^ 31" "off + l < 2 ^ 31"
  shows "as_int (if of_nat off + of_nat l > (ucast (of_nat k :: u32) :: u64) then of_nat off + of_nat l else ucast (of_nat k :: u32)) =
    int (max (off + l) k)"
proof -
  have "as_int (of_nat (off + l)) = int (off + l)" "as_int (of_nat k) = int k"
    using assms unat_small(1) [OF assms(4)] unat_small(1) [OF assms(3)] by (simp_all add: as_int_small del: of_nat_add)
  then show ?thesis
    unfolding small_add small_up [OF assms(3)] small_less [OF assms(3,4)] by (simp add: max_def del: of_nat_add)
qed

text \<open>
  The metadata after an inline write at time \<open>et\<close> that leaves \<open>n\<close> bytes.
\<close>

definition written_stat :: "pacon_stat \<Rightarrow> u32 \<Rightarrow> nat \<Rightarrow> pacon_stat" where
  "written_stat st et n = set_stat_flag (st\<lparr>ps_atime := et, ps_mtime := et, ps_size := of_nat n\<rparr>) STAT_inline 1"

context client_env
begin

lemma store_inline_run:
  assumes "path \<noteq> []" "norm_key path = path" "items (env s) (memc (kv_of p)) path = Some (v, c)"
    "NUL \<notin> set d" "length d < INLINE_MAX"
  shows "\<exists>e c'. store_inline E p path st (d @ NUL # r) (length d) c s = Some (0, s\<lparr>env := e\<rparr>) \<and>
    items e = put_item (memc (kv_of p)) path (stat_bytes st @ d, c') (items (env s)) \<and> sent e = sent (env s)"
proof -
  let ?e1 = "snd (c_indet_block E (PSTAT_SIZE + INLINE_MAX) (env s))"
  let ?e2 = "snd (memcached_cas E (memc (kv_of p)) path (stat_bytes st @ d) c ?e1)"
  have "store_inline E p path st (d @ NUL # r) (length d) c s = Some (0, s\<lparr>env := ?e2\<rparr>)"
    using assms by (simp add: store_inline_def fresh_block_run seri_inline_data_eq dmkv_cas_match)
  moreover obtain c' where "items ?e2 = put_item (memc (kv_of p)) path (stat_bytes st @ d, c') (items (env s))"
    using cas_items [of ?e1 "memc (kv_of p)" path v c "stat_bytes st @ d"] assms(3) by auto
  ultimately show ?thesis by (intro exI conjI) (assumption, assumption, simp)
qed

lemma write_inline_run:
  assumes clock: "sane_clock E" and key: "path \<noteq> []" "norm_key path = path" "length path + 3 \<le> PATH_MAX"
    and item: "items (env s) (memc (kv_of p)) path = Some (v, c)"
    and data: "NUL \<notin> set t" "NUL \<notin> set b" "off \<le> length t" "ps_size st = of_nat (length t)"
    and fits: "max (off + length b) (length t) < INLINE_MAX"
  shows "\<exists>e et t2 c'. write_inline E p path f (b @ brest) (of_nat (length b)) (of_nat off) st (t @ NUL # rest) c
      (int (max (off + length b) (length t))) s =
        Some (False, int (length b), f\<lparr>f_size := of_nat (length (overwrite t off b))\<rparr>, s\<lparr>env := e\<rparr>) \<and>
    items e = put_item (memc (kv_of p)) path (stat_bytes (written_stat st et (length (overwrite t off b))) @ overwrite t off b, c') (items (env s)) \<and>
    sent e = sent (env s) @ [(publisher (pf p), path @ opt_str WRITE @ show_int (sint (t2 :: u32)))]"
proof -
  let ?d = "overwrite t off b"
  let ?m = "max (off + length b) (length t)"
  have d: "length ?d = ?m" "NUL \<notin> set ?d" using data by (simp_all add: length_overwrite set_overwrite)
  let ?e1 = "snd (c_indet_block E INLINE_MAX (env s))"
  let ?e2 = "snd (c_time E ?e1)" and ?et = "fst (c_time E ?e1)"
  have "off + length b < INLINE_MAX" "length t < INLINE_MAX" using fits by simp_all
  from splice_eq [OF length_fit this(2) data(3) this(1) refl, of "fst (c_indet_block E INLINE_MAX (env s))" rest brest]
  obtain r where
    sp: "splice (fit INLINE_MAX (fst (c_indet_block E INLINE_MAX (env s)))) (t @ NUL # rest) (b @ brest)
      (of_nat (length b)) (of_nat off) (ps_size st) (int ?m) = Some (?d @ NUL # r)"
    unfolding data(4) by blast
  have it: "items (env (s\<lparr>env := ?e2\<rparr>)) (memc (kv_of p)) path = Some (v, c)" using item by simp
  have "length ?d < INLINE_MAX" using fits d by simp
  from store_inline_run [OF key(1,2) it d(2) this, of "written_stat st ?et (length ?d)" r] obtain e3 c' where
    st: "store_inline E p path (written_stat st ?et (length ?d)) (?d @ NUL # r) (length ?d) c (s\<lparr>env := ?e2\<rparr>) = Some (0, s\<lparr>env := e3\<rparr>)"
      "items e3 = put_item (memc (kv_of p)) path (stat_bytes (written_stat st ?et (length ?d)) @ ?d, c') (items (env s))"
      "sent e3 = sent (env s)" by auto
  let ?e4 = "snd (c_time E e3)" and ?t2 = "fst (c_time E e3)"
  have "?t2 \<in> range (\<lambda>e. fst (c_time E e))" by blast
  from mq_run [OF clock this key(3), of p WRITE "s\<lparr>env := ?e4\<rparr>"] obtain e5 where
    mq: "add_to_mq E p path WRITE ?t2 (s\<lparr>env := ?e4\<rparr>) = Some (0, s\<lparr>env := e5\<rparr>)" "items e5 = items e3"
      "sent e5 = sent (env s) @ [(publisher (pf p), path @ opt_str WRITE @ show_int (sint ?t2))]" using st by auto
  have l: "length b < 2 ^ 31" using fits by (simp add: INLINE_MAX_def)
  then have "as_int (of_nat (length b)) = int (length b)" using unat_small(1) [OF l] by (simp add: as_int_small)
  then have "write_inline E p path f (b @ brest) (of_nat (length b)) (of_nat off) st (t @ NUL # rest) c (int ?m) s =
      Some (False, int (length b), f\<lparr>f_size := of_nat (length ?d)\<rparr>, s\<lparr>env := e5\<rparr>)"
    using sp st(1) mq(1) d(1)
    by (simp add: write_inline_def fresh_block_run ext_call_eq written_stat_def del: of_nat_max)
  with st(2) mq show ?thesis by metis
qed

lemma write_new_inline_run:
  assumes free: "perm_info (pf p) = None" and clock: "sane_clock E"
    and key: "path \<noteq> []" "norm_key path = path" "length path + 3 \<le> PATH_MAX"
    and item: "items (env s) (memc (kv_of p)) path = Some (stat_bytes st @ t, c)"
    and data: "NUL \<notin> set t" "NUL \<notin> set b" "off \<le> length t" "ps_size st = of_nat (length t)"
    and fits: "max (off + length b) (length t) + 1 < INLINE_MAX" and fd: "f_fd f \<le> 0"
  shows "\<exists>e et t2 c'. pacon_write_new (Suc n) E p path f (b @ NUL # brest) (of_nat (length b)) (of_nat off) s =
        Some (int (length b), f\<lparr>f_size := of_nat (length (overwrite t off b))\<rparr>, s\<lparr>env := e\<rparr>) \<and>
    items e = put_item (memc (kv_of p)) path (stat_bytes (written_stat st et (length (overwrite t off b))) @ overwrite t off b, c') (items (env s)) \<and>
    sent e = sent (env s) @ [(publisher (pf p), path @ opt_str WRITE @ show_int (sint (t2 :: u32)))]"
proof -
  let ?e1 = "snd (c_indet E (env s))"
  let ?e2 = "snd (memcached_get E (memc (kv_of p)) path ?e1)"
  let ?e3 = "snd (c_indet_block E INLINE_MAX ?e2)"
  let ?m = "max (off + length b) (length t)"
  have small: "off < 2 ^ 31" "length b < 2 ^ 31" "length t < 2 ^ 31" "off + length b < 2 ^ 31" "?m < INLINE_MAX" "length t < INLINE_MAX"
    using fits data(3) by (simp_all add: INLINE_MAX_def)
  note ns = new_size_eq [OF small(1,2,3,4)]
  let ?blk = "fit INLINE_MAX (fst (c_indet_block E INLINE_MAX ?e2))"
  have de: "deseri_inline_data ?blk (stat_bytes st @ t @ [NUL]) = Some (st, t @ NUL # drop (length t + 1) ?blk)"
    using deseri_inline_data_eq [of t ?blk st "[]"] data(1) small(6) by simp
  have of: "\<not> sint (ucast (ps_size st) :: u64) < sint (of_nat off :: u64)"
    unfolding data(4) small_up [OF small(3)] small_sint [OF small(3)] small_sint [OF small(1)] using data(3) by simp
  have it: "items (env (s\<lparr>env := ?e3\<rparr>)) (memc (kv_of p)) path = Some (stat_bytes st @ t, c)" using item by simp
  from write_inline_run [OF clock key it data small(5), of f "NUL # brest" "drop (length t + 1) ?blk"] obtain e et t2 c' where
    w: "write_inline E p path f (b @ NUL # brest) (of_nat (length b)) (of_nat off) st (t @ NUL # drop (length t + 1) ?blk) c (int ?m) (s\<lparr>env := ?e3\<rparr>) =
        Some (False, int (length b), f\<lparr>f_size := of_nat (length (overwrite t off b))\<rparr>, s\<lparr>env := e\<rparr>)"
    "items e = put_item (memc (kv_of p)) path (stat_bytes (written_stat st et (length (overwrite t off b))) @ overwrite t off b, c') (items (env s))"
    "sent e = sent (env s) @ [(publisher (pf p), path @ opt_str WRITE @ show_int (sint (t2 :: u32)))]" by auto
  have lt: "int ?m < int INLINE_MAX - 1" using fits by linarith
  have "pacon_write_new (Suc n) E p path f (b @ NUL # brest) (of_nat (length b)) (of_nat off) s =
        Some (int (length b), f\<lparr>f_size := of_nat (length (overwrite t off b))\<rparr>, s\<lparr>env := e\<rparr>)"
    using free key(1,2) item data(2) fd strlen_fits [OF small(2)] de of w(1) lt ns
    by (simp add: pacon_write_new_def ext_call_eq dmkv_get_cas_run fresh_block_run data(4) cong: if_cong)
  with w(2,3) show ?thesis by blast
qed

lemma read_new_inline_run:
  assumes free: "perm_info (pf p) = None" and key: "path \<noteq> []" "norm_key path = path"
    and item: "items (env s) (memc (kv_of p)) path = Some (stat_bytes st @ t, c)"
    and data: "NUL \<notin> set t" "ps_size st = of_nat (length t)" "length t < INLINE_MAX" "get_stat_flag st STAT_inline = 1"
    and inside: "off + k \<le> length t" "k < length buf" and f: "hit_remote_cr f \<le> 0" "f_fd f \<le> 0"
  shows "\<exists>e. pacon_read_new (Suc n) E p path f buf (of_nat k) (of_nat off) s =
      Some (int k, f, take k (drop off t) @ NUL # drop (Suc k) buf, s\<lparr>env := e\<rparr>) \<and>
    items e = items (env s) \<and> sent e = sent (env s)"
proof -
  let ?e1 = "snd (memcached_get E (memc (kv_of p)) path (env s))"
  let ?e2 = "snd (c_indet_block E INLINE_MAX ?e1)"
  let ?blk = "fit INLINE_MAX (fst (c_indet_block E INLINE_MAX ?e1))"
  have small: "off < 2 ^ 31" "k < 2 ^ 31" "length t < 2 ^ 31" "off + k < 2 ^ 31"
    using data(3) inside by (simp_all add: INLINE_MAX_def)
  have de: "deseri_inline_data ?blk (stat_bytes st @ t @ [NUL]) = Some (st, t @ NUL # drop (length t + 1) ?blk)"
    using deseri_inline_data_eq [of t ?blk st "[]"] data(1,3) by simp
  have le: "\<not> of_nat off + of_nat k > (ucast (ps_size st) :: u64)"
    unfolding data(2) small_add small_up [OF small(3)] small_less [OF small(3,4)] using inside by simp
  have u: "unat (of_nat k :: u64) = k" "unat (of_nat off :: u64) = off" by (rule unat_small, fact)+
  have mc: "memcpy buf 0 (drop off (t @ NUL # drop (length t + 1) ?blk)) k = Some (take k (drop off t) @ drop k buf)"
    using inside by (simp add: memcpy_def)
  have pk: "poke (take k (drop off t) @ drop k buf) k NUL = Some (take k (drop off t) @ NUL # drop (Suc k) buf)"
    using inside by (intro poke_end) simp_all
  have "as_int (of_nat k) = int k" using unat_small(1) [OF small(2)] small(2) by (simp add: as_int_small)
  then have "pacon_read_new (Suc n) E p path f buf (of_nat k) (of_nat off) s =
      Some (int k, f, take k (drop off t) @ NUL # drop (Suc k) buf, s\<lparr>env := ?e2\<rparr>)"
    using free key item data f de le mc pk
    by (simp add: dmkv_get_cas_run fresh_block_run u)
  then show ?thesis by (intro exI conjI) (assumption, simp_all)
qed

end

subsection \<open>Files with their data, and open files\<close>

text \<open>
  The end of \<open>pacon_create_write\<close>: the entry with its data is stored and the server told.
\<close>

definition create_write_tail ::
  "nat \<Rightarrow> 'e ext \<Rightarrow> pacon \<Rightarrow> string \<Rightarrow> bytes \<Rightarrow> nat \<Rightarrow> u32 \<Rightarrow> pacon_file \<Rightarrow> 'e client \<Rightarrow> (int \<times> pacon_file \<times> 'e client) option" where
  "create_write_tail n E p path val len ct f s = do {
     (ret, s) \<leftarrow> add_evict n E p path val len s;
     (ret, s) \<leftarrow> (if ret \<noteq> 0 then create_write_exists E p path val len s else Some (0, s));
     if ret = -1 then Some (-1, f, s)
     else do {
       (ret, s) \<leftarrow> add_to_mq E p path CREATE ct s;
       Some (ret, f\<lparr>f_fd := -1\<rparr>, s)
     } }"

context client_env
begin

lemma create_write_prefix:
  assumes free: "perm_info (pf p) = None"
    and path: "entry_path path d name" "length path + 3 \<le> PATH_MAX"
    and parent: "parent_known (items (env s) (memc (kv_of p))) d s"
    and data: "NUL \<notin> set b" "length b + 1 < INLINE_MAX"
  shows "\<exists>e tb t st r. items e = items (env s) \<and> sent e = sent (env s) \<and>
    t \<in> range (\<lambda>e. fst (c_time E e)) \<and> ps_mode st = df_f_mode (pf p) \<and> ps_size st = of_nat (length b) \<and>
    get_stat_flag st STAT_type = 1 \<and> get_stat_flag st STAT_inline = 1 \<and> get_stat_flag st STAT_rm = 0 \<and>
    pacon_create_write n E p path mode (b @ NUL # brest) (of_nat (length b)) f s =
      create_write_tail n E p path (stat_bytes st @ b @ NUL # r) (PSTAT_SIZE + length b) t f
      (s\<lparr>dir_check_table := tb, env := e\<rparr>)"
proof -
  have "d \<noteq> []" using path by (simp add: entry_path_def)
  with parent obtain e1 tb where cd: "check_dir n E p d s = Some (0, s\<lparr>dir_check_table := tb, env := e1\<rparr>)"
    and e1: "items e1 = items (env s)" "sent e1 = sent (env s)"
    using check_dir_known [of s p d n] by auto
  have lt: "length path < PATH_MAX" using path(2) by simp
  have small: "length b < 2 ^ 31" "(INLINE_MAX - 1) < 2 ^ 31" using data(2) by (simp_all add: INLINE_MAX_def)
  have sz: "(of_nat (length b) :: u64) < of_nat (INLINE_MAX - 1)" "unat (of_nat (length b) :: u64) = length b"
    unfolding small_less [OF small] unat_small(1) [OF small(1)] using data(2) by simp_all
  define e2 e3 e4 e5 e6 where "e2 = snd (c_time E e1)" and "e3 = snd (c_time E e2)" and "e4 = snd (c_time E e3)"
    and "e5 = snd (c_getuid E e4)" and "e6 = snd (c_getgid E e5)"
  note es = e2_def e3_def e4_def e5_def e6_def
  define e7 where "e7 = snd (c_indet_block E (PSTAT_SIZE + INLINE_MAX) (snd (c_indet E e6)))"
  have e7: "items e7 = items (env s)" "sent e7 = sent (env s)" using e1 by (simp_all add: e7_def es)
  define st where "st = set_stat_flag (set_stat_flag (new_stat (df_f_mode (pf p)) (fst (c_time E e1)) (fst (c_time E e2))
    (fst (c_time E e3)) (of_nat (length b)) (fst (c_getuid E e4)) (fst (c_getgid E e5)) (fst (c_indet E e6))) STAT_type 1) STAT_inline 1"
  have st: "ps_mode st = df_f_mode (pf p)" "ps_size st = of_nat (length b)"
    "get_stat_flag st STAT_type = 1" "get_stat_flag st STAT_inline = 1" by (simp_all add: st_def new_stat_def)
  have rm: "get_stat_flag st STAT_rm = 0"
    by (simp add: st_def) (simp add: new_stat_def get_stat_flag_def get_flag_word_def)
  let ?blk = "fit (PSTAT_SIZE + INLINE_MAX) (fst (c_indet_block E (PSTAT_SIZE + INLINE_MAX) (snd (c_indet E e6))))"
  have se: "seri_inline_data (Some st) (b @ NUL # brest) ?blk =
      Some (stat_bytes st @ b @ NUL # drop (PSTAT_SIZE + length b + 1) ?blk)"
    using data by (subst seri_inline_data_eq) simp_all
  have "pacon_create_write n E p path mode (b @ NUL # brest) (of_nat (length b)) f s =
      create_write_tail n E p path (stat_bytes st @ b @ NUL # drop (PSTAT_SIZE + length b + 1) ?blk) (PSTAT_SIZE + length b)
        (fst (c_time E e1)) f (s\<lparr>dir_check_table := tb, env := e7\<rparr>)"
    using free path cd sz se small_down [of "length b"]
    by (simp add: pacon_create_write_def check_parent_dir_entry [OF path(1) lt] ext_call_eq fresh_block_run es e7_def
        create_write_tail_def st_def cong: if_cong)
  with e7 st rm show ?thesis by blast
qed

lemma create_write_new_run:
  assumes free: "perm_info (pf p) = None" and clock: "sane_clock E"
    and path: "entry_path path d name" "length path + 3 \<le> PATH_MAX"
    and parent: "parent_known (items (env s) (memc (kv_of p))) d s"
    and data: "NUL \<notin> set b" "length b + 1 < INLINE_MAX"
    and new: "items (env s) (memc (kv_of p)) path = None"
  shows "\<exists>s' (t :: u32) st c. pacon_create_write (Suc n) E p path mode (b @ NUL # brest) (of_nat (length b)) f s =
      Some (0, f\<lparr>f_fd := -1\<rparr>, s') \<and> ps_mode st = df_f_mode (pf p) \<and> ps_size st = of_nat (length b) \<and>
    get_stat_flag st STAT_type = 1 \<and> get_stat_flag st STAT_inline = 1 \<and> get_stat_flag st STAT_rm = 0 \<and>
    items (env s') = put_item (memc (kv_of p)) path (stat_bytes st @ b, c) (items (env s)) \<and>
    sent (env s') = sent (env s) @ [(publisher (pf p), path @ opt_str CREATE @ show_int (sint t))]"
proof -
  note key = entry_path_key [OF path(1)]
  from create_write_prefix [OF free path parent data, of "Suc n" mode brest f] obtain e tb t st r where
    e: "items e = items (env s)" "sent e = sent (env s)" and t: "t \<in> range (\<lambda>e. fst (c_time E e))"
    and st: "ps_mode st = df_f_mode (pf p)" "ps_size st = of_nat (length b)"
      "get_stat_flag st STAT_type = 1" "get_stat_flag st STAT_inline = 1" "get_stat_flag st STAT_rm = 0"
    and pc: "pacon_create_write (Suc n) E p path mode (b @ NUL # brest) (of_nat (length b)) f s =
      create_write_tail (Suc n) E p path (stat_bytes st @ b @ NUL # r) (PSTAT_SIZE + length b) t f (s\<lparr>dir_check_table := tb, env := e\<rparr>)"
    by blast
  let ?s1 = "s\<lparr>dir_check_table := tb, env := e\<rparr>"
  have "items (env ?s1) (memc (kv_of p)) path = None" using new e by simp
  from add_new [OF key(3) key(2) this, of "PSTAT_SIZE + length b" "stat_bytes st @ b @ NUL # r" n] e obtain e1 c where
    a: "add_evict (Suc n) E p path (stat_bytes st @ b @ NUL # r) (PSTAT_SIZE + length b) ?s1 = Some (0, ?s1\<lparr>env := e1\<rparr>)"
      "items e1 = put_item (memc (kv_of p)) path (stat_bytes st @ b, c) (items (env s))" "sent e1 = sent (env s)" by auto
  from mq_run [OF clock t path(2), of p CREATE "?s1\<lparr>env := e1\<rparr>"] a obtain e2 where
    m: "add_to_mq E p path CREATE t (?s1\<lparr>env := e1\<rparr>) = Some (0, ?s1\<lparr>env := e2\<rparr>)"
      "items (env (?s1\<lparr>env := e2\<rparr>)) = put_item (memc (kv_of p)) path (stat_bytes st @ b, c) (items (env s))"
      "sent (env (?s1\<lparr>env := e2\<rparr>)) = sent (env s) @ [(publisher (pf p), path @ opt_str CREATE @ show_int (sint t))]" by auto
  have "pacon_create_write (Suc n) E p path mode (b @ NUL # brest) (of_nat (length b)) f s =
      Some (0, f\<lparr>f_fd := -1\<rparr>, ?s1\<lparr>env := e2\<rparr>)"
    using a m pc by (simp add: create_write_tail_def del: add_evict.simps)
  with m st show ?thesis by blast
qed

text \<open>Over a live entry nothing is stored, a message is sent, and the result is 0.\<close>

lemma create_write_live_run:
  assumes free: "perm_info (pf p) = None" and clock: "sane_clock E"
    and path: "entry_path path d name" "length path + 3 \<le> PATH_MAX"
    and parent: "parent_known (items (env s) (memc (kv_of p))) d s"
    and data: "NUL \<notin> set b" "length b + 1 < INLINE_MAX"
    and live: "entry_stat (items (env s) (memc (kv_of p)) path) = Some old" "get_stat_flag old STAT_rm = 0"
  shows "\<exists>s' (t :: u32). pacon_create_write (Suc n) E p path mode (b @ NUL # brest) (of_nat (length b)) f s =
      Some (0, f\<lparr>f_fd := -1\<rparr>, s') \<and> items (env s') = items (env s) \<and>
    sent (env s') = sent (env s) @ [(publisher (pf p), path @ opt_str CREATE @ show_int (sint t))]"
proof -
  note key = entry_path_key [OF path(1)]
  from create_write_prefix [OF free path parent data, of "Suc n" mode brest f] obtain e tb t st r where
    e: "items e = items (env s)" "sent e = sent (env s)" and t: "t \<in> range (\<lambda>e. fst (c_time E e))"
    and pc: "pacon_create_write (Suc n) E p path mode (b @ NUL # brest) (of_nat (length b)) f s =
      create_write_tail (Suc n) E p path (stat_bytes st @ b @ NUL # r) (PSTAT_SIZE + length b) t f (s\<lparr>dir_check_table := tb, env := e\<rparr>)"
    by blast
  let ?s1 = "s\<lparr>dir_check_table := tb, env := e\<rparr>" and ?val = "stat_bytes st @ b @ NUL # r"
  from live(1) obtain v c where i: "items (env ?s1) (memc (kv_of p)) path = Some (v, c)" "PSTAT_SIZE \<le> length v" "old = bytes_stat v"
    using e by (auto elim: entry_stat_SomeE)
  from add_present [OF key(3) key(2) i(1), of "PSTAT_SIZE + length b" ?val n] obtain e1 where
    a: "add_evict (Suc n) E p path ?val (PSTAT_SIZE + length b) ?s1 = Some (-1, ?s1\<lparr>env := e1\<rparr>)"
      "items e1 = items (env s)" "sent e1 = sent (env s)" using e by auto
  let ?e2 = "snd (memcached_get E (memc (kv_of p)) path e1)"
  have x: "create_write_exists E p path ?val (PSTAT_SIZE + length b) (?s1\<lparr>env := e1\<rparr>) = Some (0, ?s1\<lparr>env := ?e2\<rparr>)"
    using key i a e live(2) by (simp add: create_write_exists_def dmkv_get_run deseri_val_append)
  from mq_run [OF clock t path(2), of p CREATE "?s1\<lparr>env := ?e2\<rparr>"] a obtain e3 where
    m: "add_to_mq E p path CREATE t (?s1\<lparr>env := ?e2\<rparr>) = Some (0, ?s1\<lparr>env := e3\<rparr>)"
      "items (env (?s1\<lparr>env := e3\<rparr>)) = items (env s)"
      "sent (env (?s1\<lparr>env := e3\<rparr>)) = sent (env s) @ [(publisher (pf p), path @ opt_str CREATE @ show_int (sint t))]" by auto
  have "pacon_create_write (Suc n) E p path mode (b @ NUL # brest) (of_nat (length b)) f s = Some (0, f\<lparr>f_fd := -1\<rparr>, ?s1\<lparr>env := e3\<rparr>)"
    using a x m pc by (simp add: create_write_tail_def del: add_evict.simps)
  with m show ?thesis by blast
qed

text \<open>A write to a file that is open on the file system stores the metadata it had read.\<close>

lemma write_new_fd_run:
  assumes free: "perm_info (pf p) = None" and key: "path \<noteq> []" "norm_key path = path"
    and item: "items (env s) (memc (kv_of p)) path = Some (stat_bytes st @ t, c)"
    and data: "NUL \<notin> set t" "NUL \<notin> set b" "length t < INLINE_MAX" "length b < 2 ^ 31"
    and fd: "f_fd f > 0"
  shows "\<exists>f' e c'. pacon_write_new (Suc n) E p path f (b @ NUL # brest) (of_nat (length b)) off s = Some (int (length b), f', s\<lparr>env := e\<rparr>) \<and>
    items e = put_item (memc (kv_of p)) path (stat_bytes st, c') (items (env s))"
proof -
  let ?e1 = "snd (c_indet E (env s))" and ?m = "memc (kv_of p)"
  let ?e2 = "snd (memcached_get E ?m path ?e1)"
  let ?e3 = "snd (c_indet_block E INLINE_MAX ?e2)"
  let ?blk = "fit INLINE_MAX (fst (c_indet_block E INLINE_MAX ?e2))"
  let ?e4 = "snd (c_pwrite E (f_fd f) b off ?e3)"
  let ?e5 = "snd (c_time E ?e4)"
  let ?e6 = "snd (memcached_cas E ?m path (stat_bytes st) c ?e5)"
  have de: "deseri_inline_data ?blk (stat_bytes st @ t @ [NUL]) = Some (st, t @ NUL # drop (length t + 1) ?blk)"
    using deseri_inline_data_eq [of t ?blk st "[]"] data(1,3) by simp
  have u: "unat (of_nat (length b) :: u64) = length b" "as_int (of_nat (length b)) = int (length b)"
    using data(4) unat_small(1) [OF data(4)] by (simp_all add: as_int_small)
  obtain c' where c': "items ?e6 = put_item ?m path (stat_bytes st, c') (items (env s))"
    using cas_items [of ?e5 ?m path "stat_bytes st @ t" c "stat_bytes st"] item by auto
  have "\<exists>f'. pacon_write_new (Suc n) E p path f (b @ NUL # brest) (of_nat (length b)) off s = Some (int (length b), f', s\<lparr>env := ?e6\<rparr>)"
    using free key item data(2) fd strlen_fits [OF data(4)] de u
    by (simp add: pacon_write_new_def ext_call_eq dmkv_get_cas_run fresh_block_run pwrite_buf_def write_update_def
        dmkv_cas_match)
  with c' show ?thesis by blast
qed

end

context client_env
begin

lemma write_read_run:
  assumes "perm_info (pf p) = None" "sane_clock E"
    "path \<noteq> []" "norm_key path = path" "length path + 3 \<le> PATH_MAX"
    "items (env s) (memc (kv_of p)) path = Some (stat_bytes st @ t, c)"
    "NUL \<notin> set t" "NUL \<notin> set b" "off \<le> length t" "ps_size st = of_nat (length t)"
    "max (off + length b) (length t) + 1 < INLINE_MAX" "f_fd f \<le> 0"
    "pacon_write_new (Suc n) E p path f (b @ NUL # brest) (of_nat (length b)) (of_nat off) s = Some (r, f', s')"
    "perm_info (pf p2) = None" "memc (kv_of p2) = memc (kv_of p)" "env s2 = env s'"
    "length b < length buf" "hit_remote_cr g \<le> 0" "f_fd g \<le> 0"
  shows "\<exists>s3. r = int (length b) \<and> pacon_read_new (Suc m) E p2 path g buf (of_nat (length b)) (of_nat off) s2 =
    Some (int (length b), g, b @ NUL # drop (Suc (length b)) buf, s3)"
proof -
  let ?d = "overwrite t off b"
  from write_new_inline_run [OF assms(1-12), of n brest] assms(13) obtain e et c' where
    w: "r = int (length b)" "s' = s\<lparr>env := e\<rparr>"
    "items e = put_item (memc (kv_of p)) path (stat_bytes (written_stat st et (length ?d)) @ ?d, c') (items (env s))" by auto
  have i: "items (env s2) (memc (kv_of p2)) path = Some (stat_bytes (written_stat st et (length ?d)) @ ?d, c')"
    using w assms(15,16) by simp
  have le: "off + length b < INLINE_MAX" "length t < INLINE_MAX"
    using assms(11) max.cobounded1 [of "off + length b" "length t"] max.cobounded2 [of "length t" "off + length b"] by linarith+
  have d: "NUL \<notin> set ?d" "ps_size (written_stat st et (length ?d)) = of_nat (length ?d)" "length ?d < INLINE_MAX"
    "get_stat_flag (written_stat st et (length ?d)) STAT_inline = 1" "off + length b \<le> length ?d"
    using assms(7-9) le by (simp_all add: set_overwrite written_stat_def length_overwrite)
  from read_new_inline_run [OF assms(14,3,4) i d assms(17-19), of m] overwrite_read [OF assms(9), of b] w(1)
  show ?thesis by auto
qed

lemma create_write_read_run:
  assumes "perm_info (pf p) = None" "sane_clock E"
    "entry_path path d name" "length path + 3 \<le> PATH_MAX"
    "parent_known (items (env s) (memc (kv_of p))) d s" "NUL \<notin> set b" "length b + 1 < INLINE_MAX"
    "items (env s) (memc (kv_of p)) path = None"
  shows "\<exists>f' s'. pacon_create_write (Suc n) E p path mode (b @ NUL # brest) (of_nat (length b)) f s = Some (0, f', s') \<and>
    (\<forall>m p2 g buf s2. perm_info (pf p2) = None \<and> memc (kv_of p2) = memc (kv_of p) \<and>
        items (env s2) (memc (kv_of p)) path = items (env s') (memc (kv_of p)) path \<and>
        length b < length buf \<and> hit_remote_cr g \<le> 0 \<and> f_fd g \<le> 0 \<longrightarrow>
      (\<exists>s3. pacon_read_new (Suc m) E p2 path g buf (of_nat (length b)) 0 s2 =
        Some (int (length b), g, b @ NUL # drop (Suc (length b)) buf, s3)))"
proof -
  note key = entry_path_key [OF assms(3)]
  from create_write_new_run [OF assms(1-8), of n mode brest f] obtain s' st c where
    w: "pacon_create_write (Suc n) E p path mode (b @ NUL # brest) (of_nat (length b)) f s = Some (0, f\<lparr>f_fd := -1\<rparr>, s')"
      "ps_size st = of_nat (length b)" "get_stat_flag st STAT_inline = 1"
      "items (env s') = put_item (memc (kv_of p)) path (stat_bytes st @ b, c) (items (env s))" by blast
  have l: "length b < INLINE_MAX" "0 + length b \<le> length b" using assms(7) by simp_all
  have "\<exists>s3. pacon_read_new (Suc m) E p2 path g buf (of_nat (length b)) 0 s2 =
      Some (int (length b), g, b @ NUL # drop (Suc (length b)) buf, s3)"
    if r: "perm_info (pf p2) = None" "memc (kv_of p2) = memc (kv_of p)"
      "items (env s2) (memc (kv_of p)) path = items (env s') (memc (kv_of p)) path"
      "length b < length buf" "hit_remote_cr g \<le> 0" "f_fd g \<le> 0" for m p2 g buf s2
  proof -
    have i: "items (env s2) (memc (kv_of p2)) path = Some (stat_bytes st @ b, c)" using w(4) r(2,3) by simp
    from read_new_inline_run [OF r(1) key(3) key(2) i assms(6) w(2) l(1) w(3) l(2) r(4-6), of m] show ?thesis by auto
  qed
  with w(1) show ?thesis by blast
qed

end

lemma remote_read:
  assumes "hit_remote_cr f > 0" "pacon_read n E p path f buf sz off s = Some (r, f', buf', s')"
  shows "r = -1 \<and> f' = f \<and> buf' = buf"
  using assms
proof (induction n arbitrary: p s)
  case 0
  then show ?case by simp
next
  case (Suc n)
  then show ?case by (auto simp: bind_eq_Some_conv split: if_splits)
qed

subsection \<open>A small file on the reference environment\<close>

definition ref_small :: pacon_stat where
  "ref_small = set_stat_flag (ref_stat\<lparr>ps_size := 2\<rparr>) STAT_inline 1"

definition ref_client_data :: "ref_env client" where
  "ref_client_data = ref_client\<lparr>env := ref_env0\<lparr>r_items := put_item [''10.0.0.1''] ''/w/a'' (stat_bytes ref_small @ ''ab'', 1) (\<lambda>_. Map.empty)\<rparr>\<rparr>"

definition ref_file :: "int \<Rightarrow> int \<Rightarrow> pacon_file" where
  "ref_file fd hit = \<lparr>f_flags = 0, f_mode = 0, f_size = 0, open_flags = 2, open_mode = 0, f_fd = fd, hit_remote_cr = hit\<rparr>"

lemma ref_data_facts:
  "r_items (env ref_client_data) (memc (kv_of ref_pacon)) ''/w/a'' = Some (stat_bytes ref_small @ ''ab'', 1)"
  "ps_size ref_small = of_nat (length ''ab'')" "f_fd (ref_file fd hit) = fd" "hit_remote_cr (ref_file fd hit) = hit"
  "norm_key ''/w/a'' = ''/w/a''" "memc (kv_of ref_pacon) = [''10.0.0.1'']"
  by (simp_all add: ref_client_data_def ref_client_defs ref_small_def ref_file_def norm_key_def)

text \<open>A region in which every operation on files is denied.\<close>

definition ref_denied :: pacon where
  "ref_denied = PACON (ref_fields\<lparr>perm_info := Some \<lparr>nom_dir_mode = 700, nom_f_mode = 100, sp_num = 0,
     sp_path = [], sp_dir_modes = [], sp_f_modes = []\<rparr>\<rparr>) []"

lemma mask_100: "mask_compare 100 1 READ_PC = Some (-1)"
  by code_simp

lemma ref_denied_run: "\<exists>s'. pacon_read 1 ref_ext ref_denied ''/w/a'' f buf sz off ref_client = Some (-1, f, buf, s')"
proof -
  have "fst (c_indet ref_ext e) \<noteq> 0" for e by (simp add: ref_ext_def)
  then show ?thesis
    by (simp add: ref_denied_def permitted_def check_permission_def ext_call_eq mask_100 PATH_MAX_def)
qed

subsection \<open>Properties\<close>

text \<open>
  C8: An inline write. \<open>pacon_write_new\<close> of the string \<open>b\<close> at an offset inside a small cached file, with
  a result below the limit, returns the number of bytes written; the cache then holds the old data
  with \<open>b\<close> laid over it, its length as the size, the time of the write, and the inline flag; the
  other items are as before, and the server gets exactly one WRITE message for the path.
\<close>

theorem write_stores_overwrite:
  assumes "client_env E items sent" "perm_info (pf p) = None" "sane_clock E"
    "path \<noteq> []" "norm_key path = path" "length path + 3 \<le> PATH_MAX"
    "items (env s) (memc (kv_of p)) path = Some (stat_bytes st @ t, c)"
    "NUL \<notin> set t" "NUL \<notin> set b" "off \<le> length t" "ps_size st = of_nat (length t)"
    "max (off + length b) (length t) + 1 < INLINE_MAX" "f_fd f \<le> 0"
  shows "\<exists>e et t2 c'. pacon_write_new (Suc n) E p path f (b @ NUL # brest) (of_nat (length b)) (of_nat off) s =
        Some (int (length b), f\<lparr>f_size := of_nat (length (overwrite t off b))\<rparr>, s\<lparr>env := e\<rparr>) \<and>
    items e = put_item (memc (kv_of p)) path (stat_bytes (written_stat st et (length (overwrite t off b))) @ overwrite t off b, c') (items (env s)) \<and>
    sent e = sent (env s) @ [(publisher (pf p), path @ opt_str WRITE @ show_int (sint (t2 :: u32)))]"
  using assms by (rule client_env.write_new_inline_run)

theorem write_stores_overwrite_witness:
  "\<exists>e et t2 c'. pacon_write_new 1 ref_ext ref_pacon ''/w/a'' (ref_file (-1) 0) (''xyz'' @ [NUL]) 3 1 ref_client_data =
        Some (3, (ref_file (-1) 0)\<lparr>f_size := 4\<rparr>, ref_client_data\<lparr>env := e\<rparr>) \<and>
    r_items e = put_item (memc (kv_of ref_pacon)) ''/w/a'' (stat_bytes (written_stat ref_small et 4) @ ''axyz'', c') (r_items (env ref_client_data)) \<and>
    r_sent e = r_sent (env ref_client_data) @ [(publisher (pf ref_pacon), ''/w/a'' @ opt_str WRITE @ show_int (sint (t2 :: u32)))]"
  using write_stores_overwrite [OF ref.client_env_axioms ref_free ref_clock _ ref_data_facts(5) _ ref_data_facts(1) _ _ _ ref_data_facts(2),
      of "''xyz''" 1 "ref_file (-1) 0" 0 "[]"]
  by (simp add: ref_data_facts PATH_MAX_def INLINE_MAX_def overwrite_def eval_nat_numeral)



text \<open>
  C37: In a region without batch permissions, \<open>pacon_create_write\<close> of a path that is not cached, with
  a known parent and data without a NUL byte that is shorter than \<open>INLINE_MAX\<close> less one, returns 0 and
  stores the file together with its data: in every later state of the outside world in which the
  entry is still the stored one, a client of the region, on whatever node, that reads that many bytes
  from the start of the file with \<open>pacon_read_new\<close> gets the data, ended by a NUL byte; the rest of its
  buffer is not touched.
\<close>

theorem create_write_then_read:
  assumes "client_env E items sent" "perm_info (pf p) = None" "sane_clock E"
    "entry_path path d name" "length path + 3 \<le> PATH_MAX"
    "parent_known (items (env s) (memc (kv_of p))) d s" "NUL \<notin> set b" "length b + 1 < INLINE_MAX"
    "items (env s) (memc (kv_of p)) path = None"
  shows "\<exists>f' s'. pacon_create_write (Suc n) E p path mode (b @ NUL # brest) (of_nat (length b)) f s = Some (0, f', s') \<and>
    (\<forall>m p2 g buf s2. perm_info (pf p2) = None \<and> memc (kv_of p2) = memc (kv_of p) \<and>
        items (env s2) (memc (kv_of p)) path = items (env s') (memc (kv_of p)) path \<and>
        length b < length buf \<and> hit_remote_cr g \<le> 0 \<and> f_fd g \<le> 0 \<longrightarrow>
      (\<exists>s3. pacon_read_new (Suc m) E p2 path g buf (of_nat (length b)) 0 s2 =
        Some (int (length b), g, b @ NUL # drop (Suc (length b)) buf, s3)))"
  using assms by (rule client_env.create_write_read_run)

theorem create_write_then_read_witness:
  "\<exists>s' f' s3. pacon_create_write 1 ref_ext ref_pacon ''/w/a'' 0 (''xyz'' @ [NUL]) 3 (ref_file 5 0) ref_client = Some (0, f', s') \<and>
    pacon_read_new 1 ref_ext ref_pacon ''/w/a'' (ref_file (-1) 0) (replicate 8 (CHR ''?'')) 3 0 s' =
      Some (3, ref_file (-1) 0, ''xyz'' @ [NUL] @ ''????'', s3)"
proof -
  obtain f' s' where w: "pacon_create_write 1 ref_ext ref_pacon ''/w/a'' 0 (''xyz'' @ [NUL]) 3 (ref_file 5 0) ref_client = Some (0, f', s')"
    and r: "\<forall>m p2 g buf s2. perm_info (pf p2) = None \<and> memc (kv_of p2) = memc (kv_of ref_pacon) \<and>
        r_items (env s2) (memc (kv_of ref_pacon)) ''/w/a'' = r_items (env s') (memc (kv_of ref_pacon)) ''/w/a'' \<and>
        length ''xyz'' < length buf \<and> hit_remote_cr g \<le> 0 \<and> f_fd g \<le> 0 \<longrightarrow>
      (\<exists>s3. pacon_read_new (Suc m) ref_ext p2 ''/w/a'' g buf (of_nat (length ''xyz'')) 0 s2 =
        Some (int (length ''xyz''), g, ''xyz'' @ NUL # drop (Suc (length ''xyz'')) buf, s3))"
    using create_write_then_read [OF ref.client_env_axioms ref_free ref_clock ref_path _ ref_parent(1) _ _ ref_items(1),
      of "''xyz''" 0 0 "[]" "ref_file 5 0"]
    by (auto simp: PATH_MAX_def INLINE_MAX_def)
  from r [rule_format, of ref_pacon s' "replicate 8 (CHR ''?'')" "ref_file (-1) 0" 0] w show ?thesis
    by (auto simp: ref_free ref_data_facts numeral_eq_Suc)
qed

text \<open>
  \<open>pacon_create_write\<close> of a path that is cached and live reports success although it stores
  nothing: it returns 0 and leaves the cache, with the old metadata and data, as it was; a CREATE
  message goes out all the same.
\<close>

theorem create_write_existing_ignored:
  assumes "client_env E items sent" "perm_info (pf p) = None" "sane_clock E"
    "entry_path path d name" "length path + 3 \<le> PATH_MAX"
    "parent_known (items (env s) (memc (kv_of p))) d s" "NUL \<notin> set b" "length b + 1 < INLINE_MAX"
    "entry_stat (items (env s) (memc (kv_of p)) path) = Some old" "get_stat_flag old STAT_rm = 0"
  shows "\<exists>s' (t :: u32). pacon_create_write (Suc n) E p path mode (b @ NUL # brest) (of_nat (length b)) f s =
      Some (0, f\<lparr>f_fd := -1\<rparr>, s') \<and> items (env s') = items (env s) \<and>
    sent (env s') = sent (env s) @ [(publisher (pf p), path @ opt_str CREATE @ show_int (sint t))]"
  using assms by (rule client_env.create_write_live_run)

theorem create_write_existing_ignored_witness:
  "\<exists>s' (t :: u32). pacon_create_write 1 ref_ext ref_pacon ''/w/a'' 0 (''xyz'' @ [NUL]) 3 (ref_file 5 0) (ref_client_with ref_stat) =
      Some (0, (ref_file 5 0)\<lparr>f_fd := -1\<rparr>, s') \<and> r_items (env s') = r_items (env (ref_client_with ref_stat)) \<and>
    r_sent (env s') = r_sent (env (ref_client_with ref_stat)) @ [(publisher (pf ref_pacon), ''/w/a'' @ opt_str CREATE @ show_int (sint t))]"
  using create_write_existing_ignored [OF ref.client_env_axioms ref_free ref_clock ref_path _ ref_parent(2), of "''xyz''" ref_stat ref_stat 0 0 "[]" "ref_file 5 0"]
  by (simp add: ref_items ref_memc PATH_MAX_def INLINE_MAX_def)

text \<open>
  A write to a file that is open on the file system (\<open>fd\<close> is positive) puts back the metadata
  that it had read: the cached entry has the size, the times and the flags from before the write,
  also the inline flag, while the inline data behind it is gone.
\<close>

theorem write_to_open_file_keeps_metadata:
  assumes "client_env E items sent" "perm_info (pf p) = None" "path \<noteq> []" "norm_key path = path"
    "items (env s) (memc (kv_of p)) path = Some (stat_bytes st @ t, c)"
    "NUL \<notin> set t" "NUL \<notin> set b" "length t < INLINE_MAX" "length b < 2 ^ 31" "f_fd f > 0"
  shows "\<exists>f' e c'. pacon_write_new (Suc n) E p path f (b @ NUL # brest) (of_nat (length b)) off s = Some (int (length b), f', s\<lparr>env := e\<rparr>) \<and>
    items e = put_item (memc (kv_of p)) path (stat_bytes st, c') (items (env s))"
  using assms by (rule client_env.write_new_fd_run)

theorem write_to_open_file_keeps_metadata_witness:
  "\<exists>f' e c'. pacon_write_new 1 ref_ext ref_pacon ''/w/a'' (ref_file 3 0) (''xyz'' @ [NUL]) 3 9 ref_client_data = Some (3, f', ref_client_data\<lparr>env := e\<rparr>) \<and>
    r_items e = put_item (memc (kv_of ref_pacon)) ''/w/a'' (stat_bytes ref_small, c') (r_items (env ref_client_data))"
  using write_to_open_file_keeps_metadata [OF ref.client_env_axioms ref_free _ ref_data_facts(5) ref_data_facts(1),
      of "''xyz''" "ref_file 3 0" 0 "[]" 9]
  by (simp add: ref_data_facts INLINE_MAX_def)

text \<open>
  A file of a joined region (\<open>pacon_open\<close> sets \<open>hit_remote_cr\<close>) is never read with \<open>pacon_read\<close>:
  the call uses the flag as the index of the region and hands the same open file down, so if it
  returns at all it returns -1 and the buffer is as it was.
\<close>

theorem remote_read_fails:
  assumes "hit_remote_cr f > 0" "pacon_read n E p path f buf sz off s = Some (r, f', buf', s')"
  shows "r = -1 \<and> f' = f \<and> buf' = buf"
  using assms by (rule remote_read)

theorem remote_read_fails_witness:
  "\<exists>s'. pacon_read 1 ref_ext ref_denied ''/w/a'' (ref_file (-1) 1) ''??'' 1 0 ref_client = Some (-1, ref_file (-1) 1, ''??'', s')"
proof -
  obtain r f' b s' where "pacon_read 1 ref_ext ref_denied ''/w/a'' (ref_file (-1) 1) ''??'' 1 0 ref_client = Some (r, f', b, s')"
    using ref_denied_run [of "ref_file (-1) 1" "''??''" 1 0] by blast
  with remote_read_fails [OF _ this] show ?thesis by (simp add: ref_data_facts)
qed

end
