(* ===== verification/Eviction.thy ===== *)
theory Eviction
  imports Cache
begin

text \<open>
  The newer forms of eviction of \<open>pacon.c\<close>: \<open>test_entry_exist\<close>, \<open>flush_dir_new\<close>, \<open>flush_file_new\<close>,
  \<open>evict_metadata_new\<close> and \<open>evict_metadata_explicit\<close>. The lock, the cursor and the end of the
  functions are the ones of \<open>evict_metadata\<close> in the theory \<open>Cache\<close>.
\<close>

subsection \<open>Dropping entries from the cache\<close>

text \<open>-1 when the entry is not cached, 0 when it is marked as removed, 1 otherwise.\<close>

definition test_entry_exist ::
  "'e ext \<Rightarrow> pacon \<Rightarrow> string \<Rightarrow> 'e client \<Rightarrow> (int \<times> 'e client) option" where
  "test_entry_exist E p path s = do {
     (val, s) \<leftarrow> dmkv_get E (kv_of p) path s;
     (case val of
        None \<Rightarrow> Some (-1, s)
      | Some v \<Rightarrow> do {
          st_tmp \<leftarrow> deseri_val v;
          Some (if get_stat_flag st_tmp STAT_rm = 1 then 0 else 1, s)
        })
   }"

text \<open>The loop over one directory, with the call for a subdirectory as an argument.\<close>

fun flush_entries ::
  "(string \<Rightarrow> 'e client \<Rightarrow> (unit \<times> 'e client) option) \<Rightarrow> 'e ext \<Rightarrow> pacon \<Rightarrow> string \<Rightarrow> dirent list \<Rightarrow> 'e client \<Rightarrow> (unit \<times> 'e client) option" where
  "flush_entries sub E p path [] s = Some ((), s)"
| "flush_entries sub E p path (entry # rest) s =
     (if d_name entry = ''.'' \<or> d_name entry = ''..'' then flush_entries sub E p path rest s
      else do {
        dir_new \<leftarrow> entry_name path entry;
        (r, s) \<leftarrow> test_entry_exist E p dir_new s;
        (_, s) \<leftarrow> (if r = 1 then dmkv_del E (kv_of p) dir_new s else Some (0, s));
        (_, s) \<leftarrow> (if d_isdir entry then sub dir_new s else Some ((), s));
        flush_entries sub E p path rest s
      })"

text \<open>The fuel bounds the depth of the directory tree.\<close>

fun flush_dir_new :: "nat \<Rightarrow> 'e ext \<Rightarrow> pacon \<Rightarrow> string \<Rightarrow> 'e client \<Rightarrow> (unit \<times> 'e client) option" where
  "flush_dir_new 0 E p path s = None"
| "flush_dir_new (Suc n) E p path s = do {
     (pd, s) \<leftarrow> ext_call (c_opendir E path) s;
     entries \<leftarrow> pd;
     flush_entries (flush_dir_new n E p) E p path entries s
   }"

definition flush_file_new ::
  "'e ext \<Rightarrow> pacon \<Rightarrow> string \<Rightarrow> 'e client \<Rightarrow> (int \<times> 'e client) option" where
  "flush_file_new E p path s = do {
     (buf, s) \<leftarrow> ext_call (c_stat E path) s;
     if buf = None then Some (0, s)
     else do {
       (r, s) \<leftarrow> test_entry_exist E p path s;
       if r = 1 then do {
         (ret, s) \<leftarrow> dmkv_del E (kv_of p) path s;
         Some (if ret \<noteq> 0 then -1 else 0, s)
       }
       else Some (0, s)
     }
   }"

text \<open>What is done with the entry under the cursor, and what follows.\<close>

definition evict_entry ::
  "nat \<Rightarrow> 'e ext \<Rightarrow> pacon \<Rightarrow> dirent \<Rightarrow> 'e client \<Rightarrow> (int \<times> 'e client) option" where
  "evict_entry n E p entry s = do {
     evict_path \<leftarrow> entry_name (root_of p) entry;
     if d_isdir entry then do { (_, s) \<leftarrow> flush_dir_new n E p evict_path s; Some (0, s) }
     else flush_file_new E p evict_path s
   }"

subsection \<open>Evicting\<close>

text \<open>
  The search in \<open>evict_metadata_new\<close>: three entries that are dot or dot-dot start it again.
\<close>

datatype pick = PickAgain | PickNone | PickFound dirent

fun evict_pick_new :: "dirent list \<Rightarrow> int \<Rightarrow> nat \<Rightarrow> int \<Rightarrow> pick" where
  "evict_pick_new [] c r1 rr = PickNone"
| "evict_pick_new (e # es) c r1 rr =
     (if d_name e = ''.'' \<or> d_name e = ''..'' then
        (if Suc r1 \<ge> 3 then PickAgain else evict_pick_new es c (Suc r1) rr)
      else if c = rr then PickFound e
      else evict_pick_new es (c + 1) r1 rr)"

fun evict_find_new ::
  "nat \<Rightarrow> 'e ext \<Rightarrow> pacon \<Rightarrow> int \<Rightarrow> 'e client \<Rightarrow> (int \<times> 'e client) option" where
  "evict_find_new 0 E p rr s = None"
| "evict_find_new (Suc n) E p rr s = do {
     (dir, s) \<leftarrow> ext_call (c_opendir E (root_of p)) s;
     entries \<leftarrow> dir;
     (case evict_pick_new entries 0 0 rr of
        PickAgain \<Rightarrow> evict_find_new n E p rr s
      | PickNone \<Rightarrow> evict_find_new n E p 0 s
      | PickFound e \<Rightarrow> do {
          (ret, s) \<leftarrow> evict_entry n E p e s;
          if ret \<noteq> 0 then Some (-1, s) else evict_finish E p (rr + 1) s
        })
   }"

definition evict_metadata_new ::
  "nat \<Rightarrow> 'e ext \<Rightarrow> pacon \<Rightarrow> 'e client \<Rightarrow> (int \<times> 'e client) option" where
  "evict_metadata_new n E p s = do {
     (rr, s) \<leftarrow> evict_begin n E p s;
     (case rr of None \<Rightarrow> Some (-1, s) | Some rr \<Rightarrow> evict_find_new n E p rr s)
   }"

text \<open>
  \<open>evict_metadata_explicit\<close> looks through the directory once; with no entry under the cursor the
  cursor stays as it is.
\<close>

definition evict_metadata_explicit ::
  "nat \<Rightarrow> 'e ext \<Rightarrow> pacon \<Rightarrow> 'e client \<Rightarrow> (int \<times> 'e client) option" where
  "evict_metadata_explicit n E p s = do {
     (rr, s) \<leftarrow> evict_begin n E p s;
     (case rr of
        None \<Rightarrow> Some (-1, s)
      | Some rr \<Rightarrow> do {
          (dir, s) \<leftarrow> pacon_opendir n E p (root_of p) s;
          (case dir of
             DIR es \<Rightarrow>
               (case evict_pick es 0 rr of
                  None \<Rightarrow> evict_finish E p rr s
                | Some e \<Rightarrow> do {
                    (ret, s) \<leftarrow> evict_entry n E p e s;
                    if ret \<noteq> 0 then Some (-1, s) else evict_finish E p (rr + 1) s
                  })
           | _ \<Rightarrow> None)
        })
   }"

end
