(* ===== verification/Eviction_Thms.thy ===== *)
theory Eviction_Thms
  imports Eviction Namespace_Thms
begin

text \<open>
  Properties of eviction: what may be dropped from the cache, and the lock that the clients of a
  region share.
\<close>

subsection \<open>The lock\<close>

lemma evict_keys:
  "norm_key ''evict_lock'' = ''evict_lock''" "norm_key ''evict_record'' = ''evict_record''"
  "plain_key ''evict_lock''" "plain_key ''evict_record''"
  by (simp_all add: norm_key_def plain_key_def suffix_def)

definition lock_held :: "(string \<rightharpoonup> item) \<Rightarrow> bool" where
  "lock_held I \<longleftrightarrow> (\<exists>v c. I ''evict_lock'' = Some (CHR ''1'' # v, c))"

definition lock_free :: "(string \<rightharpoonup> item) \<Rightarrow> bool" where
  "lock_free I \<longleftrightarrow> (\<exists>v c. I ''evict_lock'' = Some (CHR ''0'' # v, c))"

context memcached_service
begin

lemma lock_loop_held: "lock_held (items (env s) (memc (kv_of p))) \<Longrightarrow> evict_lock_loop n E p s = None"
proof (induction n arbitrary: s)
  case 0
  then show ?case by simp
next
  case (Suc n)
  let ?s1 = "s\<lparr>env := snd (memcached_get E (memc (kv_of p)) ''evict_lock'' (env s))\<rparr>"
  have "lock_held (items (env ?s1) (memc (kv_of p)))" using Suc.prems by simp
  then have "evict_lock_loop n E p ?s1 = None" by (rule Suc.IH)
  then show ?case using Suc.prems by (auto simp: lock_held_def dmkv_get_cas_run evict_keys)
qed

lemma begin_held: "lock_held (items (env s) (memc (kv_of p))) \<Longrightarrow> evict_begin n E p s = None"
  by (simp add: evict_begin_def lock_loop_held)

lemma evict_held:
  assumes "lock_held (items (env s) (memc (kv_of p)))"
  shows "evict_metadata n E p s = None \<and> evict_metadata_new n E p s = None \<and> evict_metadata_explicit n E p s = None"
  using begin_held [OF assms]
  by (simp add: evict_metadata_def evict_metadata_with_def evict_metadata_new_def evict_metadata_explicit_def)

lemma finish_releases:
  assumes "evict_finish E p rr s = Some (0, s')" shows "lock_free (items (env s') (memc (kv_of p)))"
proof -
  from assms obtain rec s1 where "dmkv_set E (kv_of p) ''evict_lock'' (''0'' @ [NUL]) 1 s1 = Some (0, s')"
    by (auto simp: evict_finish_def bind_eq_Some_conv split: if_splits)
  moreover obtain r where "dmkv_set E (kv_of p) ''evict_lock'' (''0'' @ [NUL]) 1 s1 =
      Some (r, s1\<lparr>env := snd (memcached_set E (memc (kv_of p)) ''evict_lock'' ''0'' (env s1))\<rparr>)"
    "r = 0 \<longrightarrow> (\<exists>c. items (snd (memcached_set E (memc (kv_of p)) ''evict_lock'' ''0'' (env s1))) =
      put_item (memc (kv_of p)) ''evict_lock'' (''0'', c) (items (env s1)))"
    using dmkv_set_run [OF evict_keys(3), of 1 "''0'' @ [NUL]" "kv_of p" s1] by (auto simp: evict_keys)
  ultimately show ?thesis by (auto simp: lock_free_def)
qed

lemma find_new_releases:
  "evict_find_new n E p rr s = Some (0, s') \<Longrightarrow> lock_free (items (env s') (memc (kv_of p)))"
proof (induction n arbitrary: rr s)
  case (Suc n)
  from Suc.prems obtain es s1 where r: "(case evict_pick_new es 0 0 rr of
        PickAgain \<Rightarrow> evict_find_new n E p rr s1 | PickNone \<Rightarrow> evict_find_new n E p 0 s1
      | PickFound e \<Rightarrow> do { (ret, s) \<leftarrow> evict_entry n E p e s1;
          if ret \<noteq> 0 then Some (-1, s) else evict_finish E p (rr + 1) s }) = Some (0, s')"
    by (auto simp: bind_eq_Some_conv)
  show ?case
  proof (cases "evict_pick_new es 0 0 rr")
    case (PickFound e)
    with r show ?thesis by (auto simp: bind_eq_Some_conv dest: finish_releases split: if_splits)
  qed (use r Suc.IH in simp_all)
qed simp

lemma find_with_releases:
  "evict_find_with n add E p rr s = Some (0, s') \<Longrightarrow> lock_free (items (env s') (memc (kv_of p)))"
proof (induction n arbitrary: rr s)
  case (Suc n)
  then obtain dir s1 where "opendir_with add E p (root_of p) s = Some (dir, s1)" by (auto simp: bind_eq_Some_conv)
  with Suc.prems obtain es where r: "(case evict_pick es 0 rr of
         None \<Rightarrow> evict_find_with n add E p 0 s1
       | Some e \<Rightarrow> do {
           evict_path \<leftarrow> sprintf_buf PATH_MAX (root_of p @ ''/'' @ d_name e);
           (ret, s) \<leftarrow> (if d_isdir e then flush_dir E p evict_path s1 else flush_file n E p evict_path s1);
           if ret \<noteq> 0 then Some (-1, s) else evict_finish E p (rr + 1) s
         }) = Some (0, s')"
    by (cases dir) auto
  show ?case
  proof (cases "evict_pick es 0 rr")
    case None
    with r Suc.IH show ?thesis by simp
  next
    case (Some e)
    with r show ?thesis by (auto simp: bind_eq_Some_conv dest: finish_releases split: if_splits)
  qed
qed simp

lemma explicit_releases:
  assumes "evict_metadata_explicit n E p s = Some (0, s')" shows "lock_free (items (env s') (memc (kv_of p)))"
proof -
  from assms obtain rr s1 where "evict_begin n E p s = Some (Some rr, s1)"
    by (auto simp: evict_metadata_explicit_def bind_eq_Some_conv split: option.splits)
  with assms obtain dir s2 where "pacon_opendir n E p (root_of p) s1 = Some (dir, s2)"
    by (auto simp: evict_metadata_explicit_def bind_eq_Some_conv)
  with assms \<open>evict_begin n E p s = Some (Some rr, s1)\<close> obtain es where r: "(case evict_pick es 0 rr of
      None \<Rightarrow> evict_finish E p rr s2
    | Some e \<Rightarrow> do { (ret, s) \<leftarrow> evict_entry n E p e s2;
        if ret \<noteq> 0 then Some (-1, s) else evict_finish E p (rr + 1) s }) = Some (0, s')"
    by (cases dir) (auto simp: evict_metadata_explicit_def)
  show ?thesis
    by (cases "evict_pick es 0 rr") (use r in \<open>auto simp: bind_eq_Some_conv dest: finish_releases split: if_splits\<close>)
qed

lemma evict_releases:
  "evict_metadata n E p s = Some (0, s') \<Longrightarrow> lock_free (items (env s') (memc (kv_of p)))"
  "evict_metadata_new n E p s = Some (0, s') \<Longrightarrow> lock_free (items (env s') (memc (kv_of p)))"
  by (auto simp: evict_metadata_def evict_metadata_with_def evict_metadata_new_def bind_eq_Some_conv
      dest: find_new_releases find_with_releases split: option.splits)

end

context roomy_memcached
begin

text \<open>An eviction that gets the lock and finds no record returns -1 and keeps the lock.\<close>

lemma begin_no_record:
  assumes "items (env s) (memc (kv_of p)) ''evict_lock'' = Some (CHR ''0'' # v, c)"
    "items (env s) (memc (kv_of p)) ''evict_record'' = None"
  shows "\<exists>s'. evict_begin (Suc n) E p s = Some (None, s') \<and> lock_held (items (env s') (memc (kv_of p)))"
proof -
  let ?m = "memc (kv_of p)"
  let ?e1 = "snd (memcached_get E ?m ''evict_lock'' (env s))"
  let ?e2 = "snd (memcached_cas E ?m ''evict_lock'' ''1'' c ?e1)"
  let ?e3 = "snd (memcached_get E ?m ''evict_record'' ?e2)"
  obtain c' where c': "items ?e2 = put_item ?m ''evict_lock'' (''1'', c') (items (env s))"
    using cas_items [of ?e1 ?m "''evict_lock''" "CHR ''0'' # v" c "''1''"] assms(1) by auto
  have "evict_lock_loop (Suc n) E p s = Some (True, s\<lparr>env := ?e2\<rparr>)"
    using assms(1) by (simp add: dmkv_get_cas_run dmkv_cas_match evict_keys)
  then have "evict_begin (Suc n) E p s = Some (None, s\<lparr>env := ?e3\<rparr>)"
    using c' assms(2) by (simp add: evict_begin_def dmkv_get_run evict_keys)
  moreover have "lock_held (items ?e3 ?m)" using c' by (simp add: lock_held_def)
  ultimately show ?thesis by auto
qed

end

subsection \<open>Dropping one file\<close>

context memcached_service
begin

lemma test_entry_exist_run:
  assumes "path \<noteq> []" "norm_key path = path" "i = items (env s) (memc (kv_of p)) path" "i = None \<or> entry_stat i \<noteq> None"
  shows "\<exists>s'. test_entry_exist E p path s =
      Some (case entry_stat i of None \<Rightarrow> -1 | Some st \<Rightarrow> if get_stat_flag st STAT_rm = 1 then 0 else 1, s') \<and>
    items (env s') = items (env s)"
proof (cases i)
  case None
  with assms show ?thesis by (simp add: test_entry_exist_def dmkv_get_run entry_stat_def)
next
  case (Some x)
  then obtain st where st: "entry_stat i = Some st" using assms(4) by auto
  then obtain v c where "i = Some (v, c)" "PSTAT_SIZE \<le> length v" "st = bytes_stat v" by (rule entry_stat_SomeE)
  with assms(1,2) assms(3) [symmetric] st show ?thesis by (simp add: test_entry_exist_def dmkv_get_run deseri_val_append)
qed

lemma flush_file_new_run:
  assumes "path \<noteq> []" "norm_key path = path" "i = items (env s) (memc (kv_of p)) path" "i = None \<or> entry_stat i \<noteq> None"
  shows "\<exists>s'. flush_file_new E p path s = Some (0, s') \<and>
    items (env s') = (if fst (c_stat E path (env s)) \<noteq> None \<and> (\<exists>st. entry_stat i = Some st \<and> get_stat_flag st STAT_rm = 0)
      then del_item (memc (kv_of p)) path (items (env s)) else items (env s))"
proof -
  let ?s1 = "s\<lparr>env := snd (c_stat E path (env s))\<rparr>"
  obtain s2 where t: "test_entry_exist E p path ?s1 =
      Some (case entry_stat i of None \<Rightarrow> -1 | Some st \<Rightarrow> if get_stat_flag st STAT_rm = 1 then 0 else 1, s2)"
    "items (env s2) = items (env s)"
    using test_entry_exist_run [of path i ?s1 p] assms by auto
  have d: "entry_stat i \<noteq> None \<Longrightarrow> \<exists>s3. dmkv_del E (kv_of p) path s2 = Some (0, s3) \<and>
      items (env s3) = del_item (memc (kv_of p)) path (items (env s))"
    using dmkv_del_run [OF assms(1), of "kv_of p" s2] assms(2,3) t(2) by (auto elim!: entry_stat_SomeE)
  show ?thesis
  proof (cases "fst (c_stat E path (env s)) \<noteq> None \<and> (\<exists>st. entry_stat i = Some st \<and> get_stat_flag st STAT_rm = 0)")
    case True
    with d obtain s3 where "dmkv_del E (kv_of p) path s2 = Some (0, s3)"
        "items (env s3) = del_item (memc (kv_of p)) path (items (env s))" by auto
    with True t show ?thesis by (auto simp: flush_file_new_def ext_call_eq)
  next
    case False
    then show ?thesis using t get_stat_flag_range [of "the (entry_stat i)" STAT_rm]
      by (auto simp: flush_file_new_def ext_call_eq split: option.splits)
  qed
qed

end

subsection \<open>Properties\<close>

definition ref_evict_client :: "items \<Rightarrow> ref_env client" where
  "ref_evict_client I = ref_client\<lparr>env := ref_env0\<lparr>r_items := I\<rparr>\<rparr>"

text \<open>
  C24: An eviction that takes the lock and finds no cursor (it was itself evicted, or its store
  failed) returns -1 without releasing the lock; from then on every eviction of every client of the
  region, in each of the three forms, waits forever.
\<close>

theorem failed_eviction_blocks_all:
  assumes "roomy_memcached E items"
    "items (env s) (memc (kv_of p)) ''evict_lock'' = Some (CHR ''0'' # v, c)"
    "items (env s) (memc (kv_of p)) ''evict_record'' = None"
  shows "\<exists>s'. evict_metadata (Suc n) E p s = Some (-1, s') \<and> evict_metadata_new (Suc n) E p s = Some (-1, s') \<and>
    evict_metadata_explicit (Suc n) E p s = Some (-1, s') \<and>
    (\<forall>m t q. env t = env s' \<and> memc (kv_of q) = memc (kv_of p) \<longrightarrow>
       evict_metadata m E q t = None \<and> evict_metadata_new m E q t = None \<and> evict_metadata_explicit m E q t = None)"
proof -
  obtain s' where b: "evict_begin (Suc n) E p s = Some (None, s')" and h: "lock_held (items (env s') (memc (kv_of p)))"
    using roomy_memcached.begin_no_record [OF assms] by blast
  have "evict_metadata m E q t = None \<and> evict_metadata_new m E q t = None \<and> evict_metadata_explicit m E q t = None"
    if "env t = env s' \<and> memc (kv_of q) = memc (kv_of p)" for m t q
    using memcached_service.evict_held [OF roomy_memcached.axioms(1) [OF assms(1)], of t q m] h that by simp
  with b show ?thesis
    by (auto simp: evict_metadata_def evict_metadata_with_def evict_metadata_new_def evict_metadata_explicit_def)
qed

theorem failed_eviction_blocks_all_witness:
  "\<exists>s'. evict_metadata_new 1 ref_ext ref_pacon
      (ref_evict_client (put_item [''10.0.0.1''] ''evict_lock'' (''0'', 1) (\<lambda>_. Map.empty))) = Some (-1, s') \<and>
    evict_metadata_new 100 ref_ext ref_pacon s' = None"
proof -
  let ?s = "ref_evict_client (put_item [''10.0.0.1''] ''evict_lock'' (''0'', 1) (\<lambda>_. Map.empty))"
  have "r_items (env ?s) (memc (kv_of ref_pacon)) ''evict_lock'' = Some (CHR ''0'' # [], 1)"
    "r_items (env ?s) (memc (kv_of ref_pacon)) ''evict_record'' = None"
    by (simp_all add: ref_evict_client_def ref_memc)
  from failed_eviction_blocks_all [OF ref.roomy_memcached_axioms this, of 0] show ?thesis by auto
qed

text \<open>
  C23: An eviction that returns 0 has released the lock, in each of its three forms, so that the next
  one can start.
\<close>

theorem successful_eviction_releases_lock:
  assumes "memcached_service E items"
    "evict_metadata n E p s = Some (0, s') \<or> evict_metadata_new n E p s = Some (0, s') \<or> evict_metadata_explicit n E p s = Some (0, s')"
  shows "lock_free (items (env s') (memc (kv_of p)))"
  using assms memcached_service.evict_releases [OF assms(1)] memcached_service.explicit_releases [OF assms(1)] by blast

definition ref_evict_ready :: "ref_env client" where
  "ref_evict_ready = ref_client\<lparr>env := ref_env0\<lparr>r_ls := [''/w'' \<mapsto> [\<lparr>d_name = ''a'', d_isdir = False\<rparr>]],
     r_items := put_item [''10.0.0.1''] ''evict_lock'' (''0'', 1) (put_item [''10.0.0.1''] ''evict_record'' (''0'', 1) (\<lambda>_. Map.empty))\<rparr>\<rparr>"

lemma ref_evict_runs: "map_option fst (evict_metadata_new 2 ref_ext ref_pacon ref_evict_ready) = Some 0"
  by code_simp

theorem successful_eviction_releases_lock_witness:
  "\<exists>s'. evict_metadata_new 2 ref_ext ref_pacon ref_evict_ready = Some (0, s') \<and> lock_free (r_items (env s') [''10.0.0.1''])"
proof -
  obtain s' where "evict_metadata_new 2 ref_ext ref_pacon ref_evict_ready = Some (0, s')"
    using ref_evict_runs by (auto simp: map_option_case split: option.splits)
  with successful_eviction_releases_lock [OF ref.memcached_service_axioms, of 2 ref_pacon ref_evict_ready s']
  show ?thesis by (auto simp: ref_memc)
qed

text \<open>
  C25: \<open>flush_file_new\<close>, which eviction calls for a file, always returns 0 on a well formed entry. It
  drops the entry exactly when the file is on the file system and the entry is not marked as
  removed: no file that was not committed yet disappears from the region.
\<close>

theorem flush_file_new_drops_committed:
  assumes "memcached_service E items" "path \<noteq> []" "norm_key path = path"
    "i = items (env s) (memc (kv_of p)) path" "i = None \<or> entry_stat i \<noteq> None"
  shows "\<exists>s'. flush_file_new E p path s = Some (0, s') \<and>
    items (env s') = (if fst (c_stat E path (env s)) \<noteq> None \<and> (\<exists>st. entry_stat i = Some st \<and> get_stat_flag st STAT_rm = 0)
      then del_item (memc (kv_of p)) path (items (env s)) else items (env s))"
  using assms by (rule memcached_service.flush_file_new_run)

theorem flush_file_new_drops_committed_witness:
  "\<exists>s'. flush_file_new ref_ext ref_pacon ''/w/a'' (ref_client_with ref_stat) = Some (0, s') \<and>
    r_items (env s') [''10.0.0.1''] ''/w/a'' = Some (stat_bytes ref_stat, 1)"
  using flush_file_new_drops_committed [OF ref.memcached_service_axioms, of "''/w/a''" _ "ref_client_with ref_stat" ref_pacon]
  by (auto simp: ref_items ref_memc norm_key_def ref_ext_def ref_client_defs)

end
