(* ===== verification/Comm.thy ===== *)
theory Comm
  imports Dmkv
begin

text \<open>
  Messages between the servers of a cluster, \<open>comm/comm.c\<close>: the addresses of the local node and of
  the cluster, the connections to the other servers and \<open>server_broadcast\<close>. \<open>get_local_addr\<close> is also
  the function of that name in \<open>pacon.c\<close> and in \<open>pacon_server.c\<close>, which differ in the file name.
\<close>

subsection \<open>Addresses\<close>

text \<open>
  \<open>fgets (temp, 24, fp)\<close> into a block that has no contents before; NULL leaves it as it is.
\<close>

definition read_line :: "'e ext \<Rightarrow> string \<Rightarrow> ('e, 'z) world_scheme \<Rightarrow> (bytes \<times> ('e, 'z) world_scheme) option" where
  "read_line E file s = do {
     (temp, s) \<leftarrow> fresh_block E 24 s;
     (case fgets 24 file of
        None \<Rightarrow> Some (temp, s)
      | Some (l, rest) \<Rightarrow> do { temp \<leftarrow> memcpy temp 0 (l @ [NUL]) (length l + 1); Some (temp, s) })
   }"

text \<open>
  The address is written into 17 bytes of the caller. Without the file the caller's block keeps
  what it had, which no caller has set.
\<close>

definition get_local_addr ::
  "'e ext \<Rightarrow> path \<Rightarrow> ('e, 'z) world_scheme \<Rightarrow> (string \<times> ('e, 'z) world_scheme) option" where
  "get_local_addr E cf_path s = do {
     (file, s) \<leftarrow> ext_call (c_fopen E cf_path) s;
     text \<leftarrow> file;
     (temp, s) \<leftarrow> read_line E text s;
     let ip = takeWhile addr_char temp;
     guard (length ip < 17);
     Some (ip, s)
   }"

subsection \<open>The connections\<close>

text \<open>\<open>server_mq\<close> has no socket for the node itself.\<close>

record servers_comm =
  servers_num :: nat
  server_list :: "string list"
  server_mq :: "nat option list"

text \<open>\<open>get_cluster_info_comm\<close> has the loop of \<open>get_cluster_info\<close>.\<close>

definition get_cluster_info_comm ::
  "'e ext \<Rightarrow> ('e, 'z) world_scheme \<Rightarrow> (string list option \<times> ('e, 'z) world_scheme) option" where
  "get_cluster_info_comm E s = do {
     (file, s) \<leftarrow> ext_call (c_fopen E ''../config'') s;
     Some (map_option node_list (parse_cluster file), s)
   }"

definition is_loacl_addr :: "string \<Rightarrow> string \<Rightarrow> bool" where
  "is_loacl_addr l_addr t_addr \<longleftrightarrow>
     length l_addr = length t_addr \<and> (\<forall>i < length l_addr. l_addr ! i = t_addr ! i)"

fun connect_servers ::
  "'e ext \<Rightarrow> string \<Rightarrow> string list \<Rightarrow> ('e, 'z) world_scheme \<Rightarrow> (nat option list option \<times> ('e, 'z) world_scheme) option" where
  "connect_servers E local_ip [] s = Some (Some [], s)"
| "connect_servers E local_ip (addr # rest) s =
     (if is_loacl_addr local_ip addr then do {
        (mqs, s) \<leftarrow> connect_servers E local_ip rest s;
        Some (map_option (\<lambda>l. None # l) mqs, s)
      }
      else do {
        bind_addr \<leftarrow> sprintf_buf 64 (''tcp://'' @ addr @ '':12580'');
        ((rc, sock), s) \<leftarrow> ext_call (zmq_connect E bind_addr) s;
        if rc \<noteq> 0 then Some (None, s)
        else do {
          (mqs, s) \<leftarrow> connect_servers E local_ip rest s;
          Some (map_option (\<lambda>l. Some sock # l) mqs, s)
        }
      })"

text \<open>\<open>None\<close> in the first component is the return of -1; at its end the function returns no value.\<close>

definition setup_servers_comm ::
  "'e ext \<Rightarrow> ('e, 'z) world_scheme \<Rightarrow> (servers_comm option \<times> ('e, 'z) world_scheme) option" where
  "setup_servers_comm E s = do {
     (ns, s) \<leftarrow> get_cluster_info_comm E s;
     (case ns of
        None \<Rightarrow> Some (None, s)
      | Some ns \<Rightarrow> do {
          (local_ip, s) \<leftarrow> get_local_addr E ''../local_config'' s;
          (mqs, s) \<leftarrow> connect_servers E local_ip ns s;
          Some (map_option (\<lambda>mqs. \<lparr>servers_num = length ns, server_list = ns, server_mq = mqs\<rparr>) mqs, s)
        })
   }"

subsection \<open>Broadcast\<close>

fun broadcast_to ::
  "'e ext \<Rightarrow> nat option list \<Rightarrow> string \<Rightarrow> ('e, 'z) world_scheme \<Rightarrow> (int \<times> ('e, 'z) world_scheme) option" where
  "broadcast_to E [] mesg s = Some (0, s)"
| "broadcast_to E (None # rest) mesg s = broadcast_to E rest mesg s"
| "broadcast_to E (Some sock # rest) mesg s = do {
     (rep, s) \<leftarrow> fresh_block E 2 s;
     (_, s) \<leftarrow> ext_call (zmq_send E sock mesg) s;
     ((n, data), s) \<leftarrow> ext_call (zmq_recv E sock 1) s;
     if hd (take 1 data @ rep) \<noteq> CHR ''0'' then Some (-1, s)
     else broadcast_to E rest mesg s
   }"

definition server_broadcast ::
  "'e ext \<Rightarrow> servers_comm \<Rightarrow> string \<Rightarrow> ('e, 'z) world_scheme \<Rightarrow> (int \<times> ('e, 'z) world_scheme) option" where
  "server_broadcast E s_comm mesg s = do {
     guard (servers_num s_comm \<le> length (server_mq s_comm));
     broadcast_to E (take (servers_num s_comm) (server_mq s_comm)) mesg s
   }"

subsection \<open>Properties\<close>

lemma is_loacl_addr_eq: "is_loacl_addr a b \<longleftrightarrow> a = b"
  by (simp add: is_loacl_addr_def list_eq_iff_nth_eq)

lemma connect_servers_mq:
  "connect_servers E ip ns s = Some (Some mqs, s') \<Longrightarrow>
     length mqs = length ns \<and> (\<forall>i < length ns. mqs ! i = None \<longleftrightarrow> ns ! i = ip)"
proof (induction ns arbitrary: s mqs)
  case Nil
  then show ?case by simp
next
  case (Cons a ns)
  show ?case
  proof (cases "a = ip")
    case True
    with Cons.prems obtain l where "connect_servers E ip ns s = Some (Some l, s')" "mqs = None # l"
      by (auto simp: is_loacl_addr_eq bind_eq_Some_conv)
    with Cons.IH True show ?thesis by (auto simp: nth_Cons split: nat.splits)
  next
    case False
    with Cons.prems obtain l s1 sock where "connect_servers E ip ns s1 = Some (Some l, s')" "mqs = Some sock # l"
      by (auto simp: is_loacl_addr_eq bind_eq_Some_conv split: if_splits)
    with Cons.IH False show ?thesis by (auto simp: nth_Cons split: nat.splits)
  qed
qed

end
