(* ===== verification/Region.thy ===== *)
theory Region
  imports Cache Comm
begin

text \<open>
  Setting up a client and joining regions (\<open>pacon.c\<close>): \<open>init_pacon\<close>, \<open>init_remote_pacon\<close>,
  \<open>cregion_joint\<close>, \<open>cregion_split\<close>, \<open>cregion_checkpoint\<close>, \<open>cregion_recover\<close>, and \<open>pacon_barrier\<close>.
\<close>

definition FSYNC_LOG_PATH :: string where [c_consts]: "FSYNC_LOG_PATH = ''/mnt/beegfs/pacon_fsync_log/''"
definition CRJ_INFO_PATH :: string where [c_consts]: "CRJ_INFO_PATH = ''./crj_info''"
definition DEFAULT_FILEMODE :: u32 where [c_consts]: "DEFAULT_FILEMODE = 0x1B4"
definition DEFAULT_DIRMORE :: u32 where [c_consts]: "DEFAULT_DIRMORE = 0x1FD"
definition O_DIRECT :: u32 where [c_consts]: "O_DIRECT = 0x4000"

abbreviation upd_pf :: "(pacon_fields \<Rightarrow> pacon_fields) \<Rightarrow> pacon \<Rightarrow> pacon" where
  "upd_pf f p \<equiv> PACON (f (pf p)) (remote_pacon_list p)"

subsection \<open>Initialisation\<close>

text \<open>The log file of a client: the log directory, the address of the node, a dot and the process id.\<close>

definition open_log :: "'e ext \<Rightarrow> 'e client \<Rightarrow> ((string \<times> int) option \<times> 'e client) option" where
  "open_log E s = do {
     (r, s) \<leftarrow> ext_call (c_access E FSYNC_LOG_PATH) s;
     (ok, s) \<leftarrow>
       (if r \<noteq> 0 then do {
          (r, s) \<leftarrow> ext_call (c_mkdir E FSYNC_LOG_PATH DEFAULT_DIRMORE) s;
          Some (r = 0, s)
        }
        else Some (True, s));
     if \<not> ok then Some (None, s)
     else do {
       (ip, s) \<leftarrow> get_local_addr E ''./local_config'' s;
       (pid, s) \<leftarrow> ext_call (c_getpid E) s;
       pid_s \<leftarrow> sprintf_buf 45 (show_int pid);
       filename \<leftarrow> sprintf_buf 64 (ip @ ''.'' @ pid_s);
       logfile \<leftarrow> sprintf_buf PATH_MAX (FSYNC_LOG_PATH @ filename);
       (fd, s) \<leftarrow> ext_call (c_open E logfile (O_RDWR OR O_DIRECT) 0) s;
       if fd = -1 then do {
         (fd, s) \<leftarrow> ext_call (c_creat E logfile DEFAULT_FILEMODE) s;
         Some (if fd = -1 then None else Some (logfile, fd), s)
       }
       else Some (Some (logfile, fd), s)
     }
   }"

text \<open>
  The lock is stored with the length of its name: behind the literal \<open>"0"\<close> eight bytes of other
  constants go along. Neither result of the two \<open>dmkv_add\<close> is looked at.
\<close>

definition init_evict :: "'e ext \<Rightarrow> pacon \<Rightarrow> 'e client \<Rightarrow> 'e client option" where
  "init_evict E p s = do {
     (rest, s) \<leftarrow> fresh_block E 8 s;
     (_, s) \<leftarrow> dmkv_add E (kv_of p) ''evict_lock'' (''0'' @ [NUL] @ rest) (length ''evict_lock'') s;
     (_, s) \<leftarrow> dmkv_add E (kv_of p) ''evict_record'' (''?'' @ [NUL]) 1 s;
     Some s
   }"

definition init_pacon ::
  "nat \<Rightarrow> 'e ext \<Rightarrow> nat \<Rightarrow> pacon \<Rightarrow> 'e client \<Rightarrow> (int \<times> pacon \<times> 'e client) option" where
  "init_pacon n E config_type p s = do {
     (kv, s) \<leftarrow> dmkv_init E config_type s;
     (case kv of None \<Rightarrow> Some (-1, p, s) | Some kv \<Rightarrow> do {
       let p = upd_pf (\<lambda>f. f\<lparr>kv_handle := kv\<rparr>) p;
       ((rc, pub), s) \<leftarrow> ext_call (zmq_connect E ''ipc:///run/pacon_commit'') s;
       if rc \<noteq> 0 then Some (-1, p, s) else do {
         let p = upd_pf (\<lambda>f. f\<lparr>publisher := pub\<rparr>) p;
         ((rc, req), s) \<leftarrow> ext_call (zmq_connect E ''tcp://127.0.0.1:5555'') s;
         if rc \<noteq> 0 then Some (-1, p, s) else do {
           let p = upd_pf (\<lambda>f. f\<lparr>local_rpc_req := req\<rparr>) p;
           (ret, s) \<leftarrow> load_to_pacon n E p (root_of p) s;
           if ret \<noteq> 0 then Some (-1, p, s) else do {
             let s = add_to_dir_check_table (root_of p) s;
             (log, s) \<leftarrow> open_log E s;
             (case log of None \<Rightarrow> Some (-1, p, s) | Some (logfile, fd) \<Rightarrow> do {
               let p = upd_pf (\<lambda>f. f\<lparr>fsync_logfile_path := logfile, fsync_log_fd := fd, log_size := 0,
                 perm_info := None, df_dir_mode := 0x41ED, df_f_mode := 0x81A4, cr_num := 0\<rparr>) p;
               s \<leftarrow> init_evict E p s;
               Some (0, p, s)
             })
           }
         }
       }
     })
   }"

text \<open>
  \<open>free_pacon\<close> closes the sockets and the handle of the cache, which have no state in the model.
\<close>

definition new_pacon_file :: "pacon_file \<Rightarrow> pacon_file" where
  "new_pacon_file raw = raw\<lparr>f_fd := -1\<rparr>"

subsection \<open>Joined regions\<close>

definition init_remote_pacon ::
  "nat \<Rightarrow> 'e ext \<Rightarrow> pacon \<Rightarrow> int \<Rightarrow> 'e client \<Rightarrow> (int \<times> pacon \<times> 'e client) option" where
  "init_remote_pacon n E p remote_cr_num s = do {
     (kv, s) \<leftarrow> dmkv_remote_init E remote_cr_num s;
     (case kv of None \<Rightarrow> Some (-1, p, s) | Some kv \<Rightarrow> do {
       let p = upd_pf (\<lambda>f. f\<lparr>kv_handle := kv\<rparr>) p;
       (ret, s) \<leftarrow> load_to_pacon n E p (root_of p) s;
       if ret \<noteq> 0 then Some (-1, p, s)
       else Some (0, upd_pf (\<lambda>f. f\<lparr>perm_info := None, df_dir_mode := 0x41ED, df_f_mode := 0x81A4, cr_num := 0\<rparr>) p,
                  add_to_dir_check_table (root_of p) s)
     })
   }"

text \<open>The loop over the lines of the file; a ninth line is written behind the array.\<close>

function read_roots :: "nat \<Rightarrow> string list \<Rightarrow> string \<Rightarrow> string list option" where
  "read_roots n acc file =
     (case fgets MOUNT_PATH_MAX file of
        None \<Rightarrow> Some acc
      | Some (l, rest) \<Rightarrow>
          if n < CR_JOINT_MAX
          then read_roots (n + 1) (acc @ [takeWhile (\<lambda>c. c \<noteq> NUL \<and> c \<noteq> CHR 0x0A) l]) rest
          else None)"
  by pat_completeness auto
termination
  by (relation "measure (\<lambda>(n, acc, file). length file)") (auto simp: MOUNT_PATH_MAX_def dest: fgets_progress)

declare read_roots.simps [simp del]

text \<open>
  The handles of the other regions. \<open>raw i\<close> is what the block from \<open>malloc\<close> holds: \<open>set_root_path\<close>
  writes no terminator, so the root of the region ends where the block happens to have a NUL.
\<close>

fun join_regions ::
  "nat \<Rightarrow> 'e ext \<Rightarrow> (nat \<Rightarrow> pacon_fields) \<Rightarrow> string list \<Rightarrow> nat \<Rightarrow> pacon list \<Rightarrow> 'e client \<Rightarrow> (int \<times> pacon list \<times> 'e client) option" where
  "join_regions n E raw [] i acc s = Some (0, acc, s)"
| "join_regions n E raw (root # roots) i acc s = do {
     (blk, s) \<leftarrow> fresh_block E MOUNT_PATH_MAX s;
     let (ret, blk) = set_root_path blk root;
     r_path \<leftarrow> cstr blk;
     (ret, r, s) \<leftarrow> init_remote_pacon n E (PACON ((raw i)\<lparr>mount_path := r_path\<rparr>) []) (int i) s;
     if ret \<noteq> 0 then Some (-1, acc, s)
     else join_regions n E raw roots (Suc i) (acc @ [r]) s
   }"

definition cregion_joint ::
  "nat \<Rightarrow> 'e ext \<Rightarrow> (nat \<Rightarrow> pacon_fields) \<Rightarrow> pacon \<Rightarrow> int \<Rightarrow> 'e client \<Rightarrow> (int \<times> pacon \<times> 'e client) option" where
  "cregion_joint n E raw p remote_cr_num s =
     (if remote_cr_num < 1 \<or> remote_cr_num > int CR_JOINT_MAX then Some (-1, p, s)
      else do {
        let p = upd_pf (\<lambda>f. f\<lparr>cr_num := nat remote_cr_num\<rparr>) p;
        (file, s) \<leftarrow> ext_call (c_fopen E CRJ_INFO_PATH) s;
        (case file of
           None \<Rightarrow> Some (-1, p, s)
         | Some text \<Rightarrow> do {
             roots \<leftarrow> read_roots 0 [] text;
             let p = upd_pf (\<lambda>f. f\<lparr>remote_cr_root := roots\<rparr>) p;
             guard (nat remote_cr_num \<le> length roots);
             (ret, rs, s) \<leftarrow> join_regions n E raw (take (nat remote_cr_num) roots) 0 [] s;
             Some (ret, PACON (pf p) rs, s)
           })
      })"

definition cregion_split :: "pacon \<Rightarrow> int \<Rightarrow> int \<times> pacon" where
  "cregion_split p remote_cr_num = (0, upd_pf (\<lambda>f. f\<lparr>cr_num := 0\<rparr>) p)"

subsection \<open>Checkpoints and barriers\<close>

definition cregion_checkpoint :: "'e ext \<Rightarrow> pacon \<Rightarrow> 'e client \<Rightarrow> (int \<times> 'e client) option" where
  "cregion_checkpoint E p s = do {
     (t, s) \<leftarrow> ext_call (c_time E) s;
     (ret, s) \<leftarrow> add_to_local_rpc E p (root_of p) CHECKPOINT t s;
     Some (if ret = -1 then -1 else 0, s)
   }"

definition cregion_recover :: "'e ext \<Rightarrow> pacon \<Rightarrow> 'e client \<Rightarrow> (int \<times> 'e client) option" where
  "cregion_recover E p s = do {
     i \<leftarrow> last_slash (root_of p) (length (root_of p));
     cp_path \<leftarrow> sprintf_buf PATH_MAX (CHECKPOINT_PATH @ drop i (root_of p) @ ''/*'');
     rm_cmd \<leftarrow> (sprintf_bad_pointer :: string option);
     (_, s) \<leftarrow> ext_call (c_system E rm_cmd) s;
     Some (0, s)
   }"

definition pacon_barrier :: "'e ext \<Rightarrow> pacon \<Rightarrow> int \<Rightarrow> 'e client \<Rightarrow> 'e client option" where
  "pacon_barrier E p opt_num s = do {
     let s = s\<lparr>current_barrier_id := current_barrier_id s + 1\<rparr>;
     if current_barrier_id s \<ge> int BARRIER_ID_MAX then Some s
     else do {
       barrier_id \<leftarrow> sprintf_buf PATH_MAX (show_int opt_num @ ''|'' @ show_int (current_barrier_id s));
       (t, s) \<leftarrow> ext_call (c_time E) s;
       (_, s) \<leftarrow> add_to_mq E p barrier_id BARRIER t s;
       Some s
     }
   }"

end
