(* ===== verification/Server_State.thy ===== *)
theory Server_State
  imports Messages Comm
begin

text \<open>
  The state of a Pacon server: \<open>struct pacon_server_info\<close> of \<open>pacon_server.h\<close> and the static
  variables of \<open>pacon_server.c\<close>, which its three threads share (the listener of the commit queue,
  of the local rpc and of the cluster rpc).

  A busy wait, \<open>while (x == v);\<close>, ends only when another thread changes \<open>x\<close>. A function of the
  model that gets to such a wait while its condition holds gives \<open>Spin\<close> together with the state at
  that point.
\<close>

datatype 'a wait = Ret 'a | Spin

record 'e server = "'e world" +
  sv_kv :: dmkv
  sv_kv_barrier :: dmkv
  sv_comm :: servers_comm
  batch_dir_mode :: u32
  batch_file_mode :: u32
  rm_count :: int
  rm_list :: "string list"
  sp_permission :: int
  sp_info :: permission_info
  client_num :: int
  waiting_barrier_id :: int
  barrier :: "int list"
  barrier_reach :: "int list"
  local_ip :: string
  reach_barrier :: int
  remote_reach_barrier :: int
  commit_barrier :: u32
  mesg_count :: int
  subscriber :: nat
  local_rpc_rep :: nat
  cluster_rpc_rep :: nat

text \<open>Arrays indexed by an \<open>int\<close>; an access outside is undefined.\<close>

definition arr_get :: "'a list \<Rightarrow> int \<Rightarrow> 'a option" where
  "arr_get a i = (if 0 \<le> i \<and> i < int (length a) then Some (a ! nat i) else None)"

definition arr_set :: "'a list \<Rightarrow> int \<Rightarrow> 'a \<Rightarrow> 'a list option" where
  "arr_set a i x = (if 0 \<le> i \<and> i < int (length a) then Some (a[nat i := x]) else None)"

lemma arr_get_set:
  "arr_set a i x = Some b \<Longrightarrow> arr_get b j = (if j = i then Some x else arr_get a j)"
  by (auto simp: arr_set_def arr_get_def nth_list_update split: if_splits)

lemma length_arr_set: "arr_set a i x = Some b \<Longrightarrow> length b = length a"
  by (auto simp: arr_set_def split: if_splits)

lemma arr_set_ok: "0 \<le> i \<Longrightarrow> i < int (length a) \<Longrightarrow> arr_set a i x = Some (a[nat i := x])"
  by (simp add: arr_set_def)

lemma arr_get_ok: "0 \<le> i \<Longrightarrow> i < int (length a) \<Longrightarrow> arr_get a i = Some (a ! nat i)"
  by (simp add: arr_get_def)

text \<open>The keys under which the servers share the state of a barrier.\<close>

definition BARRIER_OPT_COUNT_KEY :: string where [c_consts]: "BARRIER_OPT_COUNT_KEY = ''barrier_opt_count''"

definition barrier_key :: "string \<Rightarrow> int \<Rightarrow> string option" where
  "barrier_key pre i = sprintf_buf PATH_MAX (pre @ ''.'' @ show_int i)"

definition S_DIR_MODE :: u32 where [c_consts]: "S_DIR_MODE = 0x41ED"
definition S_FILE_MODE :: u32 where [c_consts]: "S_FILE_MODE = 0x81A4"

text \<open>The server's own \<open>INLINE_MAX\<close> and the size of its \<open>struct pacon_stat_server\<close>, which has no \<open>fd\<close>.\<close>

definition SERVER_INLINE_MAX :: nat where [c_consts]: "SERVER_INLINE_MAX = 468"
definition SERVER_STAT_SIZE :: nat where [c_consts]: "SERVER_STAT_SIZE = 40"

text \<open>
  \<open>server_deseri_inline_data (&st, inline_data, val)\<close> copies \<open>PSTAT_SIZE\<close> bytes to the struct, four
  more than it has, and the string behind them to a block of the server's \<open>INLINE_MAX\<close> bytes.
\<close>

definition server_deseri_inline_data ::
  "'e ext \<Rightarrow> bytes \<Rightarrow> bytes \<Rightarrow> (pacon_stat \<times> bytes) option" where
  "server_deseri_inline_data E inline_data val = do {
     guard (PSTAT_SIZE \<le> SERVER_STAT_SIZE + c_stack_pad E);
     deseri_inline_data inline_data val
   }"

end
