(* ===== verification/Server_Commit.thy ===== *)
theory Server_Commit
  imports Server_State
begin

text \<open>
  The commit thread of \<open>server/pacon_server.c\<close>: \<open>retry_commit\<close>, \<open>fsync_from_log\<close> and \<open>commit_to_fs\<close>,
  which takes one message of the commit queue and carries the operation out on the distributed
  file system.
\<close>

subsection \<open>Retrying an operation\<close>

fun retry_commit ::
  "nat \<Rightarrow> 'e ext \<Rightarrow> path \<Rightarrow> int \<Rightarrow> 'e server \<Rightarrow> (int \<times> 'e server) option" where
  "retry_commit 0 E path ty s = None"
| "retry_commit (Suc n) E path ty s =
     (if ty = 1 then do {
        (ret, s) \<leftarrow> ext_call (c_mkdir E path (batch_dir_mode s)) s;
        if ret \<noteq> -1 then Some (0, s) else retry_commit n E path ty s
      }
      else if ty = 2 then do {
        (ret, s) \<leftarrow> ext_call (c_creat E path (batch_dir_mode s)) s;
        if ret \<noteq> -1 then Some (0, s) else retry_commit n E path ty s
      }
      else if ty = 3 then do {
        (ret, s) \<leftarrow> ext_call (c_remove E path) s;
        if ret = 0 then Some (0, s) else retry_commit n E path ty s
      }
      else Some (-1, s))"

subsection \<open>Replaying an fsync from the log of a client\<close>

text \<open>
  The variables of the loop over the message \<open>path|log_path|offset|size\<close>. The terminator of
  \<open>log_path\<close> is written at the index that the second bar has in the message.
\<close>

record log_parse =
  lp_loc :: nat
  lp_flag :: nat
  lp_offset :: int
  lp_size :: int
  lp_f_path :: bytes
  lp_log_path :: bytes

definition log_step :: "string \<Rightarrow> nat \<Rightarrow> log_parse \<Rightarrow> log_parse option" where
  "log_step path i p =
     (if path ! i = CHR ''|'' then do {
        fp \<leftarrow> (if lp_flag p = 0 then poke (lp_f_path p) i NUL else Some (lp_f_path p));
        lg \<leftarrow> (if lp_flag p = 1 then poke (lp_log_path p) i NUL else Some (lp_log_path p));
        Some (p\<lparr>lp_loc := i, lp_flag := lp_flag p + 1, lp_f_path := fp, lp_log_path := lg\<rparr>)
      }
      else if lp_flag p = 0 then do {
        fp \<leftarrow> poke (lp_f_path p) i (path ! i);
        Some (p\<lparr>lp_f_path := fp\<rparr>)
      }
      else if lp_flag p = 1 then do {
        lg \<leftarrow> poke (lp_log_path p) (i - lp_loc p - 1) (path ! i);
        Some (p\<lparr>lp_log_path := lg\<rparr>)
      }
      else if lp_flag p = 2 then
        Some (if path ! (i - 1) = CHR ''|'' then p\<lparr>lp_offset := atoi (drop i path)\<rparr> else p)
      else
        Some (if path ! (i - 1) = CHR ''|'' then p\<lparr>lp_size := atoi (drop i path)\<rparr> else p))"

text \<open>The loop; \<open>Some None\<close> is the return of -1 at a character behind a fourth bar.\<close>

function log_loop :: "string \<Rightarrow> nat \<Rightarrow> log_parse \<Rightarrow> log_parse option option" where
  "log_loop path i p =
     (if i < length path then
        (if path ! i \<noteq> CHR ''|'' \<and> lp_flag p > 3 then Some None
         else do { p \<leftarrow> log_step path i p; log_loop path (Suc i) p })
      else Some (Some p))"
  by pat_completeness auto
termination
  by (relation "measure (\<lambda>(path, i, p). length path - i)") auto

declare log_loop.simps [simp del]

definition fsync_from_log ::
  "nat \<Rightarrow> 'e ext \<Rightarrow> string \<Rightarrow> 'e server \<Rightarrow> (int \<times> 'e server) option" where
  "fsync_from_log n E path s = do {
     (fb, s) \<leftarrow> fresh_block E PATH_MAX s;
     (lb, s) \<leftarrow> fresh_block E PATH_MAX s;
     r \<leftarrow> log_loop path 0 \<lparr>lp_loc = 0, lp_flag = 0, lp_offset = 0, lp_size = 0, lp_f_path = fb, lp_log_path = lb\<rparr>;
     (case r of
        None \<Rightarrow> Some (-1, s)
      | Some p \<Rightarrow> do {
          log_path \<leftarrow> cstr (lp_log_path p);
          (log_fp, s) \<leftarrow> ext_call (c_open E log_path 0 0) s;
          (blk, s) \<leftarrow> fresh_block E SERVER_INLINE_MAX s;
          ((ret, data), s) \<leftarrow> ext_call (c_pread E log_fp (word_of_int (lp_size p)) (word_of_int (lp_offset p))) s;
          blk \<leftarrow> memcpy blk 0 data (length data);
          if ret = -1 then Some (-1, s)
          else do {
            (_, s) \<leftarrow> ext_call (c_close E log_fp) s;
            f_path \<leftarrow> cstr (lp_f_path p);
            (fp, s) \<leftarrow> open_wait n E f_path s;
            guard (0 \<le> lp_size p \<and> lp_size p \<le> int SERVER_INLINE_MAX);
            (ret, s) \<leftarrow> ext_call (c_pwrite E fp (take (nat (lp_size p)) blk) 0) s;
            if ret = -1 then Some (-1, s)
            else do {
              (ret, s) \<leftarrow> ext_call (c_fsync E fp) s;
              if ret \<noteq> 0 then Some (-1, s)
              else do {
                (_, s) \<leftarrow> ext_call (c_close E fp) s;
                Some (0, s)
              }
            }
          }
        })
   }"

subsection \<open>The batch permissions of the clients\<close>

text \<open>
  The loop over \<open>sp_val\<close>: a character of a path goes to index \<open>pos\<close>, which is 0 all the time; behind
  a colon follows a mode of at most four characters that ends in \<open>d\<close> or \<open>f\<close>.
\<close>

definition put_sp_char :: "char \<Rightarrow> permission_info \<Rightarrow> permission_info option" where
  "put_sp_char c pi = do {
     row \<leftarrow> arr_get (sp_path pi) (int (sp_num pi));
     row \<leftarrow> poke row 0 c;
     rows \<leftarrow> arr_set (sp_path pi) (int (sp_num pi)) row;
     Some (pi\<lparr>sp_path := rows\<rparr>)
   }"

definition put_sp_mode :: "char \<Rightarrow> string \<Rightarrow> permission_info \<Rightarrow> permission_info option" where
  "put_sp_mode c mode pi = do {
     let m = word_of_int (atoi mode);
     dm \<leftarrow> arr_set (sp_dir_modes pi) (int (sp_num pi)) (if c = CHR ''d'' then m else 999);
     fm \<leftarrow> arr_set (sp_f_modes pi) (int (sp_num pi)) (if c = CHR ''d'' then 999 else m);
     Some (pi\<lparr>sp_dir_modes := dm, sp_f_modes := fm\<rparr>)
   }"

definition no_df :: "char \<Rightarrow> bool" where
  "no_df c \<longleftrightarrow> c \<noteq> CHR ''d'' \<and> c \<noteq> CHR ''f''"

function parse_sp :: "string \<Rightarrow> permission_info \<Rightarrow> permission_info option" where
  "parse_sp [] pi = Some pi"
| "parse_sp (c # r) pi =
     (if c \<noteq> CHR '':'' \<and> c \<noteq> CHR ''|'' then do { pi \<leftarrow> put_sp_char c pi; parse_sp r pi }
      else if c = CHR '':'' then
        (case dropWhile no_df r of
           [] \<Rightarrow> None
         | d # r' \<Rightarrow> do {
             mode \<leftarrow> sprintf_buf 5 (takeWhile no_df r);
             pi \<leftarrow> put_sp_mode d mode pi;
             parse_sp r' pi
           })
      else parse_sp r (pi\<lparr>sp_num := sp_num pi + 1\<rparr>))"
  by pat_completeness auto
termination
proof (relation "measure (\<lambda>(r, pi). length r)", goal_cases)
  case (3 c r pi d r' mode pi')
  then have "length (d # r') \<le> length r" using length_dropWhile_le [of no_df r] by metis
  then show ?case by simp
qed auto

text \<open>The first message the thread handles loads them; the file mode is read from the key of the directory mode.\<close>

definition load_permission :: "'e ext \<Rightarrow> 'e server \<Rightarrow> 'e server option" where
  "load_permission E s =
     (if sp_permission s = -1 then do {
        (dv, s) \<leftarrow> dmkv_get E (sv_kv s) ''nom_dir_mode'' s;
        (case dv of
           None \<Rightarrow> Some (s\<lparr>sp_permission := 0\<rparr>)
         | Some dv \<Rightarrow> do {
             d \<leftarrow> cstr dv;
             (fv, s) \<leftarrow> dmkv_get E (sv_kv s) ''nom_dir_mode'' s;
             fv \<leftarrow> fv;
             f \<leftarrow> cstr fv;
             (sv, s) \<leftarrow> dmkv_get E (sv_kv s) ''sp_path'' s;
             sv \<leftarrow> sv;
             sp_val \<leftarrow> cstr sv;
             pi \<leftarrow> parse_sp sp_val ((sp_info s)\<lparr>nom_dir_mode := word_of_int (atoi d),
               nom_f_mode := word_of_int (atoi f), sp_num := 0\<rparr>);
             Some (s\<lparr>sp_info := pi\<lparr>sp_num := sp_num pi + 1\<rparr>, sp_permission := 1\<rparr>)
           })
      }
      else Some s)"

subsection \<open>The operations of the queue\<close>

text \<open>
  \<open>for (pos = 0; i < removing_dirs.count-1; ++i) if (child_cmp (path, list[pos], 1) == 1) return 0;\<close>
  starts with \<open>i\<close> at the colon of the message and compares with the first entry each time.
\<close>

definition discard :: "string \<Rightarrow> 'e server \<Rightarrow> bool option" where
  "discard path s =
     (if rm_count s > 0 \<and> int (length path) < rm_count s - 1 then do {
        d \<leftarrow> arr_get (rm_list s) 0;
        Some (child_cmp_new path d 1 = 1)
      }
      else Some False)"

definition commit_mkdir :: "nat \<Rightarrow> 'e ext \<Rightarrow> string \<Rightarrow> 'e server \<Rightarrow> (int \<times> 'e server) option" where
  "commit_mkdir n E path s = do {
     d \<leftarrow> discard path s;
     if d then Some (0, s)
     else if sp_permission s = 0 \<or> sp_permission s = 1 then do {
       (ret, s) \<leftarrow> ext_call (c_mkdir E path S_DIR_MODE) s;
       if ret = -1 then do {
         (ret, s) \<leftarrow> retry_commit n E path 1 s;
         Some (if ret = -1 then -1 else 0, s)
       }
       else Some (0, s)
     }
     else Some (-1, s)
   }"

text \<open>After a retry \<open>fd\<close> is the result 0 of \<open>retry_commit\<close>, and that is what is closed.\<close>

definition commit_create :: "nat \<Rightarrow> 'e ext \<Rightarrow> string \<Rightarrow> 'e server \<Rightarrow> (int \<times> 'e server) option" where
  "commit_create n E path s = do {
     d \<leftarrow> discard path s;
     if d then Some (0, s)
     else if sp_permission s = 0 \<or> sp_permission s = 1 then do {
       (fd, s) \<leftarrow> ext_call (c_creat E path S_FILE_MODE) s;
       (fd, s) \<leftarrow> (if fd = -1 then retry_commit n E path 2 s else Some (fd, s));
       if fd = -1 then Some (-1, s)
       else do {
         (_, s) \<leftarrow> ext_call (c_close E fd) s;
         Some (0, s)
       }
     }
     else Some (-1, s)
   }"

definition commit_rm :: "nat \<Rightarrow> 'e ext \<Rightarrow> string \<Rightarrow> 'e server \<Rightarrow> (int \<times> 'e server) option" where
  "commit_rm n E path s = do {
     (val, s) \<leftarrow> dmkv_get E (sv_kv s) path s;
     if val = None then Some (0, s)
     else do {
       (ret, s) \<leftarrow> ext_call (c_remove E path) s;
       (ret, s) \<leftarrow> (if ret \<noteq> 0 then retry_commit n E path 3 s else Some (0, s));
       if ret = -1 then Some (-1, s)
       else do {
         (ret, s) \<leftarrow> dmkv_del E (sv_kv s) path s;
         Some (if ret \<noteq> 0 then -1 else 0, s)
       }
     }
   }"

definition commit_write :: "'e ext \<Rightarrow> string \<Rightarrow> 'e server \<Rightarrow> (int \<times> 'e server) option" where
  "commit_write E path s = do {
     (fd, s) \<leftarrow> ext_call (c_open E path O_RDWR 0) s;
     if fd < 0 then Some (0, s)
     else do {
       (val1, s) \<leftarrow> dmkv_get E (sv_kv s) path s;
       (case val1 of
          None \<Rightarrow> Some (0, s)
        | Some v \<Rightarrow> do {
            (blk, s) \<leftarrow> fresh_block E SERVER_INLINE_MAX s;
            (st1, inline_data1) \<leftarrow> server_deseri_inline_data E blk v;
            guard (unat (ps_size st1) \<le> length inline_data1);
            (ret, s) \<leftarrow> ext_call (c_pwrite E fd (take (unat (ps_size st1)) inline_data1) 0) s;
            (_, s) \<leftarrow> ext_call (c_close E fd) s;
            Some (if ret \<le> 0 then -1 else 0, s)
          })
     }
   }"

text \<open>
  The loop \<open>getoptc\<close>: the count of the operations that wait for the barrier is changed with
  compare-and-swap until that works.
\<close>

fun change_opt_count ::
  "nat \<Rightarrow> 'e ext \<Rightarrow> string \<Rightarrow> int \<Rightarrow> 'e server \<Rightarrow> (int \<times> 'e server) option" where
  "change_opt_count 0 E opt_key d s = None"
| "change_opt_count (Suc n) E opt_key d s = do {
     (g, s) \<leftarrow> dmkv_get_cas E (sv_kv_barrier s) opt_key s;
     (case g of
        None \<Rightarrow> change_opt_count n E opt_key d s
      | Some (val, cas) \<Rightarrow> do {
          t \<leftarrow> cstr val;
          let c = atoi t + d;
          new_val \<leftarrow> sprintf_buf PATH_MAX (show_int c);
          (ret, s) \<leftarrow> dmkv_cas E (sv_kv_barrier s) opt_key (new_val @ [NUL]) (length new_val) cas s;
          if ret \<noteq> 0 then change_opt_count n E opt_key d s else Some (c, s)
        })
   }"

text \<open>
  A barrier message of a client is \<open>opt_num|id\<close>; the number of the barrier is read behind the
  second character.
\<close>

definition barrier_slot :: "string \<Rightarrow> int" where
  "barrier_slot path = atoi (drop 2 path) - 1"

definition commit_barrier_mesg :: "nat \<Rightarrow> 'e ext \<Rightarrow> string \<Rightarrow> 'e server \<Rightarrow> (int \<times> 'e server) option" where
  "commit_barrier_mesg n E path s = do {
     guard (2 \<le> length path);
     (_, s) \<leftarrow>
       (if path ! 0 \<noteq> CHR ''0'' then do {
          opt_key \<leftarrow> barrier_key BARRIER_OPT_COUNT_KEY (barrier_slot path);
          change_opt_count n E opt_key (atoi (takeWhile (\<lambda>c. c \<noteq> CHR ''|'') path)) s
        }
        else Some (0, s));
     c \<leftarrow> arr_get (barrier_reach s) (barrier_slot path);
     br \<leftarrow> arr_set (barrier_reach s) (barrier_slot path) (c + 1);
     let s = s\<lparr>barrier_reach := br\<rparr>;
     if c + 1 = client_num s then do {
       b \<leftarrow> arr_set (barrier s) (barrier_slot path) 1;
       let s = s\<lparr>barrier := b\<rparr>;
       b_key \<leftarrow> barrier_key (local_ip s) (barrier_slot path);
       (ret, s) \<leftarrow> dmkv_set E (sv_kv s) b_key (''1'' @ [NUL]) 1 s;
       Some (if ret \<noteq> 0 then -1 else 0, s)
     }
     else Some (0, s)
   }"

text \<open>
  The switch. Rmdir, readdir, checkpoint, rename and flush set \<open>reach_barrier\<close> to 2 and wait until
  it is 0.
\<close>

definition commit_switch :: "nat \<Rightarrow> 'e ext \<Rightarrow> string \<Rightarrow> char \<Rightarrow> 'e server \<Rightarrow> (int wait \<times> 'e server) option" where
  "commit_switch n E path op s =
     (let ret = map_option (\<lambda>(r, s). (Ret r, s)) in
      if op = CHR ''1'' then ret (commit_mkdir n E path s)
      else if op = CHR ''2'' then ret (commit_create n E path s)
      else if op = CHR ''3'' then ret (commit_rm n E path s)
      else if op \<in> {CHR ''4'', CHR ''5'', CHR ''0'', CHR ''A'', CHR ''B''} then Some (Spin, s\<lparr>reach_barrier := 2\<rparr>)
      else if op = CHR ''6'' then Some (Ret 0, s)
      else if op = CHR ''7'' then ret (do {
        (r, s) \<leftarrow> fsync_from_log n E path s;
        Some (if r \<noteq> 0 then -1 else 0, s)
      })
      else if op = CHR ''8'' then ret (commit_write E path s)
      else if op = CHR ''9'' then ret (commit_barrier_mesg n E path s)
      else Some (Ret 0, s))"

text \<open>Before the switch the thread waits while the next barrier is up.\<close>

definition commit_to_fs :: "nat \<Rightarrow> 'e ext \<Rightarrow> string \<Rightarrow> 'e server \<Rightarrow> (int wait \<times> 'e server) option" where
  "commit_to_fs n E mesg s = do {
     guard (CHR '':'' \<in> set mesg \<and> length (mesg_path mesg) < PATH_MAX);
     s \<leftarrow> load_permission E s;
     w \<leftarrow> arr_get (barrier s) (waiting_barrier_id s);
     if w = 1 then Some (Spin, s)
     else commit_switch n E (mesg_path mesg) (mesg_op mesg) s
   }"

end
