(* ===== verification/Server_Barrier.thy ===== *)
theory Server_Barrier
  imports Server_Commit
begin

text \<open>
  The other two threads of \<open>server/pacon_server.c\<close>: the operations that need a barrier
  (\<open>commit_to_fs_barrier\<close> with the traversals it calls) and the messages between the servers
  (\<open>handle_cluster_mesg\<close>), the listeners, and the start of the server.
\<close>

subsection \<open>Barriers\<close>

text \<open>\<open>BARRIER\<close> is defined twice in \<open>pacon_server.c\<close>; the second definition, \<open>:8\<close>, holds.\<close>

definition barrier_mesg :: "u32 \<Rightarrow> string option" where
  "barrier_mesg timestamp = do {
     ts \<leftarrow> sprintf_buf TIMESTAMP_SIZE (show_int (sint timestamp));
     sprintf_buf (TIMESTAMP_SIZE + 3) ('':8'' @ ts)
   }"

definition broadcast_barrier_begin :: "'e ext \<Rightarrow> u32 \<Rightarrow> 'e server \<Rightarrow> (int wait \<times> 'e server) option" where
  "broadcast_barrier_begin E timestamp s = do {
     c_mesg \<leftarrow> barrier_mesg timestamp;
     (ret, s) \<leftarrow> server_broadcast E (sv_comm s) c_mesg s;
     if ret \<noteq> 0 then Some (Ret (-1), s)
     else if reach_barrier s \<noteq> 2 then Some (Spin, s\<lparr>reach_barrier := 1\<rparr>)
     else Some (Ret ret, s)
   }"

definition broadcast_barrier_end :: "'e ext \<Rightarrow> 'e server \<Rightarrow> (int \<times> 'e server) option" where
  "broadcast_barrier_end E s = do {
     (ret, s) \<leftarrow> server_broadcast E (sv_comm s) '':9'' s;
     if ret \<noteq> 0 then Some (-1, s)
     else Some (ret, s\<lparr>commit_barrier := 0, reach_barrier := 0, mesg_count := 0\<rparr>)
   }"

text \<open>The wait for one other node: its key gets a number other than 0.\<close>

fun wait_node :: "nat \<Rightarrow> 'e ext \<Rightarrow> string \<Rightarrow> 'e server \<Rightarrow> 'e server option" where
  "wait_node 0 E b_key s = None"
| "wait_node (Suc n) E b_key s = do {
     (val, s) \<leftarrow> dmkv_get E (sv_kv_barrier s) b_key s;
     (case val of
        None \<Rightarrow> wait_node n E b_key s
      | Some v \<Rightarrow> do {
          t \<leftarrow> cstr v;
          if atoi t = 0 then wait_node n E b_key s else Some s
        })
   }"

fun wait_nodes :: "nat \<Rightarrow> 'e ext \<Rightarrow> string list \<Rightarrow> int \<Rightarrow> 'e server \<Rightarrow> 'e server option" where
  "wait_nodes n E [] i s = Some s"
| "wait_nodes n E (node # rest) i s =
     (if node = local_ip s then wait_nodes n E rest i s
      else do {
        b_key \<leftarrow> barrier_key node i;
        s \<leftarrow> wait_node n E b_key s;
        wait_nodes n E rest i s
      })"

definition broadcast_barrier_begin_new ::
  "nat \<Rightarrow> 'e ext \<Rightarrow> int \<Rightarrow> 'e server \<Rightarrow> (int wait \<times> 'e server) option" where
  "broadcast_barrier_begin_new n E opt_barrier_id s = do {
     b \<leftarrow> arr_get (barrier s) opt_barrier_id;
     if b = 0 then Some (Spin, s)
     else do {
       let ci = c_info (sv_kv_barrier s);
       s \<leftarrow> wait_nodes n E (take (node_num ci) (node_list ci)) opt_barrier_id s;
       Some (Ret 0, s)
     }
   }"

fun reset_key :: "nat \<Rightarrow> 'e ext \<Rightarrow> string \<Rightarrow> 'e server \<Rightarrow> 'e server option" where
  "reset_key 0 E b_key s = None"
| "reset_key (Suc n) E b_key s = do {
     (ret, s) \<leftarrow> dmkv_set E (sv_kv_barrier s) b_key (''0'' @ [NUL]) 1 s;
     if ret \<noteq> 0 then reset_key n E b_key s else Some s
   }"

definition broadcast_barrier_end_new ::
  "nat \<Rightarrow> 'e ext \<Rightarrow> int \<Rightarrow> 'e server \<Rightarrow> (int \<times> 'e server) option" where
  "broadcast_barrier_end_new n E opt_barrier_id s = do {
     opt_key \<leftarrow> barrier_key BARRIER_OPT_COUNT_KEY opt_barrier_id;
     (c, s) \<leftarrow> change_opt_count n E opt_key (-1) s;
     if c = 0 then do {
       b \<leftarrow> arr_set (barrier s) opt_barrier_id 0;
       let s = s\<lparr>barrier := b\<rparr>;
       b_key \<leftarrow> barrier_key (local_ip s) opt_barrier_id;
       s \<leftarrow> reset_key n E b_key s;
       (_, s) \<leftarrow> server_broadcast E (sv_comm s) '':9'' s;
       Some (0, s\<lparr>waiting_barrier_id := waiting_barrier_id s + 1\<rparr>)
     }
     else Some (0, s)
   }"

definition broadcast_barrier_begin_async :: "'e ext \<Rightarrow> u32 \<Rightarrow> 'e server \<Rightarrow> (int \<times> 'e server) option" where
  "broadcast_barrier_begin_async E timestamp s = do {
     c_mesg \<leftarrow> barrier_mesg timestamp;
     (ret, s) \<leftarrow> server_broadcast E (sv_comm s) c_mesg s;
     Some (if ret \<noteq> 0 then -1 else ret, s)
   }"

definition broadcast_barrier_end_async :: "'e ext \<Rightarrow> 'e server \<Rightarrow> (int \<times> 'e server) option" where
  "broadcast_barrier_end_async E s = do {
     (ret, s) \<leftarrow> server_broadcast E (sv_comm s) '':9'' s;
     Some (if ret \<noteq> 0 then -1 else ret, s)
   }"

definition broadcast_wait_barrier :: "'e ext \<Rightarrow> 'e server \<Rightarrow> (int \<times> 'e server) option" where
  "broadcast_wait_barrier E s = do {
     (ret, s) \<leftarrow> server_broadcast E (sv_comm s) '':7'' s;
     Some (if ret \<noteq> 0 then -1 else ret, s)
   }"

subsection \<open>Traversals\<close>

text \<open>
  Each traversal is a loop over the entries of a directory with the call for a subdirectory as
  an argument, and the recursion over the depth. The loop gives false when the function returns
  in the middle.
\<close>

type_synonym 'e visit = "string \<Rightarrow> 'e server \<Rightarrow> 'e server option"

fun del_entries ::
  "'e visit \<Rightarrow> 'e ext \<Rightarrow> string \<Rightarrow> dirent list \<Rightarrow> 'e server \<Rightarrow> (bool \<times> 'e server) option" where
  "del_entries sub E path [] s = Some (True, s)"
| "del_entries sub E path (entry # rest) s =
     (if d_name entry = ''.'' \<or> d_name entry = ''..'' then del_entries sub E path rest s
      else do {
        dir_new \<leftarrow> entry_name path entry;
        (_, s) \<leftarrow> dmkv_del E (sv_kv_barrier s) dir_new s;
        if d_isdir entry then do {
          s \<leftarrow> sub dir_new s;
          del_entries sub E path rest s
        }
        else do {
          (ret, s) \<leftarrow> ext_call (c_remove E dir_new) s;
          if ret \<noteq> 0 then Some (False, s) else del_entries sub E path rest s
        }
      })"

fun traversedir_dmkv_del :: "nat \<Rightarrow> 'e ext \<Rightarrow> string \<Rightarrow> 'e server \<Rightarrow> 'e server option" where
  "traversedir_dmkv_del 0 E path s = None"
| "traversedir_dmkv_del (Suc n) E path s = do {
     (pd, s) \<leftarrow> ext_call (c_opendir E path) s;
     entries \<leftarrow> pd;
     (go, s) \<leftarrow> del_entries (traversedir_dmkv_del n E) E path entries s;
     if go then do {
       (_, s) \<leftarrow> ext_call (c_rmdir E path) s;
       Some s
     }
     else Some s
   }"

fun flush_cached ::
  "'e visit \<Rightarrow> 'e ext \<Rightarrow> string \<Rightarrow> dirent list \<Rightarrow> 'e server \<Rightarrow> 'e server option" where
  "flush_cached sub E path [] s = Some s"
| "flush_cached sub E path (entry # rest) s =
     (if d_name entry = ''.'' \<or> d_name entry = ''..'' then flush_cached sub E path rest s
      else do {
        dir_new \<leftarrow> entry_name path entry;
        (_, s) \<leftarrow> dmkv_del E (sv_kv_barrier s) dir_new s;
        s \<leftarrow> (if d_isdir entry then sub dir_new s else Some s);
        flush_cached sub E path rest s
      })"

fun traversedir_dmkv_flush :: "nat \<Rightarrow> 'e ext \<Rightarrow> string \<Rightarrow> 'e server \<Rightarrow> 'e server option" where
  "traversedir_dmkv_flush 0 E path s = None"
| "traversedir_dmkv_flush (Suc n) E path s = do {
     (pd, s) \<leftarrow> ext_call (c_opendir E path) s;
     entries \<leftarrow> pd;
     flush_cached (traversedir_dmkv_flush n E) E path entries s
   }"

text \<open>A child that is not cached makes \<open>dmkv_del\<close> fail and ends the traversal of its directory.\<close>

fun rename_entries ::
  "'e visit \<Rightarrow> 'e ext \<Rightarrow> string \<Rightarrow> dirent list \<Rightarrow> 'e server \<Rightarrow> 'e server option" where
  "rename_entries sub E oldpath [] s = Some s"
| "rename_entries sub E oldpath (entry # rest) s =
     (if d_name entry = ''.'' \<or> d_name entry = ''..'' then rename_entries sub E oldpath rest s
      else do {
        dir_new \<leftarrow> entry_name oldpath entry;
        (ret, s) \<leftarrow> dmkv_del E (sv_kv_barrier s) dir_new s;
        if ret \<noteq> 0 then Some s
        else do {
          s \<leftarrow> (if d_isdir entry then sub dir_new s else Some s);
          rename_entries sub E oldpath rest s
        }
      })"

fun traversedir_dmkv_rename :: "nat \<Rightarrow> 'e ext \<Rightarrow> string \<Rightarrow> 'e server \<Rightarrow> 'e server option" where
  "traversedir_dmkv_rename 0 E oldpath s = None"
| "traversedir_dmkv_rename (Suc n) E oldpath s = do {
     (pd, s) \<leftarrow> ext_call (c_opendir E oldpath) s;
     entries \<leftarrow> pd;
     rename_entries (traversedir_dmkv_rename n E) E oldpath entries s
   }"

subsection \<open>Rename and checkpoint\<close>

text \<open>
  The loop that takes \<open>old-new\<close> apart, into two blocks of \<open>PATH_MAX/2\<close> bytes; \<open>loc\<close> is the index
  of the last dash.
\<close>

fun split_joint :: "string \<Rightarrow> nat \<Rightarrow> nat \<Rightarrow> bytes \<Rightarrow> bytes \<Rightarrow> (bytes \<times> bytes) option" where
  "split_joint [] i loc old new = do {
     guard (loc + 1 \<le> i);
     new \<leftarrow> poke new (i - loc - 1) NUL;
     Some (old, new)
   }"
| "split_joint (c # r) i loc old new =
     (if loc = 0 \<and> c \<noteq> CHR ''-'' then do {
        old \<leftarrow> poke old i c;
        split_joint r (Suc i) loc old new
      }
      else if c = CHR ''-'' then do {
        old \<leftarrow> poke old i NUL;
        split_joint r (Suc i) i old new
      }
      else do {
        new \<leftarrow> poke new (i - loc - 1) c;
        split_joint r (Suc i) loc old new
      })"

definition rename_update_dc :: "nat \<Rightarrow> 'e ext \<Rightarrow> string \<Rightarrow> 'e server \<Rightarrow> 'e server option" where
  "rename_update_dc n E path s =
     (if length path \<le> 1 then Some s
      else do {
        (ob, s) \<leftarrow> fresh_block E (PATH_MAX div 2) s;
        (nb, s) \<leftarrow> fresh_block E (PATH_MAX div 2) s;
        (ob, nb) \<leftarrow> split_joint path 0 0 ob nb;
        oldpath \<leftarrow> cstr ob;
        newpath \<leftarrow> cstr nb;
        s \<leftarrow> traversedir_dmkv_rename n E oldpath s;
        (_, s) \<leftarrow> ext_call (c_rename E oldpath newpath) s;
        Some s
      })"

text \<open>\<open>checkpoint\<close> prints the commands with \<open>rm_head\<close> and \<open>head\<close>, which are of type \<open>char\<close>.\<close>

definition checkpoint :: "string \<Rightarrow> 'e server \<Rightarrow> 'e server option" where
  "checkpoint path s = do {
     i \<leftarrow> last_slash path (length path);
     cp_path \<leftarrow> sprintf_buf 128 (CHECKPOINT_PATH @ drop i path);
     rm_cmd \<leftarrow> (sprintf_bad_pointer :: string option);
     Some s
   }"

subsection \<open>The directories that are being removed\<close>

definition add_removing :: "string \<Rightarrow> 'e server \<Rightarrow> 'e server option" where
  "add_removing path s = do {
     l \<leftarrow> arr_set (rm_list s) (rm_count s) path;
     Some (s\<lparr>rm_list := l, rm_count := rm_count s + 1\<rparr>)
   }"

text \<open>The loop \<open>for (pos = count; pos > 0; --pos)\<close> up to the entry that is the same path.\<close>

fun find_removing :: "string list \<Rightarrow> nat \<Rightarrow> string \<Rightarrow> nat option" where
  "find_removing l 0 path = None"
| "find_removing l (Suc k) path =
     (if child_cmp_new (l ! k) path 1 = 2 then Some (Suc k) else find_removing l k path)"

text \<open>
  The last entry is copied to the free slot, and then the slot is emptied in both cases.
\<close>

definition del_removing :: "string \<Rightarrow> 'e server \<Rightarrow> 'e server option" where
  "del_removing path s = do {
     guard (rm_count s \<le> int (length (rm_list s)));
     (case find_removing (rm_list s) (nat (rm_count s)) path of
        None \<Rightarrow> Some s
      | Some pos \<Rightarrow> do {
          let l = (if int pos \<noteq> rm_count s then (rm_list s)[pos - 1 := rm_list s ! nat (rm_count s - 1)] else rm_list s);
          Some (s\<lparr>rm_list := l[pos - 1 := []], rm_count := rm_count s - 1\<rparr>)
        })
   }"

subsection \<open>Operations that need a barrier\<close>

definition rpc_op :: "string \<Rightarrow> char" where
  "rpc_op mesg = char_at (dropWhile (\<lambda>c. c \<noteq> CHR ''/'') mesg) (length (rpc_path mesg) + 1)"

text \<open>
  \<open>commit_to_fs_barrier\<close> up to the wait for the barrier. Without a number in front of the path
  \<open>barrier_id\<close> is never set.
\<close>

definition rpc_start :: "'e ext \<Rightarrow> string \<Rightarrow> 'e server \<Rightarrow> (int \<times> 'e server) option" where
  "rpc_start E mesg s = do {
     guard (CHR ''/'' \<in> set mesg \<and> CHR '':'' \<in> set (dropWhile (\<lambda>c. c \<noteq> CHR ''/'') mesg));
     (barrier_id, s) \<leftarrow>
       (if hd mesg \<noteq> CHR ''/'' then Some (rpc_barrier_id mesg, s)
        else do { (junk, s) \<leftarrow> ext_call (c_indet E) s; Some (sint junk, s) });
     if rpc_op mesg = CHR ''4'' then do {
       s \<leftarrow> add_removing (rpc_path mesg) s;
       c_mesg \<leftarrow> sprintf_buf (PATH_MAX + 3) (rpc_path mesg @ '':3'');
       (_, s) \<leftarrow> server_broadcast E (sv_comm s) c_mesg s;
       Some (barrier_id, s)
     }
     else Some (barrier_id, s)
   }"

text \<open>The switch: true when the function goes on, false for the return of -1.\<close>

definition rpc_switch :: "nat \<Rightarrow> 'e ext \<Rightarrow> string \<Rightarrow> char \<Rightarrow> 'e server \<Rightarrow> (bool \<times> 'e server) option" where
  "rpc_switch n E path op s =
     (let go = map_option (\<lambda>s. (True, s)) in
      if op = CHR ''4'' then go (traversedir_dmkv_del n E path s)
      else if op = CHR ''5'' then Some (True, s)
      else if op = CHR ''0'' then go (checkpoint path s)
      else if op = CHR ''A'' then go (rename_update_dc n E path s)
      else if op = CHR ''B'' then go (traversedir_dmkv_flush n E path s)
      else Some (False, s))"

definition rpc_finish :: "nat \<Rightarrow> 'e ext \<Rightarrow> string \<Rightarrow> char \<Rightarrow> int \<Rightarrow> 'e server \<Rightarrow> (int \<times> 'e server) option" where
  "rpc_finish n E path op barrier_id s = do {
     (go, s) \<leftarrow> rpc_switch n E path op s;
     if \<not> go then Some (-1, s)
     else do {
       s \<leftarrow>
         (if op = CHR ''4'' then do {
            s \<leftarrow> del_removing path s;
            c_mesg \<leftarrow> sprintf_buf (PATH_MAX + 3) (path @ '':4'');
            (_, s) \<leftarrow> server_broadcast E (sv_comm s) c_mesg s;
            Some s
          }
          else Some s);
       broadcast_barrier_end_new n E barrier_id s
     }
   }"

definition commit_to_fs_barrier :: "nat \<Rightarrow> 'e ext \<Rightarrow> string \<Rightarrow> 'e server \<Rightarrow> (int wait \<times> 'e server) option" where
  "commit_to_fs_barrier n E mesg s = do {
     (barrier_id, s) \<leftarrow> rpc_start E mesg s;
     (w, s) \<leftarrow> broadcast_barrier_begin_new n E barrier_id s;
     (case w of
        Spin \<Rightarrow> Some (Spin, s)
      | Ret ret \<Rightarrow>
          if ret \<noteq> 0 then Some (Ret (-1), s)
          else do {
            (ret, s) \<leftarrow> rpc_finish n E (rpc_path mesg) (rpc_op mesg) barrier_id s;
            Some (Ret ret, s)
          })
   }"

subsection \<open>Messages of other servers\<close>

text \<open>
  \<open>while (remote_reach_barrier == 0) { if (time (NULL) - timestamp >= 1) ... }\<close> of the two forms of
  the old barrier.
\<close>

fun reach_loop :: "nat \<Rightarrow> 'e ext \<Rightarrow> u32 \<Rightarrow> 'e server \<Rightarrow> 'e server option" where
  "reach_loop 0 E timestamp s = None"
| "reach_loop (Suc n) E timestamp s =
     (if remote_reach_barrier s \<noteq> 0 then Some s
      else do {
        (t, s) \<leftarrow> ext_call (c_time E) s;
        if int (unat t) - int (unat timestamp) \<ge> 1 then
          (if mesg_count s = 0 then reach_loop n E timestamp (s\<lparr>remote_reach_barrier := 1\<rparr>)
           else do {
             (t, s) \<leftarrow> ext_call (c_time E) s;
             reach_loop n E t (s\<lparr>mesg_count := 0\<rparr>)
           })
        else reach_loop n E timestamp s
      })"

text \<open>
  The messages \<open>:1\<close> and \<open>:2\<close> belong to the asynchronous rmdir: they use \<open>rmdir_record\<close>, which is not
  set when \<open>ASYNC_RPC\<close> is 0.
\<close>

definition handle_cluster_mesg :: "nat \<Rightarrow> 'e ext \<Rightarrow> string \<Rightarrow> 'e server \<Rightarrow> (int \<times> 'e server) option" where
  "handle_cluster_mesg n E mesg s = do {
     guard (CHR '':'' \<in> set mesg \<and> length (mesg_path mesg) < PATH_MAX);
     let path = mesg_path mesg;
     let op = mesg_op mesg;
     let timestamp = word_of_int (atoi (drop 2 mesg));
     if op = CHR ''1'' \<or> op = CHR ''2'' then None
     else if op = CHR ''3'' then map_option (\<lambda>s. (0, s)) (add_removing path s)
     else if op = CHR ''4'' then map_option (\<lambda>s. (0, s)) (del_removing path s)
     else if op = CHR ''6'' then
       (if timestamp = 0 then Some (-1, s) else Some (0, s\<lparr>commit_barrier := timestamp\<rparr>))
     else if op = CHR ''7'' then do {
       (junk, s) \<leftarrow> ext_call (c_indet E) s;
       s \<leftarrow> reach_loop n E junk s;
       Some (0, s)
     }
     else if op = CHR ''8'' then
       (if timestamp = 0 then Some (-1, s)
        else do {
          s \<leftarrow> reach_loop n E timestamp (s\<lparr>commit_barrier := timestamp\<rparr>);
          Some (0, s)
        })
     else if op = CHR ''9'' then do {
       b \<leftarrow> arr_set (barrier s) (waiting_barrier_id s) 0;
       Some (0, s\<lparr>barrier := b, waiting_barrier_id := waiting_barrier_id s + 1\<rparr>)
     }
     else Some (-1, s)
   }"

subsection \<open>The listeners\<close>

text \<open>
  One turn of the loop of a listener: receive into \<open>PATH_MAX\<close> bytes, end the string, handle it.
  \<open>None\<close> inside the result is a failed receive.
\<close>

definition recv_string :: "'e ext \<Rightarrow> nat \<Rightarrow> 'e server \<Rightarrow> (string option \<times> 'e server) option" where
  "recv_string E sock s = do {
     ((ms_size, data), s) \<leftarrow> ext_call (zmq_recv E sock PATH_MAX) s;
     if ms_size = -1 then Some (None, s)
     else do {
       guard (ms_size < int PATH_MAX);
       Some (Some (takeWhile (\<lambda>c. c \<noteq> NUL) (take (nat ms_size) data)), s)
     }
   }"

definition listen_commit_mq :: "nat \<Rightarrow> 'e ext \<Rightarrow> 'e server \<Rightarrow> (unit wait \<times> 'e server) option" where
  "listen_commit_mq n E s = do {
     (m, s) \<leftarrow> recv_string E (subscriber s) s;
     (case m of
        None \<Rightarrow> Some (Ret (), s)
      | Some mesg \<Rightarrow> do {
          (w, s) \<leftarrow> commit_to_fs n E mesg s;
          Some (case w of Spin \<Rightarrow> Spin | Ret _ \<Rightarrow> Ret (), s)
        })
   }"

definition rpc_reply :: "int \<Rightarrow> bytes" where
  "rpc_reply ret = (if ret = 0 then ''0'' else ''1'')"

definition listen_local_rpc :: "nat \<Rightarrow> 'e ext \<Rightarrow> 'e server \<Rightarrow> (unit wait \<times> 'e server) option" where
  "listen_local_rpc n E s = do {
     (m, s) \<leftarrow> recv_string E (local_rpc_rep s) s;
     (case m of
        None \<Rightarrow> Some (Ret (), s)
      | Some mesg \<Rightarrow> do {
          (w, s) \<leftarrow> commit_to_fs_barrier n E mesg s;
          (case w of
             Spin \<Rightarrow> Some (Spin, s)
           | Ret ret \<Rightarrow> do {
               (_, s) \<leftarrow> ext_call (zmq_send E (local_rpc_rep s) (rpc_reply ret)) s;
               Some (Ret (), s)
             })
        })
   }"

definition listen_cluster_rpc :: "nat \<Rightarrow> 'e ext \<Rightarrow> 'e server \<Rightarrow> (unit \<times> 'e server) option" where
  "listen_cluster_rpc n E s = do {
     (m, s) \<leftarrow> recv_string E (cluster_rpc_rep s) s;
     (case m of
        None \<Rightarrow> Some ((), s)
      | Some mesg \<Rightarrow> do {
          (ret, s) \<leftarrow> handle_cluster_mesg n E mesg s;
          (_, s) \<leftarrow> ext_call (zmq_send E (cluster_rpc_rep s) (rpc_reply ret)) s;
          Some ((), s)
        })
   }"

subsection \<open>Starting the server\<close>

text \<open>
  The loop of \<open>get_local_addr_cnum\<close>: it copies characters of the address to the same index of
  the 17 bytes of \<open>local_ip\<close> up to the colon, and gives the index of the colon.
\<close>

function cnum_scan :: "bytes \<Rightarrow> nat \<Rightarrow> bytes \<Rightarrow> (nat \<times> bytes) option" where
  "cnum_scan temp i ip =
     (if i < length temp then do {
        ip \<leftarrow> (if addr_char (temp ! i) then poke ip i (temp ! i) else Some ip);
        if temp ! i = CHR '':'' then do { ip \<leftarrow> poke ip i NUL; Some (i, ip) }
        else cnum_scan temp (Suc i) ip
      }
      else None)"
  by pat_completeness auto
termination
  by (relation "measure (\<lambda>(temp, i, ip). length temp - i)") auto

declare cnum_scan.simps [simp del]

definition get_local_addr_cnum :: "'e ext \<Rightarrow> 'e server \<Rightarrow> 'e server option" where
  "get_local_addr_cnum E s = do {
     (file, s) \<leftarrow> ext_call (c_fopen E ''../local_config'') s;
     (case file of
        None \<Rightarrow> Some s
      | Some text \<Rightarrow> do {
          (temp, s) \<leftarrow> read_line E text s;
          (i, ip) \<leftarrow> cnum_scan temp 0 (replicate 17 NUL);
          ip \<leftarrow> cstr ip;
          n \<leftarrow> cstr (drop (i + 1) temp);
          Some (s\<lparr>local_ip := ip, client_num := atoi n\<rparr>)
        })
   }"

text \<open>\<open>for (i = 0; i < BARRIER_ID_MAX; ++i) dmkv_set (kv_handle_for_barrier, "<prefix>.<i>", "0", 1);\<close>\<close>

fun init_keys :: "'e ext \<Rightarrow> string \<Rightarrow> nat \<Rightarrow> 'e server \<Rightarrow> 'e server option" where
  "init_keys E pre 0 s = Some s"
| "init_keys E pre (Suc k) s = do {
     s \<leftarrow> init_keys E pre k s;
     key \<leftarrow> barrier_key pre (int k);
     (_, s) \<leftarrow> dmkv_set E (sv_kv_barrier s) key (''0'' @ [NUL]) 1 s;
     Some s
   }"

definition start_pacon_server :: "'e ext \<Rightarrow> 'e server \<Rightarrow> (int \<times> 'e server) option" where
  "start_pacon_server E s = do {
     (kv, s) \<leftarrow> dmkv_init E (set_dmkv_config_type 0 1) s;
     (case kv of None \<Rightarrow> Some (-1, s) | Some kv \<Rightarrow> do {
       let s = s\<lparr>sv_kv := kv\<rparr>;
       (kv_b, s) \<leftarrow> dmkv_init E (set_dmkv_config_type 1 1) s;
       (case kv_b of None \<Rightarrow> Some (-1, s) | Some kv_b \<Rightarrow> do {
         let s = s\<lparr>sv_kv_barrier := kv_b\<rparr>;
         ((rc, sub), s) \<leftarrow> ext_call (zmq_bind E ''ipc:///run/pacon_commit'') s;
         if rc \<noteq> 0 then Some (-1, s) else do {
           let s = s\<lparr>subscriber := sub\<rparr>;
           ((rc, rep), s) \<leftarrow> ext_call (zmq_bind E ''tcp://127.0.0.1:5555'') s;
           if rc \<noteq> 0 then Some (-1, s) else do {
             let s = s\<lparr>local_rpc_rep := rep\<rparr>;
             (ip, s) \<leftarrow> get_local_addr E ''../local_config'' s;
             bind_addr \<leftarrow> sprintf_buf 64 (''tcp://'' @ ip @ '':12580'');
             ((rc, crep), s) \<leftarrow> ext_call (zmq_bind E bind_addr) s;
             if rc \<noteq> 0 then Some (-1, s) else do {
               (sc, s) \<leftarrow> setup_servers_comm E (s\<lparr>cluster_rpc_rep := crep\<rparr>);
               sc \<leftarrow> sc;
               let s = s\<lparr>sv_comm := sc, batch_dir_mode := S_DIR_MODE, batch_file_mode := S_FILE_MODE\<rparr>;
               s \<leftarrow> init_keys E BARRIER_OPT_COUNT_KEY BARRIER_ID_MAX s;
               s \<leftarrow> get_local_addr_cnum E s;
               s \<leftarrow> init_keys E ip BARRIER_ID_MAX s;
               Some (0, s\<lparr>barrier_reach := replicate BARRIER_ID_MAX 0, rm_count := 0,
                 rm_list := replicate BARRIER_ID_MAX []\<rparr>)
             }
           }
         }
       })
     })
   }"

end
