(* ===== verification/Server_Frame.thy ===== *)
theory Server_Frame
  imports Server_Barrier Frames
begin

text \<open>
  What the threads of a server keep. The locale \<open>server_inv\<close> takes a predicate on the server's
  state together with the laws that it survives the updates the code makes: of the fields that
  have nothing to do with barriers, of the flag and the counter of a barrier in the places where
  the code changes them. Inside the locale every function of the three threads keeps it.
\<close>

locale server_inv = env_stable P for P :: "'e server \<Rightarrow> bool" +
  assumes inv_perm: "P s \<Longrightarrow> P (s\<lparr>sp_permission := x\<rparr>)"
    and inv_info: "P s \<Longrightarrow> P (s\<lparr>sp_info := pi\<rparr>)"
    and inv_rm: "P s \<Longrightarrow> P (s\<lparr>rm_list := l, rm_count := c\<rparr>)"
    and inv_time: "P s \<Longrightarrow> P (s\<lparr>commit_barrier := t\<rparr>)"
    and inv_remote: "P s \<Longrightarrow> P (s\<lparr>remote_reach_barrier := x\<rparr>)"
    and inv_mesg: "P s \<Longrightarrow> P (s\<lparr>mesg_count := x\<rparr>)"
    and inv_wait: "P s \<Longrightarrow> P (s\<lparr>reach_barrier := 2\<rparr>)"
    and inv_next: "P s \<Longrightarrow> P (s\<lparr>waiting_barrier_id := w\<rparr>)"
    and inv_clear: "P s \<Longrightarrow> arr_set (barrier s) i 0 = Some b \<Longrightarrow> P (s\<lparr>barrier := b\<rparr>)"
    and inv_count: "P s \<Longrightarrow> arr_get (barrier_reach s) i = Some k \<Longrightarrow> arr_set (barrier_reach s) i (k + 1) = Some br \<Longrightarrow>
      P (s\<lparr>barrier_reach := br\<rparr>)"
    and inv_raise: "P s \<Longrightarrow> arr_get (barrier_reach s) i = Some (client_num s) \<Longrightarrow> arr_set (barrier s) i 1 = Some b \<Longrightarrow>
      P (s\<lparr>barrier := b\<rparr>)"
begin

subsection \<open>The commit thread\<close>

lemma sv_retry [lands_intros]: "P s \<Longrightarrow> lands P (retry_commit n E path ty s)"
  by (induction n arbitrary: s) (simp_all only: retry_commit.simps, (intro lands_intros; assumption)+)

lemma sv_open_wait [lands_intros]: "P s \<Longrightarrow> lands P (open_wait n E path s)"
  by (induction n arbitrary: s) (simp_all, intro lands_intros; assumption)+

lemma sv_fsync [lands_intros]: "P s \<Longrightarrow> lands P (fsync_from_log n E path s)"
  unfolding fsync_from_log_def by (intro lands_intros; assumption)

lemma sv_load_permission [lands_intros]: "P s \<Longrightarrow> arrives P (load_permission E s)"
  unfolding load_permission_def by (intro lands_intros inv_perm inv_info; assumption)

lemma sv_commit_mkdir [lands_intros]: "P s \<Longrightarrow> lands P (commit_mkdir n E path s)"
  unfolding commit_mkdir_def by (intro lands_intros; assumption)

lemma sv_commit_create [lands_intros]: "P s \<Longrightarrow> lands P (commit_create n E path s)"
  unfolding commit_create_def by (intro lands_intros; assumption)

lemma sv_commit_rm [lands_intros]: "P s \<Longrightarrow> lands P (commit_rm n E path s)"
  unfolding commit_rm_def by (intro lands_intros; assumption)

lemma sv_commit_write [lands_intros]: "P s \<Longrightarrow> lands P (commit_write E path s)"
  unfolding commit_write_def by (intro lands_intros; assumption)

lemma sv_change_count [lands_intros]: "P s \<Longrightarrow> lands P (change_opt_count n E opt_key d s)"
  by (induction n arbitrary: s) (simp_all, intro lands_intros; assumption)+

lemma inv_last:
  assumes "P s" "arr_get (barrier_reach s) i = Some k" "arr_set (barrier_reach s) i (k + 1) = Some br"
    "k + 1 = client_num s" "arr_set (barrier s) i 1 = Some b"
  shows "P (s\<lparr>barrier_reach := br, barrier := b\<rparr>)"
  using inv_raise [OF inv_count [OF assms(1-3)], of i b] assms arr_get_set [OF assms(3), of i] by simp

lemma sv_commit_barrier [lands_intros]: "P s \<Longrightarrow> lands P (commit_barrier_mesg n E path s)"
  unfolding commit_barrier_mesg_def
  by (intro lands_intros; (assumption)?) (auto intro: inv_last inv_count)

lemma sv_commit_switch [lands_intros]: "P s \<Longrightarrow> lands P (commit_switch n E path op s)"
  unfolding commit_switch_def by (intro lands_intros inv_wait; assumption)

lemma sv_commit [lands_intros]: "P s \<Longrightarrow> lands P (commit_to_fs n E mesg s)"
  unfolding commit_to_fs_def by (intro lands_intros; assumption)

subsection \<open>The local rpc thread\<close>

lemma sv_broadcast_to [lands_intros]: "P s \<Longrightarrow> lands P (broadcast_to E mqs mesg s)"
proof (induction mqs arbitrary: s)
  case Nil
  then show ?case by (simp add: lands_Some)
next
  case (Cons q mqs)
  then show ?case by (cases q) (simp_all only: broadcast_to.simps, (intro lands_intros; assumption)+)
qed

lemma sv_broadcast [lands_intros]: "P s \<Longrightarrow> lands P (server_broadcast E c mesg s)"
  unfolding server_broadcast_def by (intro lands_intros; assumption)

lemma sv_wait_node [lands_intros]: "P s \<Longrightarrow> arrives P (wait_node n E b_key s)"
  by (induction n arbitrary: s) (simp_all only: wait_node.simps, (intro lands_intros; assumption)+)

lemma sv_wait_nodes [lands_intros]: "P s \<Longrightarrow> arrives P (wait_nodes n E nodes i s)"
  by (induction nodes arbitrary: s) (simp_all only: wait_nodes.simps, (intro lands_intros; assumption)+)

lemma sv_begin_new [lands_intros]: "P s \<Longrightarrow> lands P (broadcast_barrier_begin_new n E i s)"
  unfolding broadcast_barrier_begin_new_def by (intro lands_intros; assumption)

lemma sv_reset_key [lands_intros]: "P s \<Longrightarrow> arrives P (reset_key n E b_key s)"
  by (induction n arbitrary: s) (simp_all only: reset_key.simps, (intro lands_intros; assumption)+)

lemma sv_end_new [lands_intros]: "P s \<Longrightarrow> lands P (broadcast_barrier_end_new n E i s)"
  unfolding broadcast_barrier_end_new_def by (intro lands_intros inv_next inv_clear; assumption)

lemma sv_del_entries:
  assumes "\<And>d s. P s \<Longrightarrow> arrives P (sub d s)"
  shows "P s \<Longrightarrow> lands P (del_entries sub E path es s)"
  by (induction es arbitrary: s) (simp_all only: del_entries.simps, (intro lands_intros assms; assumption)+)

lemma sv_traverse_del [lands_intros]: "P s \<Longrightarrow> arrives P (traversedir_dmkv_del n E path s)"
  by (induction n arbitrary: path s)
     (simp_all only: traversedir_dmkv_del.simps, (intro lands_intros sv_del_entries; assumption)+)

lemma sv_flush_cached:
  assumes "\<And>d s. P s \<Longrightarrow> arrives P (sub d s)"
  shows "P s \<Longrightarrow> arrives P (flush_cached sub E path es s)"
  by (induction es arbitrary: s) (simp_all only: flush_cached.simps, (intro lands_intros assms; assumption)+)

lemma sv_traverse_flush [lands_intros]: "P s \<Longrightarrow> arrives P (traversedir_dmkv_flush n E path s)"
  by (induction n arbitrary: path s)
     (simp_all only: traversedir_dmkv_flush.simps, (intro lands_intros sv_flush_cached; assumption)+)

lemma sv_rename_entries:
  assumes "\<And>d s. P s \<Longrightarrow> arrives P (sub d s)"
  shows "P s \<Longrightarrow> arrives P (rename_entries sub E path es s)"
  by (induction es arbitrary: s) (simp_all only: rename_entries.simps, (intro lands_intros assms; assumption)+)

lemma sv_traverse_rename [lands_intros]: "P s \<Longrightarrow> arrives P (traversedir_dmkv_rename n E path s)"
  by (induction n arbitrary: path s)
     (simp_all only: traversedir_dmkv_rename.simps, (intro lands_intros sv_rename_entries; assumption)+)

lemma sv_rename [lands_intros]: "P s \<Longrightarrow> arrives P (rename_update_dc n E path s)"
  unfolding rename_update_dc_def by (intro lands_intros; assumption)

lemma sv_checkpoint [lands_intros]: "P s \<Longrightarrow> arrives P (checkpoint path s)"
  unfolding checkpoint_def by (intro lands_intros; assumption)

lemma sv_add_removing [lands_intros]: "P s \<Longrightarrow> arrives P (add_removing path s)"
  unfolding add_removing_def by (intro lands_intros inv_rm; assumption)

lemma sv_del_removing [lands_intros]: "P s \<Longrightarrow> arrives P (del_removing path s)"
  unfolding del_removing_def by (intro lands_intros inv_rm; assumption)

lemma sv_rpc_start [lands_intros]: "P s \<Longrightarrow> lands P (rpc_start E mesg s)"
  unfolding rpc_start_def by (intro lands_intros; assumption)

lemma sv_rpc_switch [lands_intros]: "P s \<Longrightarrow> lands P (rpc_switch n E path op s)"
  unfolding rpc_switch_def by (intro lands_intros; assumption)

lemma sv_rpc_finish [lands_intros]: "P s \<Longrightarrow> lands P (rpc_finish n E path op i s)"
  unfolding rpc_finish_def by (intro lands_intros; assumption)

subsection \<open>The cluster rpc thread\<close>

lemma sv_reach_loop [lands_intros]: "P s \<Longrightarrow> arrives P (reach_loop n E t s)"
proof (induction n arbitrary: t s)
  case 0
  then show ?case by (simp add: arrives_None)
next
  case (Suc n)
  show ?case unfolding reach_loop.simps by (intro lands_intros Suc.IH inv_remote inv_mesg Suc.prems; assumption)
qed

lemma sv_cluster [lands_intros]: "P s \<Longrightarrow> lands P (handle_cluster_mesg n E mesg s)"
  unfolding handle_cluster_mesg_def
  by (intro lands_intros inv_time inv_next inv_clear; assumption)

end

end
