(* ===== verification/Server_Threads.thy ===== *)
theory Server_Threads
  imports Server_Frame
begin

text \<open>
  The three threads that \<open>main\<close> of \<open>pacon_server.c\<close> starts, as a step relation on the state of the
  server and the places where the commit thread and the local rpc thread can wait. A step is a
  piece of code between two waits; the pieces of different threads interleave. Between two steps
  the outside world (other servers, clients, the file system) may change in any way.
\<close>

subsection \<open>Steps\<close>

datatype commit_pc = CIdle | CGate string | CReach
datatype rpc_pc = RIdle | RWait string int

type_synonym 'e threads = "commit_pc \<times> rpc_pc \<times> 'e server"

inductive server_step :: "nat \<Rightarrow> 'e ext \<Rightarrow> 'e threads \<Rightarrow> 'e threads \<Rightarrow> bool"
  for n :: nat and E :: "'e ext" where
  commit_recv: "CHR '':'' \<in> set mesg \<Longrightarrow> length (mesg_path mesg) < PATH_MAX \<Longrightarrow> load_permission E s = Some s' \<Longrightarrow>
    server_step n E (CIdle, r, s) (CGate mesg, r, s')"
| commit_done: "arr_get (barrier s) (waiting_barrier_id s) = Some w \<Longrightarrow> w \<noteq> 1 \<Longrightarrow>
    commit_switch n E (mesg_path mesg) (mesg_op mesg) s = Some (Ret v, s') \<Longrightarrow>
    server_step n E (CGate mesg, r, s) (CIdle, r, s')"
| commit_spin: "arr_get (barrier s) (waiting_barrier_id s) = Some w \<Longrightarrow> w \<noteq> 1 \<Longrightarrow>
    commit_switch n E (mesg_path mesg) (mesg_op mesg) s = Some (Spin, s') \<Longrightarrow>
    server_step n E (CGate mesg, r, s) (CReach, r, s')"
| commit_reached: "reach_barrier s = 0 \<Longrightarrow> server_step n E (CReach, r, s) (CIdle, r, s)"
| rpc_recv: "rpc_start E mesg s = Some (i, s') \<Longrightarrow> server_step n E (c, RIdle, s) (c, RWait mesg i, s')"
| rpc_run: "broadcast_barrier_begin_new n E i s = Some (Ret v, s1) \<Longrightarrow>
    rpc_finish n E (rpc_path mesg) (rpc_op mesg) i s1 = Some (x, s2) \<Longrightarrow>
    server_step n E (c, RWait mesg i, s) (c, RIdle, s2)"
| cluster: "handle_cluster_mesg n E mesg s = Some (v, s') \<Longrightarrow> server_step n E (c, r, s) (c, r, s')"
| outside: "server_step n E (c, r, s) (c, r, s\<lparr>env := e\<rparr>)"

inductive_cases commit_reachE: "server_step n E (CReach, r, s) t"
inductive_cases rpc_waitE: "server_step n E (c, RWait mesg i, s) (c', RIdle, s')"

definition server_runs :: "nat \<Rightarrow> 'e ext \<Rightarrow> 'e threads \<Rightarrow> 'e threads \<Rightarrow> bool" where
  "server_runs n E = (server_step n E)\<^sup>*\<^sup>*"

text \<open>A turn of the commit thread in \<open>server_step\<close> is a call of \<open>commit_to_fs\<close>.\<close>

lemma commit_turn:
  assumes "commit_to_fs n E mesg s = Some (Ret v, s')"
  shows "server_runs n E (CIdle, r, s) (CIdle, r, s')"
proof -
  from assms obtain s1 w where g: "CHR '':'' \<in> set mesg" "length (mesg_path mesg) < PATH_MAX"
    and l: "load_permission E s = Some s1" and w: "arr_get (barrier s1) (waiting_barrier_id s1) = Some w" "w \<noteq> 1"
    and c: "commit_switch n E (mesg_path mesg) (mesg_op mesg) s1 = Some (Ret v, s')"
    by (auto simp: commit_to_fs_def bind_eq_Some_conv split: if_splits)
  have "server_step n E (CIdle, r, s) (CGate mesg, r, s1)" using g l by (rule commit_recv)
  moreover have "server_step n E (CGate mesg, r, s1) (CIdle, r, s')" using w c by (rule commit_done)
  ultimately show ?thesis by (auto simp: server_runs_def)
qed

subsection \<open>Invariants\<close>

context server_inv
begin

lemma step_keeps:
  assumes "server_step n E x y" "P (snd (snd x))" shows "P (snd (snd y))"
  using assms
proof (induction rule: server_step.induct)
  case (commit_recv mesg s s' r)
  then show ?case using sv_load_permission [of s E] by (auto dest: arrivesD)
next
  case (commit_done s w mesg v s' r)
  then show ?case using sv_commit_switch [of s n E "mesg_path mesg" "mesg_op mesg"] by (auto dest: landsD)
next
  case (commit_spin s w mesg s' r)
  then show ?case using sv_commit_switch [of s n E "mesg_path mesg" "mesg_op mesg"] by (auto dest: landsD)
next
  case (rpc_recv mesg s i s' c)
  then show ?case using sv_rpc_start [of s E mesg] by (auto dest: landsD)
next
  case (rpc_run i s v s1 mesg x s2 c)
  then have "P s1" using sv_begin_new [of s n E i] by (auto dest: landsD)
  with rpc_run show ?case using sv_rpc_finish [of s1 n E "rpc_path mesg" "rpc_op mesg" i] by (auto dest: landsD)
next
  case (cluster mesg s v s' c r)
  then show ?case using sv_cluster [of s n E mesg] by (auto dest: landsD)
next
  case (outside c r s e)
  then show ?case by (simp add: env_stable)
qed simp

lemma runs_keep:
  assumes "server_runs n E x y" "P (snd (snd x))" shows "P (snd (snd y))"
  using assms(1) unfolding server_runs_def
  by (induction rule: rtranclp_induct) (auto intro: step_keeps assms(2))

end

text \<open>
  The flag of a barrier is 0, or it is 1 and at least as many barrier messages of that number
  have been counted as there are clients.
\<close>

definition barrier_ok :: "int \<Rightarrow> 'e server \<Rightarrow> bool" where
  "barrier_ok N s \<longleftrightarrow> client_num s = N \<and>
     (\<forall>i b. arr_get (barrier s) i = Some b \<longrightarrow> b = 0 \<or> (b = 1 \<and> (\<exists>k. arr_get (barrier_reach s) i = Some k \<and> N \<le> k)))"

interpretation counted: server_inv "barrier_ok N" for N
proof (unfold_locales, goal_cases)
  case (10 s i b)
  then show ?case unfolding barrier_ok_def by (fastforce simp: arr_get_set split: if_splits)
next
  case (11 s i k br)
  then show ?case unfolding barrier_ok_def by (fastforce simp: arr_get_set split: if_splits)
next
  case (12 s i b)
  then show ?case unfolding barrier_ok_def by (fastforce simp: arr_get_set split: if_splits)
qed (auto simp: barrier_ok_def)

text \<open>Once \<open>reach_barrier\<close> is 2 no thread ever changes it.\<close>

interpretation stuck: server_inv "\<lambda>s. reach_barrier s = 2"
  by unfold_locales auto

lemma reach_stays:
  assumes "server_step n E (CReach, r, s) (c', r', s')" "reach_barrier s = 2" shows "c' = CReach"
  using assms by (auto elim: commit_reachE)

end
