(* ===== verification/Server_Thms.thy ===== *)
theory Server_Thms
  imports Server_Threads Reference_Env
begin

text \<open>
  Correctness of the server: what a committed operation does to the file system and to the cache,
  when the commit thread does not return, and when barrier operations run.
\<close>

subsection \<open>One message\<close>

text \<open>The thread gets to the switch: the permissions are loaded and the next barrier is down.\<close>

definition ready :: "'e server \<Rightarrow> bool" where
  "ready s \<longleftrightarrow> (sp_permission s = 0 \<or> sp_permission s = 1) \<and>
     (\<exists>w. arr_get (barrier s) (waiting_barrier_id s) = Some w \<and> w \<noteq> 1)"

lemma commit_ready:
  assumes "ready s" "CHR '':'' \<notin> set path" "length path < PATH_MAX"
  shows "commit_to_fs n E (path @ opt_str opt @ show_int (sint (t :: u32))) s = commit_switch n E path (opt_char opt) s"
  using assms mesg_parts [OF assms(2) refl, of opt t]
  by (auto simp: ready_def commit_to_fs_def load_permission_def opt_str_def)

lemma discard_few: "rm_count s \<le> int (length path) + 1 \<Longrightarrow> discard path s = Some False"
  by (simp add: discard_def)

context server_env
begin

lemma retry_mkdir_existing: "files (env s) path \<noteq> None \<Longrightarrow> retry_commit n E path 1 s = None"
proof (induction n arbitrary: s)
  case 0
  then show ?case by simp
next
  case (Suc n)
  then show ?case using mkdir_existing [OF Suc.prems, of "batch_dir_mode s"] by (simp add: ext_call_eq)
qed

lemma retry_remove_missing: "files (env s) path = None \<Longrightarrow> retry_commit n E path 3 s = None"
proof (induction n arbitrary: s)
  case 0
  then show ?case by simp
next
  case (Suc n)
  then show ?case using remove_missing [OF Suc.prems] by (simp add: ext_call_eq)
qed

lemma commit_create_run:
  assumes "ready s" "discard path s = Some False" "files (env s) path \<noteq> Some FDir" "can_make (files (env s)) path"
  shows "\<exists>e. commit_create n E path s = Some (0, s\<lparr>env := e\<rparr>) \<and>
    files e = (files (env s))(path \<mapsto> FFile []) \<and> items e = items (env s)"
  using assms creat_file [OF assms(3,4), of S_FILE_MODE]
  by (auto simp: commit_create_def ready_def ext_call_eq)

lemma commit_mkdir_run:
  assumes "ready s" "discard path s = Some False" "files (env s) path = None" "can_make (files (env s)) path"
  shows "\<exists>e. commit_mkdir n E path s = Some (0, s\<lparr>env := e\<rparr>) \<and>
    files e = (files (env s))(path \<mapsto> FDir) \<and> items e = items (env s)"
  using assms mkdir_missing [OF assms(3,4), of S_DIR_MODE]
  by (auto simp: commit_mkdir_def ready_def ext_call_eq)

lemma commit_mkdir_existing:
  assumes "ready s" "discard path s = Some False" "files (env s) path \<noteq> None"
  shows "commit_mkdir n E path s = None"
  using assms mkdir_existing [OF assms(3), of S_DIR_MODE] retry_mkdir_existing
  by (auto simp: commit_mkdir_def ready_def ext_call_eq)

lemma commit_rm_run:
  assumes "path \<noteq> []" "norm_key path = path" "items (env s) (memc (sv_kv s)) path = Some i"
    "files (env s) path = Some (FFile b)"
  shows "\<exists>e. commit_rm n E path s = Some (0, s\<lparr>env := e\<rparr>) \<and>
    files e = (files (env s))(path := None) \<and> items e = del_item (memc (sv_kv s)) path (items (env s))"
proof -
  let ?m = "memc (sv_kv s)"
  let ?e1 = "snd (memcached_get E ?m path (env s))"
  let ?e2 = "snd (c_remove E path ?e1)"
  have f: "files ?e1 path = Some (FFile b)" using assms(4) by simp
  have i: "items ?e2 ?m path = Some i" using assms(3) by simp
  have "commit_rm n E path s = Some (0, s\<lparr>env := snd (memcached_delete E ?m path ?e2)\<rparr>)"
    using assms i remove_file [OF f] dmkv_del_run [of path "sv_kv s" "s\<lparr>env := ?e2\<rparr>"]
    by (simp add: commit_rm_def dmkv_get_run ext_call_eq)
  moreover have "items (snd (memcached_delete E ?m path ?e2)) = del_item ?m path (items (env s))"
    using dmkv_del_run [of path "sv_kv s" "s\<lparr>env := ?e2\<rparr>"] assms(1,2) by simp
  moreover have "files (snd (memcached_delete E ?m path ?e2)) = (files (env s))(path := None)"
    using remove_file [OF f] by simp
  ultimately show ?thesis by blast
qed

lemma commit_rm_missing:
  assumes "path \<noteq> []" "norm_key path = path" "items (env s) (memc (sv_kv s)) path = Some i" "files (env s) path = None"
  shows "commit_rm n E path s = None"
proof -
  have f: "files (snd (memcached_get E (memc (sv_kv s)) path (env s))) path = None" using assms(4) by simp
  show ?thesis using assms remove_missing [OF f] retry_remove_missing by (simp add: commit_rm_def dmkv_get_run ext_call_eq)
qed

end

subsection \<open>A server on the reference environment\<close>

definition ref_server :: "ref_env \<Rightarrow> ref_env server" where
  "ref_server e = \<lparr>env = e, sv_kv = ref_kv, sv_kv_barrier = ref_kv,
     sv_comm = \<lparr>servers_num = 1, server_list = [''10.0.0.1''], server_mq = [None]\<rparr>,
     batch_dir_mode = S_DIR_MODE, batch_file_mode = S_FILE_MODE, rm_count = 0, rm_list = replicate 8 [],
     sp_permission = 0, sp_info = \<lparr>nom_dir_mode = 0, nom_f_mode = 0, sp_num = 0, sp_path = [], sp_dir_modes = [], sp_f_modes = []\<rparr>,
     client_num = 2, waiting_barrier_id = 0, barrier = replicate 8 0, barrier_reach = replicate 8 0, local_ip = ''10.0.0.1'',
     reach_barrier = 0, remote_reach_barrier = 0, commit_barrier = 0, mesg_count = 0,
     subscriber = 3, local_rpc_rep = 4, cluster_rpc_rep = 5\<rparr>"

lemma ref_ready: "ready (ref_server e)"
  by (simp add: ready_def ref_server_def arr_get_def)

lemma ref_discard: "discard path (ref_server e) = Some False"
  by (simp add: discard_few ref_server_def)

lemma ref_parent_a: "ref_parent_dir ''/w/a'' = ''/w''"
  by (simp add: ref_parent_dir_def)

definition ref_env_file :: ref_env where
  "ref_env_file = ref_env0\<lparr>r_fs := [''/w'' \<mapsto> FDir, ''/w/a'' \<mapsto> FFile []],
     r_items := put_item [''10.0.0.1''] ''/w/a'' (''x'', 1) (\<lambda>_. Map.empty)\<rparr>"

lemma ref_file_facts:
  "env (ref_server e) = e" "memc (sv_kv (ref_server e)) = [''10.0.0.1'']"
  "r_fs ref_env0 ''/w/a'' = None" "r_fs ref_env0 ''/w'' = Some FDir" "r_fs ref_env_file ''/w/a'' = Some (FFile [])"
  "r_items ref_env_file [''10.0.0.1''] ''/w/a'' = Some (''x'', 1)"
  by (simp_all add: ref_server_def ref_kv_def ref_env0_def ref_env_file_def)

subsection \<open>Properties\<close>

text \<open>
  C34: A MKDIR message for a path that already exists on the file system is never finished: however
  long \<open>retry_commit\<close> goes on, \<open>mkdir\<close> fails, and the commit thread handles no further message.
\<close>

theorem commit_mkdir_existing_never_returns:
  assumes "server_env E items files can_make" "ready s" "CHR '':'' \<notin> set path" "length path < PATH_MAX"
    "discard path s = Some False" "files (env s) path \<noteq> None"
  shows "commit_to_fs n E (path @ opt_str MKDIR @ show_int (sint (t :: u32))) s = None"
  using server_env.commit_mkdir_existing [OF assms(1,2,5,6), of n] commit_ready [OF assms(2,3,4), of n E MKDIR t]
  by (simp add: commit_switch_def)

theorem commit_mkdir_existing_never_returns_witness:
  "commit_to_fs 7 ref_ext (''/w'' @ opt_str MKDIR @ show_int (sint (9 :: u32))) (ref_server ref_env0) = None"
  using commit_mkdir_existing_never_returns [OF ref.server_env_axioms ref_ready _ _ ref_discard, of "''/w''" ref_env0 7 9]
  by (simp add: ref_file_facts PATH_MAX_def)

text \<open>
  C27: A READDIR, RMDIR, CHECKPOINT, RENAME or FLUSHDIR message in the commit queue (\<open>flush_dir\<close> of
  the client sends the last one) stops the commit thread for good: it waits for \<open>reach_barrier\<close> to
  become 0, and in no state that the three threads can reach from there, whatever the outside
  world does, has it left the wait.
\<close>

theorem commit_thread_stuck_forever:
  assumes "ready s" "CHR '':'' \<notin> set path" "length path < PATH_MAX"
    "opt \<in> {RMDIR, READDIR, CHECKPOINT, RENAME, FLUSHDIR}"
  shows "\<exists>s1. commit_to_fs n E (path @ opt_str opt @ show_int (sint (t :: u32))) s = Some (Spin, s1) \<and>
    (\<forall>c' r' s'. server_runs n E (CReach, r, s1) (c', r', s') \<longrightarrow> c' = CReach)"
proof (intro exI conjI allI impI)
  let ?s1 = "s\<lparr>reach_barrier := 2\<rparr>"
  show "commit_to_fs n E (path @ opt_str opt @ show_int (sint t)) s = Some (Spin, ?s1)"
    using assms(4) commit_ready [OF assms(1-3), of n E opt t] by (auto simp: commit_switch_def)
  fix c' r' s' assume "server_runs n E (CReach, r, ?s1) (c', r', s')"
  then have "fst (c', r', s') = CReach \<and> reach_barrier (snd (snd (c', r', s'))) = 2"
    unfolding server_runs_def
  proof (induction rule: rtranclp_induct)
    case (step y z)
    moreover obtain c r s where "y = (c, r, s)" by (cases y)
    moreover obtain c2 r2 s2 where "z = (c2, r2, s2)" by (cases z)
    ultimately show ?case using stuck.step_keeps [OF step.hyps(2)] reach_stays by fastforce
  qed simp
  then show "c' = CReach" by simp
qed

theorem commit_thread_stuck_forever_witness:
  "\<exists>s1. commit_to_fs 1 ref_ext (''/w/a'' @ opt_str FLUSHDIR @ show_int (sint (9 :: u32))) (ref_server ref_env0) = Some (Spin, s1) \<and>
    (\<forall>c' r' s'. server_runs 1 ref_ext (CReach, RIdle, s1) (c', r', s') \<longrightarrow> c' = CReach)"
  using commit_thread_stuck_forever [OF ref_ready, of "''/w/a''" FLUSHDIR 1 ref_ext 9 ref_env0 RIdle]
  by (simp add: PATH_MAX_def)

text \<open>
  C3: A barrier operation of a client (rmdir, readdir, rename, ...) is carried out only after every
  client of the node has sent its barrier message with that number: in every state that the
  threads reach from a start with all barriers down, when the wait of
  \<open>broadcast_barrier_begin_new\<close> is over, at least \<open>client_num\<close> messages have been counted.
\<close>

theorem barrier_operation_after_all_clients:
  assumes "server_runs n E (CIdle, RIdle, s0) (c, RWait mesg i, s)"
    "\<forall>j b. arr_get (barrier s0) j = Some b \<longrightarrow> b = 0"
    "broadcast_barrier_begin_new n E i s = Some (Ret v, s1)"
  shows "\<exists>k. arr_get (barrier_reach s) i = Some k \<and> client_num s0 \<le> k"
proof -
  have "barrier_ok (client_num s0) s0" using assms(2) by (auto simp: barrier_ok_def)
  with counted.runs_keep [OF assms(1), of "client_num s0"] have "barrier_ok (client_num s0) s" by simp
  moreover from assms(3) obtain b where "arr_get (barrier s) i = Some b" "b \<noteq> 0"
    by (auto simp: broadcast_barrier_begin_new_def bind_eq_Some_conv split: if_splits)
  ultimately show ?thesis by (auto simp: barrier_ok_def)
qed

definition ref_one :: "ref_env server" where
  "ref_one = (ref_server ref_env0)\<lparr>client_num := 1\<rparr>"

lemma ref_atoi: "atoi ''1'' = 1"
  by code_simp

lemma ref_barrier_mesg:
  "\<exists>s1. commit_to_fs 1 ref_ext ''0|1:91'' ref_one = Some (Ret 0, s1) \<and>
     barrier s1 = (replicate 8 0)[0 := 1] \<and> local_ip s1 = ''10.0.0.1'' \<and> c_info (sv_kv_barrier s1) = c_info ref_kv"
proof -
  have m: "mesg_path ''0|1:91'' = ''0|1''" "mesg_op ''0|1:91'' = CHR ''9''"
    by (simp_all add: mesg_path_def mesg_op_def char_at_def)
  have k: "plain_key ''10.0.0.1.0''" by (simp add: plain_key_def suffix_def)
  show ?thesis
    using m k
    by (simp add: commit_to_fs_def PATH_MAX_def ref_one_def ref_server_def load_permission_def arr_get_def arr_set_def
        commit_switch_def commit_barrier_mesg_def barrier_slot_def ref_atoi barrier_key_def show_int_0 sprintf_buf_def
        ref.dmkv_set_ok)
qed

theorem barrier_operation_after_all_clients_witness:
  "\<exists>c s s1 k. server_runs 1 ref_ext (CIdle, RIdle, ref_one) (c, RWait ''1/w:5'' 0, s) \<and>
    broadcast_barrier_begin_new 1 ref_ext 0 s = Some (Ret 0, s1) \<and> arr_get (barrier_reach s) 0 = Some k \<and> client_num ref_one \<le> k"
proof -
  obtain s where s: "commit_to_fs 1 ref_ext ''0|1:91'' ref_one = Some (Ret 0, s)" "barrier s = (replicate 8 0)[0 := 1]"
    "local_ip s = ''10.0.0.1''" "c_info (sv_kv_barrier s) = c_info ref_kv"
    using ref_barrier_mesg by blast
  have "rpc_start ref_ext ''1/w:5'' s = Some (0, s)"
    by (simp add: rpc_start_def rpc_barrier_id_def ref_atoi rpc_op_def rpc_path_def char_at_def)
  then have r: "server_runs 1 ref_ext (CIdle, RIdle, ref_one) (CIdle, RWait ''1/w:5'' 0, s)"
    using commit_turn [OF s(1), of RIdle] rpc_recv [of ref_ext "''1/w:5''" s 0 s 1 CIdle] by (auto simp: server_runs_def)
  have b: "broadcast_barrier_begin_new 1 ref_ext 0 s = Some (Ret 0, s)"
    using s by (simp add: broadcast_barrier_begin_new_def arr_get_def ref_kv_def)
  have z: "\<forall>j b. arr_get (barrier ref_one) j = Some b \<longrightarrow> b = 0"
    by (auto simp: ref_one_def ref_server_def arr_get_def split: if_splits)
  from barrier_operation_after_all_clients [OF r z b] r b show ?thesis by blast
qed

end
