(* ===== verification/Data_Thms.thy ===== *)
theory Data_Thms
  imports Server_Thms Namespace_Thms
begin

text \<open>
  Properties of the parts that hold no state of their own: the layout of metadata, the comparison
  of paths, keys and compare-and-swap, the configuration of the nodes, the two message formats,
  permissions, and the bookkeeping of directories that are being removed.
\<close>

subsection \<open>Numbers as text\<close>

lemma show_nat_one: "n < 10 \<Longrightarrow> show_nat n = [digit_char n]"
  by (subst show_nat.simps) simp

lemma show_nat_two: "10 \<le> n \<Longrightarrow> n < 100 \<Longrightarrow> show_nat n = [digit_char (n div 10), digit_char (n mod 10)]"
  by (subst show_nat.simps) (simp add: show_nat_one)

lemma show_nat_three:
  "100 \<le> n \<Longrightarrow> n < 1000 \<Longrightarrow> show_nat n = [digit_char (n div 100), digit_char (n div 10 mod 10), digit_char (n mod 10)]"
  by (subst show_nat.simps) (simp add: show_nat_two div_mult2_eq [symmetric])

lemma sint_small: "n < 2 ^ 31 \<Longrightarrow> sint (of_nat n :: u32) = int n"
  by (simp add: sint_uint unsigned_of_nat take_bit_nat_eq_self signed_take_bit_int_eq_self)

lemma digit_chars:
  "digit_char 0 = CHR ''0''" "digit_char 1 = CHR ''1''" "digit_char 2 = CHR ''2''" "digit_char 3 = CHR ''3''"
  "digit_char 4 = CHR ''4''" "digit_char 5 = CHR ''5''" "digit_char 6 = CHR ''6''" "digit_char 7 = CHR ''7''"
  "digit_char 8 = CHR ''8''" "digit_char 9 = CHR ''9''"
  by (simp_all add: digit_char_def char_of_def bit_iff_odd)

lemma digit_char_inject: "a < 10 \<Longrightarrow> b < 10 \<Longrightarrow> digit_char a = digit_char b \<longleftrightarrow> a = b"
  using digit_val_digit_char by metis

subsection \<open>The joined paths of a rename\<close>

lemma list_update_seam: "i < length xs \<Longrightarrow> take (Suc i) (xs[i := x]) = take i xs @ [x]"
  by (simp add: take_Suc_conv_app_nth)

lemma split_old:
  "CHR ''-'' \<notin> set xs \<Longrightarrow> i + length xs \<le> length ob \<Longrightarrow>
   split_joint (xs @ r) i 0 ob nb = split_joint r (i + length xs) 0 (take i ob @ xs @ drop (i + length xs) ob) nb"
proof (induction xs arbitrary: i ob)
  case Nil
  then show ?case by simp
next
  case (Cons x xs)
  then have "split_joint ((x # xs) @ r) i 0 ob nb = split_joint (xs @ r) (Suc i) 0 (ob[i := x]) nb"
    by (auto simp: poke_def)
  also have "\<dots> = split_joint r (Suc i + length xs) 0
      (take (Suc i) (ob[i := x]) @ xs @ drop (Suc i + length xs) (ob[i := x])) nb"
    using Cons.prems by (intro Cons.IH) simp_all
  finally show ?case using Cons.prems by (simp add: list_update_seam)
qed

lemma split_new:
  "CHR ''-'' \<notin> set xs \<Longrightarrow> 0 < loc \<Longrightarrow> j + length xs < length nb \<Longrightarrow>
   split_joint xs (loc + 1 + j) loc ob nb = Some (ob, take j nb @ xs @ NUL # drop (Suc (j + length xs)) nb)"
proof (induction xs arbitrary: j nb)
  case Nil
  then show ?case by (simp add: poke_def upd_conv_take_nth_drop)
next
  case (Cons x xs)
  then have "split_joint (x # xs) (loc + 1 + j) loc ob nb = split_joint xs (loc + 1 + Suc j) loc ob (nb[j := x])"
    by (auto simp: poke_def)
  also have "\<dots> = Some (ob, take (Suc j) (nb[j := x]) @ xs @ NUL # drop (Suc (Suc j + length xs)) (nb[j := x]))"
    using Cons.prems by (intro Cons.IH) simp_all
  finally show ?case using Cons.prems by (simp add: list_update_seam)
qed

lemma split_joint_eq:
  assumes "CHR ''-'' \<notin> set old" "CHR ''-'' \<notin> set new" "old \<noteq> []" "length old < length ob" "length new < length nb"
  shows "split_joint (old @ ''-'' @ new) 0 0 ob nb =
    Some (old @ NUL # drop (Suc (length old)) ob, new @ NUL # drop (Suc (length new)) nb)"
proof -
  let ?ob = "old @ drop (length old) ob"
  have "split_joint (old @ ''-'' @ new) 0 0 ob nb = split_joint (''-'' @ new) (length old) 0 ?ob nb"
    using split_old [of old 0 ob "''-'' @ new" nb] assms by simp
  also have "\<dots> = split_joint new (length old + 1 + 0) (length old) (?ob[length old := NUL]) nb"
    using assms by (simp add: poke_def)
  also have "\<dots> = Some (?ob[length old := NUL], new @ NUL # drop (Suc (length new)) nb)"
    using assms by (subst split_new) simp_all
  finally have "split_joint (old @ ''-'' @ new) 0 0 ob nb =
      Some (?ob[length old := NUL], new @ NUL # drop (Suc (length new)) nb)" .
  moreover have "drop (length old) ob = ob ! length old # drop (Suc (length old)) ob"
    using Cons_nth_drop_Suc [OF assms(4)] by (rule sym)
  ultimately show ?thesis by (simp only: list_update_length)
qed

subsection \<open>Directories that are being removed\<close>

lemma find_removing_unique:
  assumes "j < k" "l ! j = path" "\<forall>i < k. l ! i = path \<longrightarrow> i = j"
  shows "find_removing l k path = Some (Suc j)"
  using assms
proof (induction k)
  case 0
  then show ?case by simp
next
  case (Suc k)
  show ?case
  proof (cases "j = k")
    case True
    with Suc.prems(2) show ?thesis by (simp add: child_cmp_new_eq)
  next
    case False
    then have k: "l ! k \<noteq> path" "j < k" using Suc.prems(1,3) by (blast, simp)
    then have "find_removing l k path = Some (Suc j)" using Suc.prems(2,3) by (intro Suc.IH) auto
    with k(1) show ?thesis by (simp add: child_cmp_new_eq)
  qed
qed

subsection \<open>Compare-and-swap\<close>

context memcached_service
begin

lemma lost_update_run:
  fixes h :: dmkv
  assumes k: "plain_key k" and b: "n \<le> length b" "m \<le> length b'"
    and g: "dmkv_get_cas E h k s = Some (Some (v, c), s1)"
    and same: "items (env sA) (memc h) (norm_key k) = items (env s1) (memc h) (norm_key k)"
    and a: "dmkv_cas E h k b n c sA = Some (0, sA')" and e: "items (env sB) = items (env sA')"
    and w: "dmkv_cas E h k b' m c sB = Some (r, sB')"
  shows "r = 1 \<and> items (env sB') (memc h) = items (env sA') (memc h) \<and>
    (\<exists>c'. items (env sB') (memc h) (norm_key k) = Some (take n b, c'))"
proof -
  from dmkv.kv_get_cas_law [OF k, of h s] g obtain v0 where
    "items (env s1) (memc h) (norm_key k) = Some (v0, c)"
    by (cases "items (env s) (memc h) (norm_key k)") auto
  with same dmkv.kv_cas_law [OF k b(1), of h c sA] a obtain c' where
    i: "c' \<noteq> c" "items (env sA') (memc h) = (items (env sA) (memc h))(norm_key k \<mapsto> (take n b, c'))" by auto
  then have "items (env sB) (memc h) (norm_key k) = Some (take n b, c')" using e by simp
  from dmkv.stale_cas [OF k b(2) this i(1) w] e i show ?thesis by simp
qed

end

definition ref_w :: "ref_env world" where
  "ref_w = \<lparr>env = ref_env0\<lparr>r_items := put_item [''10.0.0.1''] ''/w/a'' (''old'', 1) (\<lambda>_. Map.empty)\<rparr>\<rparr>"

subsection \<open>Properties\<close>

text \<open>
  C38: What \<open>seri_inline_data\<close> writes, \<open>deseri_inline_data\<close> reads back: for every struct and every
  string that fits, whatever the two blocks held before, the struct and the string come out again.
\<close>

theorem inline_data_roundtrip:
  assumes "NUL \<notin> set t" "length t < INLINE_MAX" "length val = PSTAT_SIZE + INLINE_MAX" "length d = INLINE_MAX"
  shows "\<exists>v r. seri_inline_data (Some st) (t @ NUL # rest) val = Some v \<and> length v = length val \<and>
    deseri_inline_data d v = Some (st, t @ NUL # r)"
proof -
  let ?v = "stat_bytes st @ t @ [NUL] @ drop (PSTAT_SIZE + length t + 1) val"
  have "seri_inline_data (Some st) (t @ NUL # rest) val = Some ?v"
    using assms by (intro seri_inline_data_eq) simp_all
  moreover have "deseri_inline_data d ?v = Some (st, t @ NUL # drop (length t + 1) d)"
    using assms deseri_inline_data_eq [of t d st "drop (PSTAT_SIZE + length t + 1) val"] by simp
  ultimately show ?thesis using assms by auto
qed

theorem inline_data_roundtrip_witness:
  "\<exists>v r. seri_inline_data (Some (bytes_stat (replicate 44 (CHR ''s'')))) (''hello'' @ NUL # []) (replicate (PSTAT_SIZE + INLINE_MAX) (CHR ''?'')) = Some v \<and>
    length v = length (replicate (PSTAT_SIZE + INLINE_MAX) (CHR ''?'')) \<and>
    deseri_inline_data (replicate INLINE_MAX (CHR ''!'')) v = Some (bytes_stat (replicate 44 (CHR ''s'')), ''hello'' @ NUL # r)"
  by (rule inline_data_roundtrip) (simp_all add: INLINE_MAX_def)

text \<open>
  \<open>child_cmp_new\<close> is 2 for equal strings, 1 when the first continues the second with a slash, and 0
  otherwise; on strings that differ the older \<open>child_cmp\<close> in its recursive mode agrees. For a second
  path that ends in a slash itself, the root included, no path below it is found: \<open>/a\<close> is not below
  \<open>/\<close> for this function.
\<close>

theorem child_cmp_new_decides:
  "child_cmp_new path p rec = (if path = p then 2 else if \<exists>r. path = p @ CHR ''/'' # r then 1 else 0) \<and>
   child_cmp path p 1 = (if child_cmp_new path p 1 = 1 then 1 else 0)"
proof
  show "child_cmp_new path p rec = (if path = p then 2 else if \<exists>r. path = p @ CHR ''/'' # r then 1 else 0)"
    by (rule child_cmp_new_eq)
  show "child_cmp path p 1 = (if child_cmp_new path p 1 = 1 then 1 else 0)"
    by (auto simp: child_cmp_def child_cmp_new_def Let_def)
qed

text \<open>
  The wrappers of the store name the same item for a key exactly when the key is empty (both
  are undefined then) or is not only slashes and ends in at most one slash: \<open>memc_put\<close> cuts all
  slashes off the end, the other wrappers one.
\<close>

theorem wrappers_agree_on_keys:
  "cut_slashes key = cut_slash key \<longleftrightarrow> key = [] \<or> plain_key key"
  by (rule cut_slashes_eq_iff)

text \<open>
  No lost update. When two clients have read the same version of an item and one of them stores
  a new value with \<open>dmkv_cas\<close>, the \<open>dmkv_cas\<close> of the other with the number it read returns 1 and
  changes nothing: the value of the first stays.
\<close>

theorem no_lost_update:
  fixes h :: dmkv
  assumes "memcached_service E items" "plain_key k" "n \<le> length b" "m \<le> length b'"
    "dmkv_get_cas E h k s = Some (Some (v, c), s1)"
    "items (env sA) (memc h) (norm_key k) = items (env s1) (memc h) (norm_key k)"
    "dmkv_cas E h k b n c sA = Some (0, sA')" "items (env sB) = items (env sA')"
    "dmkv_cas E h k b' m c sB = Some (r, sB')"
  shows "r = 1 \<and> items (env sB') (memc h) = items (env sA') (memc h) \<and>
    (\<exists>c'. items (env sB') (memc h) (norm_key k) = Some (take n b, c'))"
  using assms by (rule memcached_service.lost_update_run)

theorem no_lost_update_witness:
  "\<exists>sA' sB'. dmkv_cas ref_ext ref_kv ''/w/a'' ''new'' 3 1 ref_w = Some (0, sA') \<and> dmkv_cas ref_ext ref_kv ''/w/a'' ''late'' 4 1 sA' = Some (1, sB') \<and>
    (\<exists>c'. r_items (env sB') [''10.0.0.1''] ''/w/a'' = Some (''new'', c'))"
proof -
  have k: "plain_key ''/w/a''" "norm_key ''/w/a'' = ''/w/a''" by (simp_all add: plain_key_def norm_key_def suffix_def)
  have g: "dmkv_get_cas ref_ext ref_kv ''/w/a'' ref_w = Some (Some (''old'' @ [NUL], 1), ref_w)"
    using k by (simp add: ref.dmkv_get_cas_run ref_w_def ref_kv_def)
  obtain sA' where a: "dmkv_cas ref_ext ref_kv ''/w/a'' ''new'' 3 1 ref_w = Some (0, sA')"
    using k ref.dmkv_cas_match [of "''/w/a''" 3 "''new''" ref_w ref_kv "''old''" 1] by (simp add: ref_w_def ref_kv_def)
  obtain r sB' where b: "dmkv_cas ref_ext ref_kv ''/w/a'' ''late'' 4 1 sA' = Some (r, sB')"
    using ref.dmkv_cas_run [of "''/w/a''" 4 "''late''" ref_kv 1 sA'] by auto
  from no_lost_update [OF ref.memcached_service_axioms k(1) _ _ g refl a refl b] a b k(2)
  show ?thesis by (auto simp: ref_kv_def)
qed


subsection \<open>Messages\<close>

text \<open>
  C39: What a client puts into the commit queue, the server takes apart into the same pieces: for a
  path without a colon and a time before 2038, \<open>add_to_mq\<close> returns 0 and sends one message, in
  which the server's parser finds the path, the character of the operation and the time.
\<close>

theorem commit_message_roundtrip:
  assumes "message_log E sent" "CHR '':'' \<notin> set path" "length path + 3 \<le> PATH_MAX" "0 \<le> sint t"
  shows "\<exists>s' m. add_to_mq E p path opt t s = Some (0, s') \<and> sent (env s') = sent (env s) @ [(publisher (pf p), m)] \<and>
    mesg_path m = path \<and> mesg_op m = opt_char opt \<and> mesg_time m = t"
proof -
  let ?m = "path @ opt_str opt @ show_int (sint t)"
  have "mesg_text (PATH_MAX + TIMESTAMP_SIZE) path opt t = Some ?m"
    using assms by (intro mesg_text_eq) (simp_all add: TIMESTAMP_SIZE_def)
  with assms have "add_to_mq E p path opt t s = Some (0, s\<lparr>env := snd (zmq_send E (publisher (pf p)) ?m (env s))\<rparr>)"
    by (simp add: add_to_mq_def ext_call_eq)
  moreover have "sent (snd (zmq_send E (publisher (pf p)) ?m (env s))) = sent (env s) @ [(publisher (pf p), ?m)]"
    using assms(1) by (rule message_log.send_spec)
  ultimately show ?thesis using mesg_parts [OF assms(2) refl, of opt t] by (intro exI conjI) (assumption, simp_all)
qed

theorem commit_message_roundtrip_witness:
  "\<exists>s' m. add_to_mq ref_ext ref_pacon ''/w/a'' CREATE 1000 ref_client = Some (0, s') \<and>
    r_sent (env s') = r_sent (env ref_client) @ [(publisher (pf ref_pacon), m)] \<and>
    mesg_path m = ''/w/a'' \<and> mesg_op m = opt_char CREATE \<and> mesg_time m = 1000"
  by (rule commit_message_roundtrip [OF ref.message_log_axioms]) (simp_all add: PATH_MAX_def)

text \<open>
  A request of the local rpc carries the number of the last barrier, the path, the operation
  and the time in one string; the server's parser in \<open>commit_to_fs_barrier\<close> finds the index of the
  barrier (the number less one), the path and the operation again.
\<close>

theorem rpc_message_roundtrip:
  assumes "path = CHR ''/'' # rest" "CHR '':'' \<notin> set path" "0 \<le> k"
  shows "let m = (show_int k @ path) @ opt_str opt @ show_int t in
    rpc_barrier_id m = k - 1 \<and> rpc_path m = path \<and> rpc_op m = opt_char opt"
proof -
  let ?r = "path @ opt_str opt @ show_int t"
  have d: "c \<noteq> CHR ''/''" if "c \<in> set (show_int k)" for c
    using that assms(3) isdigit_char_neq(2) by (auto simp: show_int_def dest: show_nat_digits)
  have "takeWhile (\<lambda>c. c \<noteq> CHR ''/'') (show_int k @ ?r) = show_int k" "dropWhile (\<lambda>c. c \<noteq> CHR ''/'') (show_int k @ ?r) = ?r"
    using d assms(1) by (simp_all add: takeWhile_append2 dropWhile_append2)
  moreover have "takeWhile (\<lambda>c. c \<noteq> CHR '':'') ?r = path"
    using takeWhile_colon [OF assms(2)] by (simp add: opt_str_def)
  ultimately show ?thesis
    by (simp add: rpc_barrier_id_def rpc_path_def rpc_op_def opt_str_def char_at_def nth_append)
qed

theorem rpc_message_roundtrip_witness:
  "let m = (show_int 7 @ ''/w/a'') @ opt_str RMDIR @ show_int 1000 in
    rpc_barrier_id m = 7 - 1 \<and> rpc_path m = ''/w/a'' \<and> rpc_op m = opt_char RMDIR"
  by (rule rpc_message_roundtrip [OF refl]) simp_all

text \<open>
  The barrier message of a client that announces \<open>k\<close> operations for barrier \<open>i\<close>, with \<open>k\<close> of one
  digit: the server finds the slot of the barrier. With \<open>k\<close> of two digits it does not: it reads
  the number behind the second character, gets slot -1 and leaves the array, whatever the state.
\<close>

theorem barrier_message_slot:
  "(k < 10 \<longrightarrow> barrier_slot (show_int (int k) @ ''|'' @ show_int i) = i - 1) \<and>
   (10 \<le> k \<and> k < 100 \<longrightarrow> commit_barrier_mesg n E (show_int (int k) @ ''|'' @ show_int i) s = None)"
proof (intro conjI impI)
  assume "k < 10"
  then show "barrier_slot (show_int (int k) @ ''|'' @ show_int i) = i - 1"
    by (simp add: barrier_slot_def show_int_def [of "int k"] show_nat_one)
next
  assume k: "10 \<le> k \<and> k < 100"
  let ?p = "show_int (int k) @ ''|'' @ show_int i"
  have "atoi (''|'' @ show_int i) = 0" by (simp add: atoi_def isspace_def isdigit_def digits_val_def)
  with k have slot: "barrier_slot ?p = -1" by (simp add: barrier_slot_def show_int_def [of "int k"] show_nat_two)
  then show "commit_barrier_mesg n E ?p s = None"
    unfolding commit_barrier_mesg_def slot by (auto simp: arr_get_def bind_eq_None_conv)
qed

theorem barrier_message_slot_witness:
  "barrier_slot (show_int 3 @ ''|'' @ show_int 5) = 4 \<and>
   commit_barrier_mesg 1 ref_ext (show_int 12 @ ''|'' @ show_int 5) undefined = None"
  using barrier_message_slot [of 3 5 1 ref_ext undefined] barrier_message_slot [of 12 5 1 ref_ext undefined] by simp

text \<open>
  A rename sends both paths joined by a dash; \<open>split_joint\<close>, the loop of \<open>rename_update_dc\<close>,
  gets them back when neither holds a dash and both fit their blocks of \<open>PATH_MAX/2\<close> bytes.
\<close>

theorem rename_paths_roundtrip:
  assumes "CHR ''-'' \<notin> set old" "CHR ''-'' \<notin> set new" "old \<noteq> []" "NUL \<notin> set old" "NUL \<notin> set new"
    "length ob = PATH_MAX div 2" "length nb = PATH_MAX div 2" "length old < PATH_MAX div 2" "length new < PATH_MAX div 2"
  shows "\<exists>ob' nb'. split_joint (old @ ''-'' @ new) 0 0 ob nb = Some (ob', nb') \<and> cstr ob' = Some old \<and> cstr nb' = Some new"
  using split_joint_eq [of old new ob nb] assms by auto

theorem rename_paths_roundtrip_witness:
  "\<exists>ob' nb'. split_joint (''/w/a'' @ ''-'' @ ''/w/b'') 0 0 (replicate 64 (CHR ''?'')) (replicate 64 (CHR ''!'')) = Some (ob', nb') \<and>
    cstr ob' = Some ''/w/a'' \<and> cstr nb' = Some ''/w/b''"
  by (rule rename_paths_roundtrip) (simp_all add: PATH_MAX_def)

subsection \<open>Configuration, permissions, removed directories\<close>

lemma read_nodes_empty:
  assumes "read_nodes k acc fl = Some ns" "k = length acc" "\<forall>i < length acc. 16 \<le> i \<longrightarrow> acc ! i = []"
  shows "\<forall>i < length ns. 16 \<le> i \<longrightarrow> ns ! i = []"
  using assms
proof (induction "length fl" arbitrary: k acc fl rule: less_induct)
  case less
  show ?case
  proof (cases "fgets 17 fl")
    case None
    with less.prems show ?thesis by (simp add: read_nodes.simps)
  next
    case (Some l)
    obtain ip rest where l: "l = (ip, rest)" by (cases l)
    then have "length rest < length fl" using fgets_progress [of 17 fl ip rest] Some by simp
    note IH = less.hyps [OF this]
    have r: "read_nodes k acc fl = (if hd ip = CHR ''#'' then read_nodes k acc rest
        else if k + 1 \<ge> NODE_MAX then None else read_nodes (k + 1) (acc @ [node_addr k ip]) rest)"
      using Some l by (subst read_nodes.simps) simp
    show ?thesis
    proof (cases "hd ip = CHR ''#''")
      case True
      with r less.prems IH show ?thesis by auto
    next
      case False
      with r less.prems(1) have "read_nodes (k + 1) (acc @ [node_addr k ip]) rest = Some ns" by (simp split: if_splits)
      moreover have "\<forall>i < length (acc @ [node_addr k ip]). 16 \<le> i \<longrightarrow> (acc @ [node_addr k ip]) ! i = []"
        using less.prems(2,3) by (auto simp: nth_append node_addr_def less_Suc_eq)
      ultimately show ?thesis using less.prems(2) by (intro IH [of "k + 1" "acc @ [node_addr k ip]"]) simp_all
    qed
  qed
qed

text \<open>
  In a cluster of more than 16 nodes the 17th and every later node has the empty string as its
  address, in the list of the store and in the list of the servers.
\<close>

theorem late_nodes_have_no_address:
  assumes "parse_cluster (Some txt') = Some ci" "i < node_num ci" "16 \<le> i"
  shows "node_list ci ! i = []"
  using read_nodes_empty [of 0 "[]" txt'] assms by (auto simp: parse_cluster_def split: option.splits if_splits)

theorem late_nodes_have_no_address_witness:
  "\<exists>ci. parse_cluster (Some (concat (replicate 17 (''1.2.3.4'' @ [CHR 0x0A])))) = Some ci \<and> 16 < node_num ci \<and> node_list ci ! 16 = []"
proof -
  have "map_option node_num (parse_cluster (Some (concat (replicate 17 (''1.2.3.4'' @ [CHR 0x0A]))))) = Some 17"
    by code_simp
  then obtain ci where ci: "parse_cluster (Some (concat (replicate 17 (''1.2.3.4'' @ [CHR 0x0A])))) = Some ci" "16 < node_num ci" by (auto simp: map_option_case split: option.splits)
  from late_nodes_have_no_address [OF ci] ci show ?thesis by simp
qed

text \<open>
  What the three digits of a mode allow: with the first digit 7 everything, with 4 only reading,
  with 2 only writing, and with 1, 3, 5 and 6 nothing at all. The cases 3, 5 and 6 are meant to
  allow several operations, but their conditions (\<open>opt != A || opt != B\<close>) hold for every operation.
\<close>

theorem mask_compare_allows:
  assumes "100 \<le> m" "m < 800"
  shows "mask_compare (of_nat m) ty opt =
    Some (if m div 100 = 7 \<or> m div 100 = 4 \<and> opt = READ_PC \<or> m div 100 = 2 \<and> opt = WRITE_PC then 0 else -1)"
proof -
  let ?c = "digit_char (m div 100)"
  have "show_int (sint (of_nat m :: u32)) = ?c # [digit_char (m div 10 mod 10), digit_char (m mod 10)]"
    using assms sint_small [of m] by (simp add: show_int_def show_nat_three)
  then have f: "sprintf_buf 5 (show_int (sint (of_nat m :: u32))) = Some (?c # [digit_char (m div 10 mod 10), digit_char (m mod 10)])"
    by (simp add: sprintf_buf_def)
  have "m div 100 \<in> {1, 2, 3, 4, 5, 6, 7}" using assms by auto
  then show ?thesis unfolding mask_compare_first [OF f] by (auto simp: digit_chars digit_chars(2) [unfolded One_nat_def])
qed

theorem mask_compare_allows_witness:
  "mask_compare 655 1 READ_PC = Some (-1) \<and> mask_compare 444 1 READ_PC = Some 0"
  using mask_compare_allows [of 655 1 READ_PC] mask_compare_allows [of 444 1 READ_PC] by simp

text \<open>
  The end of an rmdir takes its directory out of the list of directories being removed. Unless
  it is the last of the list, the last one is copied over it and the copy is then emptied: the
  last directory, whose removal is still going on, is not in the list any more.
\<close>

theorem del_removing_loses_last:
  assumes "rm_count s = int k" "k \<le> length (rm_list s)" "distinct (take k (rm_list s))"
    "j + 1 < k" "rm_list s ! j = path" "rm_list s ! (k - 1) \<noteq> []"
  shows "\<exists>s'. del_removing path s = Some s' \<and> rm_count s' = int k - 1 \<and>
    rm_list s ! (k - 1) \<notin> set (take (k - 1) (rm_list s'))"
proof -
  let ?l = "rm_list s"
  have d: "?l ! a \<noteq> ?l ! b" if "a < k" "b < k" "a \<noteq> b" for a b
    using that assms(2,3) nth_eq_iff_index_eq [of "take k ?l" a b] by simp
  have "find_removing ?l k path = Some (Suc j)"
    using assms(4,5) d [of _ j] by (intro find_removing_unique) auto
  then have r: "del_removing path s = Some (s\<lparr>rm_list := ?l[j := []], rm_count := int k - 1\<rparr>)"
    using assms(1,2,4) by (simp add: del_removing_def)
  have "?l ! (k - 1) \<notin> set (take (k - 1) (?l[j := []]))"
  proof
    assume "?l ! (k - 1) \<in> set (take (k - 1) (?l[j := []]))"
    then obtain i where i: "i < k - 1" "i < length ?l" "?l[j := []] ! i = ?l ! (k - 1)" by (auto simp: in_set_conv_nth)
    moreover have "i < k" "k - 1 < k" "i \<noteq> k - 1" using i(1) by simp_all
    ultimately show False using assms(6) d [of i "k - 1"] by (cases "i = j") auto
  qed
  with r show ?thesis by simp
qed

theorem del_removing_loses_last_witness:
  "\<exists>s'. del_removing ''/w/a'' ((ref_server ref_env0)\<lparr>rm_count := 2, rm_list := [''/w/a'', ''/w/b'', []]\<rparr>) = Some s' \<and> rm_count s' = 1 \<and>
    ''/w/b'' \<notin> set (take 1 (rm_list s'))"
  using del_removing_loses_last [of "(ref_server ref_env0)\<lparr>rm_count := 2, rm_list := [''/w/a'', ''/w/b'', []]\<rparr>" 2 0 "''/w/a''"]
  by (simp add: numeral_2_eq_2)

text \<open>
  What \<open>pacon_set_permission\<close> publishes about the special locations of a region: whatever their
  number and their paths, the value stored under \<open>sp_path\<close> is the mode of the last location alone.
\<close>

theorem set_permission_keeps_last_mode:
  assumes "sp_val_loop (ls @ [(path, dm, fm)]) buf = Some v"
  shows "v = (if dm \<noteq> 999 then show_int (sint dm) @ ''d'' else show_int (sint fm) @ ''f'')"
  using assms
proof (induction ls arbitrary: buf)
  case Nil
  then show ?case by (auto simp: sp_val_round_def split: option.splits if_splits)
next
  case (Cons l ls)
  obtain q d f where l: "l = (q, d, f)" by (cases l)
  from Cons.prems l obtain w where "sp_val_loop (ls @ [(path, dm, fm)]) w = Some v" by (auto split: option.splits)
  then show ?case by (rule Cons.IH)
qed

theorem set_permission_keeps_last_mode_witness:
  "\<exists>v. sp_val_loop ([(''/w/a'', 700, 999)] @ [(''/w/b'', 400, 999)]) [] = Some v \<and> v = show_int 400 @ ''d''"
proof -
  have "\<exists>v. sp_val_loop ([(''/w/a'', 700, 999)] @ [(''/w/b'', 400, 999)]) [] = Some v"
    by (simp add: sp_val_round_def)
  then obtain v where v: "sp_val_loop ([(''/w/a'', 700, 999)] @ [(''/w/b'', 400, 999)]) [] = Some v" by blast
  from set_permission_keeps_last_mode [OF v] v show ?thesis by simp
qed

end
