(* ===== verification/Client_Frame.thy ===== *)
theory Client_Frame
  imports File_Data Eviction Cache_Frame Region
begin

text \<open>
  What the operations of a client keep: the locale \<open>client_inv\<close> extends the frames of the cache
  functions by the updates of the hash tables and of the barrier number, and every operation keeps
  such a predicate: the namespace, file data, eviction, and setting up. The operations that also
  return a struct, an open file or a handle are covered by \<open>lands3\<close>, reads by \<open>lands4\<close>.
\<close>

subsection \<open>Statements with two and three results\<close>

definition lands3 :: "('s \<Rightarrow> bool) \<Rightarrow> ('a \<times> 'b \<times> 's) option \<Rightarrow> bool" where
  "lands3 P m \<longleftrightarrow> (\<forall>r x s. m = Some (r, x, s) \<longrightarrow> P s)"

named_theorems lands3_intros \<open>rules for the states a statement with two results can leave\<close>

lemma lands3_Some [lands3_intros]: "P s \<Longrightarrow> lands3 P (Some (r, x, s))"
  by (simp add: lands3_def)

lemma lands3_None [lands3_intros]: "lands3 P None"
  by (simp add: lands3_def)

lemma lands3_if [lands3_intros]: "(b \<Longrightarrow> lands3 P x) \<Longrightarrow> (\<not> b \<Longrightarrow> lands3 P y) \<Longrightarrow> lands3 P (if b then x else y)"
  by simp

lemma lands3_case_option [lands3_intros]:
  "(o' = None \<Longrightarrow> lands3 P x) \<Longrightarrow> (\<And>a. o' = Some a \<Longrightarrow> lands3 P (y a)) \<Longrightarrow> lands3 P (case o' of None \<Rightarrow> x | Some a \<Rightarrow> y a)"
  by (cases o') auto

lemma lands3_Let [lands3_intros]: "lands3 P (f a) \<Longrightarrow> lands3 P (Let a f)"
  by (simp add: Let_def)

lemma lands3_bind [lands3_intros]:
  "lands P m \<Longrightarrow> (\<And>r s. P s \<Longrightarrow> lands3 P (f r s)) \<Longrightarrow> lands3 P (m \<bind> (\<lambda>(r, s). f r s))"
  by (cases m) (auto simp: lands_def lands3_def)

lemma lands3_bind3 [lands3_intros]:
  "lands3 P m \<Longrightarrow> (\<And>r x s. P s \<Longrightarrow> lands3 P (f r x s)) \<Longrightarrow> lands3 P (m \<bind> (\<lambda>(r, x, s). f r x s))"
  by (cases m) (auto simp: lands3_def)

lemma lands_bind3:
  "lands3 P m \<Longrightarrow> (\<And>r x s. P s \<Longrightarrow> lands P (f r x s)) \<Longrightarrow> lands P (m \<bind> (\<lambda>(r, x, s). f r x s))"
  by (cases m) (auto simp: lands_def lands3_def)

lemma lands3_pure: "(\<And>x. m = Some x \<Longrightarrow> lands3 P (f x)) \<Longrightarrow> lands3 P (m \<bind> f)"
  by (cases m) (auto simp: lands3_def)

lemma lands3_case_prod [lands3_intros]: "(\<And>a b. q = (a, b) \<Longrightarrow> lands3 P (f a b)) \<Longrightarrow> lands3 P (case q of (a, b) \<Rightarrow> f a b)"
  by (cases q) simp

lemma lands3D: "lands3 P m \<Longrightarrow> m = Some (r, x, s) \<Longrightarrow> P s"
  by (simp add: lands3_def)

definition lands4 :: "('s \<Rightarrow> bool) \<Rightarrow> ('a \<times> 'b \<times> 'c \<times> 's) option \<Rightarrow> bool" where
  "lands4 P m \<longleftrightarrow> (\<forall>r x y s. m = Some (r, x, y, s) \<longrightarrow> P s)"

named_theorems lands4_intros \<open>rules for the states a statement with three results can leave\<close>

lemma lands4_Some [lands4_intros]: "P s \<Longrightarrow> lands4 P (Some (r, x, y, s))"
  by (simp add: lands4_def)

lemma lands4_None [lands4_intros]: "lands4 P None"
  by (simp add: lands4_def)

lemma lands4_if [lands4_intros]: "(b \<Longrightarrow> lands4 P x) \<Longrightarrow> (\<not> b \<Longrightarrow> lands4 P y) \<Longrightarrow> lands4 P (if b then x else y)"
  by simp

lemma lands4_case_option [lands4_intros]:
  "(o' = None \<Longrightarrow> lands4 P x) \<Longrightarrow> (\<And>a. o' = Some a \<Longrightarrow> lands4 P (y a)) \<Longrightarrow> lands4 P (case o' of None \<Rightarrow> x | Some a \<Rightarrow> y a)"
  by (cases o') auto

lemma lands4_case_prod [lands4_intros]: "(\<And>a b. q = (a, b) \<Longrightarrow> lands4 P (f a b)) \<Longrightarrow> lands4 P (case q of (a, b) \<Rightarrow> f a b)"
  by (cases q) simp

lemma lands4_bind [lands4_intros]:
  "lands P m \<Longrightarrow> (\<And>r s. P s \<Longrightarrow> lands4 P (f r s)) \<Longrightarrow> lands4 P (m \<bind> (\<lambda>(r, s). f r s))"
  by (cases m) (auto simp: lands_def lands4_def)

lemma lands4_bind3 [lands4_intros]:
  "lands3 P m \<Longrightarrow> (\<And>r x s. P s \<Longrightarrow> lands4 P (f r x s)) \<Longrightarrow> lands4 P (m \<bind> (\<lambda>(r, x, s). f r x s))"
  by (cases m) (auto simp: lands3_def lands4_def)

lemma lands4_bind4 [lands4_intros]:
  "lands4 P m \<Longrightarrow> (\<And>r x y s. P s \<Longrightarrow> lands4 P (f r x y s)) \<Longrightarrow> lands4 P (m \<bind> (\<lambda>(r, x, y, s). f r x y s))"
  by (cases m) (auto simp: lands4_def)

lemma lands4_pure: "(\<And>x. m = Some x \<Longrightarrow> lands4 P (f x)) \<Longrightarrow> lands4 P (m \<bind> f)"
  by (cases m) (auto simp: lands4_def)

lemma lands4_Let [lands4_intros]: "lands4 P (f a) \<Longrightarrow> lands4 P (Let a f)"
  by (simp add: Let_def)

lemma lands3_bind4 [lands3_intros]:
  "lands4 P m \<Longrightarrow> (\<And>r x y s. P s \<Longrightarrow> lands3 P (f r x y s)) \<Longrightarrow> lands3 P (m \<bind> (\<lambda>(r, x, y, s). f r x y s))"
  by (cases m) (auto simp: lands3_def lands4_def)

lemma lands4D: "lands4 P m \<Longrightarrow> m = Some (r, x, y, s) \<Longrightarrow> P s"
  by (simp add: lands4_def)

subsection \<open>The operations\<close>

locale client_inv = client_stable P for P :: "'e client \<Rightarrow> bool" +
  assumes dir_stable: "P s \<Longrightarrow> P (add_to_dir_check_table k s)"
    and clean_stable: "P s \<Longrightarrow> P (fdht_clean s)"
    and fd_stable: "P s \<Longrightarrow> P (add_local_fd path fd s)"
    and barrier_stable: "P s \<Longrightarrow> P (s\<lparr>current_barrier_id := i\<rparr>)"
begin

lemma ci_cas_flag [lands_intros]: "P s \<Longrightarrow> lands P (cas_flag_loop n E p path flag st val cas s)"
  by (induction n arbitrary: st val cas s) (simp_all, intro lands_intros; assumption)+

lemma ci_children [lands_intros]: "P s \<Longrightarrow> lands P (load_children n E p d es s)"
  by (induction es arbitrary: s) (simp_all only: load_children.simps, (intro lands_intros; assumption)+)

lemma ci_check_dir [lands_intros]: "P s \<Longrightarrow> lands P (check_dir n E p d s)"
  unfolding check_dir_def
  by (intro lands_bind3 lands_intros lands3_intros dir_stable; assumption)

lemma ci_parent [lands_intros]: "P s \<Longrightarrow> lands P (check_parent_dir n E p path s)"
  unfolding check_parent_dir_def by (intro lands_intros; assumption)

lemma ci_replace [lands_intros]: "P s \<Longrightarrow> lands P (replace_removed E p path val len s)"
  unfolding replace_removed_def by (intro lands_intros; assumption)

lemma ci_create [lands_intros]: "P s \<Longrightarrow> lands P (pacon_create n E p path mode s)"
  unfolding pacon_create_def by (intro lands_intros; assumption)

lemma ci_create_open: "P s \<Longrightarrow> lands3 P (pacon_create_open n E p path mode flags ptr f s)"
  unfolding pacon_create_open_def by (intro lands_intros lands3_intros; assumption)

lemma ci_mkdir [lands_intros]: "P s \<Longrightarrow> lands P (pacon_mkdir n E p path mode s)"
  unfolding pacon_mkdir_def by (intro lands_intros; assumption)

lemma ci_rm [lands_intros]: "P s \<Longrightarrow> lands P (pacon_rm n E p path s)"
  unfolding pacon_rm_def by (intro lands_bind3 lands_intros lands3_intros; assumption)

lemma ci_rmdir [lands_intros]: "P s \<Longrightarrow> lands P (pacon_rmdir n E p path s)"
  unfolding pacon_rmdir_def by (intro lands_intros clean_stable; assumption)

lemma ci_rename [lands_intros]: "P s \<Longrightarrow> lands P (pacon_rename n E p path newpath s)"
  unfolding pacon_rename_def by (intro lands_intros; assumption)

lemma ci_opendir [lands_intros]: "P s \<Longrightarrow> lands P (pacon_opendir n E p path s)"
  unfolding pacon_opendir_def by (intro lands_intros st_opendir_with; assumption)

lemma ci_refresh [lands_intros]: "P s \<Longrightarrow> lands P (refresh_stat E path st s)"
  unfolding refresh_stat_def by (intro lands_intros; assumption)

lemma ci_hit [lands3_intros]: "P s \<Longrightarrow> lands3 P (getattr_hit E path val st s)"
  unfolding getattr_hit_def by (rule lands3_pure) (intro lands_intros lands3_intros; assumption)

lemma ci_getattr: "P s \<Longrightarrow> lands3 P (pacon_getattr n E p path st s)"
proof (induction n arbitrary: p st s)
  case 0
  then show ?case by (simp add: pacon_getattr.simps lands3_None)
next
  case (Suc n)
  show ?case
    unfolding pacon_getattr.simps
    by (intro lands_intros lands3_intros lands3_pure Suc.IH Suc.prems; assumption)
qed

lemma ci_barrier: "P s \<Longrightarrow> arrives P (pacon_barrier E p k s)"
  unfolding pacon_barrier_def by (intro lands_intros barrier_stable; assumption?)

lemma ci_checkpoint: "P s \<Longrightarrow> lands P (cregion_checkpoint E p s)"
  unfolding cregion_checkpoint_def by (intro lands_intros; assumption)

lemma ci_recover: "P s \<Longrightarrow> lands P (cregion_recover E p s)"
  unfolding cregion_recover_def by (intro lands_intros lands_pure; assumption)

text \<open>The data of files.\<close>

lemma ci_open_counter [lands_intros]: "P s \<Longrightarrow> lands P (open_counter_loop n E p path st val cas s)"
  by (induction n arbitrary: st val cas s) (simp_all only: open_counter_loop.simps, (intro lands_intros; assumption)+)

lemma ci_open_retry [lands3_intros]: "P s \<Longrightarrow> lands3 P (open_retry n E p path flags mode f s)"
proof (induction n arbitrary: p f s)
  case 0
  then show ?case by (simp add: lands3_None)
next
  case (Suc n)
  show ?case
    unfolding open_retry.simps
    by (intro lands_intros lands3_intros lands3_pure fd_stable Suc.IH Suc.prems; assumption)
qed

lemma ci_open: "P s \<Longrightarrow> lands3 P (pacon_open n E p path flags mode f s)"
  unfolding pacon_open_def by (intro lands_intros lands3_intros; assumption)

lemma ci_create_write_exists [lands_intros]: "P s \<Longrightarrow> lands P (create_write_exists E p path val len s)"
  unfolding create_write_exists_def by (intro lands_intros; assumption)

lemma ci_create_write: "P s \<Longrightarrow> lands3 P (pacon_create_write n E p path mode buf sz f s)"
  unfolding pacon_create_write_def by (intro lands_intros lands3_intros lands3_pure; assumption)

lemma ci_pread [lands3_intros]: "P s \<Longrightarrow> lands3 P (pread_buf E fd buf sz offset s)"
  unfolding pread_buf_def by (simp only: split_def) (auto simp: lands3_def bind_eq_Some_conv dest: landsD [OF st_ext])

lemma ci_read_dfs [lands4_intros]: "P s \<Longrightarrow> lands4 P (read_dfs E path f buf sz offset s)"
  unfolding read_dfs_def by (intro lands_intros lands3_intros lands4_intros; assumption)

lemma ci_read: "P s \<Longrightarrow> lands4 P (pacon_read n E p path f buf sz offset s)"
proof (induction n arbitrary: p f buf s)
  case 0
  then show ?case by (simp add: lands4_None)
next
  case (Suc n)
  show ?case
    unfolding pacon_read.simps
    by (intro lands_intros lands3_intros lands4_intros lands4_pure fd_stable Suc.IH Suc.prems; assumption)
qed

lemma ci_read_new: "P s \<Longrightarrow> lands4 P (pacon_read_new n E p path f buf sz offset s)"
proof (induction n arbitrary: p f buf s)
  case 0
  then show ?case by (simp add: lands4_None)
next
  case (Suc n)
  show ?case
    unfolding pacon_read_new.simps
    by (intro lands_intros lands3_intros lands4_intros lands4_pure Suc.IH Suc.prems; assumption)
qed

lemma ci_pwrite [lands_intros]: "P s \<Longrightarrow> lands P (pwrite_buf E fd buf sz offset s)"
  unfolding pwrite_buf_def by (intro lands_intros; assumption)

lemma ci_store_inline [lands_intros]: "P s \<Longrightarrow> lands P (store_inline E p path st data len cas s)"
  unfolding store_inline_def by (intro lands_intros; assumption)

lemma ci_write_begin [lands3_intros]: "P s \<Longrightarrow> lands3 P (write_begin n E p path f buf sz offset s)"
proof (induction n arbitrary: f s)
  case 0
  then show ?case by (simp add: lands3_None)
next
  case (Suc n)
  show ?case
    unfolding write_begin.simps
    by (intro lands_intros lands3_intros lands3_pure fd_stable Suc.IH Suc.prems; assumption)
qed

lemma ci_write: "P s \<Longrightarrow> lands3 P (pacon_write n E p path f buf sz offset s)"
  unfolding pacon_write_def by (intro lands_intros lands3_intros lands3_pure; assumption)

lemma ci_open_wait [lands_intros]: "P s \<Longrightarrow> lands P (open_wait n E path s)"
  by (induction n arbitrary: s) (simp_all only: open_wait.simps, (intro lands_intros; assumption)+)

lemma ci_write_update [lands4_intros]: "P s \<Longrightarrow> lands4 P (write_update E p path f sz st val cas new_size t s)"
  unfolding write_update_def by (intro lands_intros lands4_intros; assumption)

lemma ci_write_dfs [lands4_intros]: "P s \<Longrightarrow> lands4 P (write_dfs n E p path f buf sz offset st d val cas new_size s)"
  unfolding write_dfs_def by (intro lands_intros lands4_intros; assumption)

lemma ci_write_inline [lands4_intros]: "P s \<Longrightarrow> lands4 P (write_inline E p path f buf sz offset st d cas new_size s)"
  unfolding write_inline_def by (intro lands_intros lands4_intros lands4_pure; assumption)

lemma ci_write_new_retry [lands3_intros]: "P s \<Longrightarrow> lands3 P (write_new_retry n E p path f buf sz offset new_size s)"
proof (induction n arbitrary: f new_size s)
  case 0
  then show ?case by (simp add: lands3_None)
next
  case (Suc n)
  show ?case
    unfolding write_new_retry.simps
    by (intro lands_intros lands3_intros lands4_intros lands3_pure Suc.IH Suc.prems; assumption)
qed

lemma ci_write_new: "P s \<Longrightarrow> lands3 P (pacon_write_new n E p path f buf sz offset s)"
  unfolding pacon_write_new_def by (intro lands_intros lands3_intros lands3_pure; assumption)

lemma ci_fsync_to_log [lands3_intros]: "P s \<Longrightarrow> lands3 P (fsync_to_log E p path st d s)"
  unfolding fsync_to_log_def by (intro lands_intros lands3_intros lands3_pure; assumption)

lemma ci_fsync: "P s \<Longrightarrow> lands3 P (pacon_fsync E p path f s)"
  unfolding pacon_fsync_def by (intro lands_intros lands3_intros lands3_pure; assumption)

text \<open>Eviction.\<close>

lemma ci_exist [lands_intros]: "P s \<Longrightarrow> lands P (test_entry_exist E p path s)"
  unfolding test_entry_exist_def by (intro lands_intros; assumption)

lemma ci_entries:
  assumes sub: "\<And>path s. P s \<Longrightarrow> lands P (sub path s)"
  shows "P s \<Longrightarrow> lands P (flush_entries sub E p path es s)"
  by (induction es arbitrary: s) (simp_all only: flush_entries.simps, (intro lands_intros sub; assumption)+)

lemma ci_flush_dir_new [lands_intros]: "P s \<Longrightarrow> lands P (flush_dir_new n E p path s)"
  by (induction n arbitrary: path s) (simp_all only: flush_dir_new.simps, (intro lands_intros ci_entries; assumption)+)

lemma ci_flush_file_new [lands_intros]: "P s \<Longrightarrow> lands P (flush_file_new E p path s)"
  unfolding flush_file_new_def by (intro lands_intros; assumption)

lemma ci_evict_entry [lands_intros]: "P s \<Longrightarrow> lands P (evict_entry n E p e s)"
  unfolding evict_entry_def by (intro lands_intros; assumption)

lemma ci_case_pick:
  "lands P a \<Longrightarrow> lands P b \<Longrightarrow> (\<And>e. lands P (c e)) \<Longrightarrow> lands P (case k of PickAgain \<Rightarrow> a | PickNone \<Rightarrow> b | PickFound e \<Rightarrow> c e)"
  by (cases k) auto

lemma ci_evict_find_new [lands_intros]: "P s \<Longrightarrow> lands P (evict_find_new n E p rr s)"
  by (induction n arbitrary: rr s) (simp_all only: evict_find_new.simps, (intro lands_intros ci_case_pick; assumption)+)

lemma ci_evict: "P s \<Longrightarrow> lands P (evict_metadata n E p s)"
  unfolding evict_metadata_def by (intro lands_intros st_evict_with; assumption)

lemma ci_evict_new: "P s \<Longrightarrow> lands P (evict_metadata_new n E p s)"
  unfolding evict_metadata_new_def by (intro lands_intros; assumption)

lemma ci_evict_explicit: "P s \<Longrightarrow> lands P (evict_metadata_explicit n E p s)"
  unfolding evict_metadata_explicit_def by (intro lands_intros; assumption)

text \<open>Setting up and joining regions.\<close>

lemma ci_dmkv_init [lands_intros]: "P s \<Longrightarrow> lands P (dmkv_init E ty s)"
  unfolding dmkv_init_def get_cluster_info_def dmkv_open_def memc_new_def by (intro lands_intros; assumption)

lemma ci_dmkv_remote_init [lands_intros]: "P s \<Longrightarrow> lands P (dmkv_remote_init E num s)"
  unfolding dmkv_remote_init_def get_remote_cluster_info_def dmkv_open_def memc_new_def by (intro lands_intros; assumption)

lemma ci_local_addr [lands_intros]: "P s \<Longrightarrow> lands P (get_local_addr E cf s)"
  unfolding get_local_addr_def read_line_def by (intro lands_intros; assumption)

lemma ci_open_log [lands_intros]: "P s \<Longrightarrow> lands P (open_log E s)"
  unfolding open_log_def by (intro lands_intros; assumption)

lemma ci_init_evict [lands_intros]: "P s \<Longrightarrow> arrives P (init_evict E p s)"
  unfolding init_evict_def by (intro lands_intros; assumption)

lemma lands3_then: "arrives P m \<Longrightarrow> (\<And>s. P s \<Longrightarrow> lands3 P (f s)) \<Longrightarrow> lands3 P (m \<bind> f)"
  by (cases m) (auto simp: arrives_def lands3_def)

lemma lands3_bind_pair:
  "lands P m \<Longrightarrow> (\<And>a b s. P s \<Longrightarrow> lands3 P (f a b s)) \<Longrightarrow> lands3 P (m \<bind> (\<lambda>((a, b), s). f a b s))"
  by (cases m) (auto simp: lands_def lands3_def)

lemma ci_init: "P s \<Longrightarrow> lands3 P (init_pacon n E ty p s)"
  unfolding init_pacon_def
  by (intro lands_intros lands3_then lands3_bind_pair lands3_intros dir_stable; assumption)

lemma ci_init_remote [lands3_intros]: "P s \<Longrightarrow> lands3 P (init_remote_pacon n E p num s)"
  unfolding init_remote_pacon_def by (intro lands_intros lands3_intros dir_stable; assumption)

lemma ci_join [lands3_intros]: "P s \<Longrightarrow> lands3 P (join_regions n E raw roots i acc s)"
  by (induction roots arbitrary: i acc s)
    (simp_all only: join_regions.simps, (intro lands_intros lands3_intros lands3_pure; assumption)+)

lemma ci_joint: "P s \<Longrightarrow> lands3 P (cregion_joint n E raw p num s)"
  unfolding cregion_joint_def by (intro lands_intros lands3_intros lands3_pure; assumption)

end

text \<open>
  A table of checked directories that holds only zeros stays one, and no operation takes an entry
  out of it.
\<close>

interpretation zeros: client_inv "check_table_ok :: 'e client \<Rightarrow> bool"
  by unfold_locales (auto simp: check_table_ok_add, auto simp: check_table_ok_def table_defs)

interpretation kept: client_inv "\<lambda>s :: 'e client. dir_check_table s d = Some v" for d v
  by unfold_locales (auto simp: table_defs ht_insert_def split: option.splits)

subsection \<open>Steps of a client\<close>

text \<open>
  One operation of the client, whatever its arguments, the handle it is called on and its fuel, or a
  change of the outside world (other clients, the servers, the file system). The handle is not fixed:
  \<open>init_pacon\<close>, \<open>cregion_joint\<close> and \<open>pacon_fsync\<close> change it, and the tables belong to the process.
  \<open>pacon_close\<close> and \<open>cregion_split\<close> leave the state of the process as it is.
\<close>

inductive client_step :: "'e ext \<Rightarrow> 'e client \<Rightarrow> 'e client \<Rightarrow> bool" for E :: "'e ext" where
  step_init: "init_pacon n E ty p s = Some (r, p', s') \<Longrightarrow> client_step E s s'"
| step_create: "pacon_create n E p path mode s = Some (r, s') \<Longrightarrow> client_step E s s'"
| step_create_write: "pacon_create_write n E p path mode buf sz f s = Some (r, f', s') \<Longrightarrow> client_step E s s'"
| step_create_open: "pacon_create_open n E p path flag mode ptr f s = Some (r, f', s') \<Longrightarrow> client_step E s s'"
| step_mkdir: "pacon_mkdir n E p path mode s = Some (r, s') \<Longrightarrow> client_step E s s'"
| step_getattr: "pacon_getattr n E p path st s = Some (r, st', s') \<Longrightarrow> client_step E s s'"
| step_rm: "pacon_rm n E p path s = Some (r, s') \<Longrightarrow> client_step E s s'"
| step_rmdir: "pacon_rmdir n E p path s = Some (r, s') \<Longrightarrow> client_step E s s'"
| step_rmdir_clean: "pacon_rmdir_clean s = (r, s') \<Longrightarrow> client_step E s s'"
| step_rename: "pacon_rename n E p path newpath s = Some (r, s') \<Longrightarrow> client_step E s s'"
| step_opendir: "pacon_opendir n E p path s = Some (d, s') \<Longrightarrow> client_step E s s'"
| step_open: "pacon_open n E p path flags mode f s = Some (r, f', s') \<Longrightarrow> client_step E s s'"
| step_close: "pacon_close p f s = (r, s') \<Longrightarrow> client_step E s s'"
| step_read: "pacon_read n E p path f buf sz offset s = Some (r, f', buf', s') \<Longrightarrow> client_step E s s'"
| step_read_new: "pacon_read_new n E p path f buf sz offset s = Some (r, f', buf', s') \<Longrightarrow> client_step E s s'"
| step_write: "pacon_write n E p path f buf sz offset s = Some (r, f', s') \<Longrightarrow> client_step E s s'"
| step_write_new: "pacon_write_new n E p path f buf sz offset s = Some (r, f', s') \<Longrightarrow> client_step E s s'"
| step_fsync: "pacon_fsync E p path f s = Some (r, p', s') \<Longrightarrow> client_step E s s'"
| step_flush_dir: "flush_dir E p path s = Some (r, s') \<Longrightarrow> client_step E s s'"
| step_flush_file: "flush_file n E p path s = Some (r, s') \<Longrightarrow> client_step E s s'"
| step_evict: "evict_metadata n E p s = Some (r, s') \<Longrightarrow> client_step E s s'"
| step_evict_new: "evict_metadata_new n E p s = Some (r, s') \<Longrightarrow> client_step E s s'"
| step_evict_explicit: "evict_metadata_explicit n E p s = Some (r, s') \<Longrightarrow> client_step E s s'"
| step_load: "load_to_pacon n E p path s = Some (r, s') \<Longrightarrow> client_step E s s'"
| step_barrier: "pacon_barrier E p k s = Some s' \<Longrightarrow> client_step E s s'"
| step_checkpoint: "cregion_checkpoint E p s = Some (r, s') \<Longrightarrow> client_step E s s'"
| step_recover: "cregion_recover E p s = Some (r, s') \<Longrightarrow> client_step E s s'"
| step_joint: "cregion_joint n E raw p num s = Some (r, p', s') \<Longrightarrow> client_step E s s'"
| step_outside: "client_step E s (s\<lparr>env := e\<rparr>)"

context client_inv
begin

lemma client_step_keeps:
  assumes "client_step E s s'" "P s" shows "P s'"
  using assms
proof (induction rule: client_step.induct)
  case (step_rmdir_clean s r s')
  then show ?case by (auto simp: pacon_rmdir_clean_def clean_stable)
next
  case (step_close p f s r s')
  then show ?case by (simp add: pacon_close_def)
qed (auto dest: landsD [OF ci_create] landsD [OF ci_mkdir] lands3D [OF ci_getattr] landsD [OF ci_rm] landsD [OF ci_rmdir]
      landsD [OF ci_rename] landsD [OF ci_opendir] arrivesD [OF ci_barrier] lands3D [OF ci_init] lands3D [OF ci_create_open]
      lands3D [OF ci_create_write]
      lands3D [OF ci_open] lands4D [OF ci_read] lands4D [OF ci_read_new] lands3D [OF ci_write] lands3D [OF ci_write_new]
      lands3D [OF ci_fsync] landsD [OF st_flush_dir] landsD [OF st_flush_file] landsD [OF ci_evict] landsD [OF ci_evict_new]
      landsD [OF ci_evict_explicit] landsD [OF st_load] landsD [OF ci_checkpoint] landsD [OF ci_recover] lands3D [OF ci_joint]
      intro: env_stable)

lemma client_runs_keep: "(client_step E)\<^sup>*\<^sup>* s s' \<Longrightarrow> P s \<Longrightarrow> P s'"
  by (induction rule: rtranclp_induct) (auto intro: client_step_keeps)

end

end
