(* ===== verification/Refinement.thy ===== *)
theory Refinement
  imports Client_Frame Namespace_Thms
begin

text \<open>
  An abstract directory and the refinement by the clients of a region. The entries of one
  directory are a map from paths to files, directories and removed entries; the operations of any
  number of clients, one after the other in any interleaving, give the results that the abstract
  directory gives.
\<close>

subsection \<open>The abstract directory\<close>

datatype aentry = AFile | ADir | ARemoved

type_synonym adir = "path \<rightharpoonup> aentry"

datatype op = OCreate path | OMkdir path | ORm path | OGetattr path

fun op_path :: "op \<Rightarrow> path" where
  "op_path (OCreate path) = path"
| "op_path (OMkdir path) = path"
| "op_path (ORm path) = path"
| "op_path (OGetattr path) = path"

definition live :: "aentry option \<Rightarrow> bool" where
  "live a \<longleftrightarrow> a = Some AFile \<or> a = Some ADir"

fun astep :: "op \<Rightarrow> adir \<Rightarrow> int \<times> adir" where
  "astep (OCreate path) A = (if live (A path) then (-1, A) else (0, A(path \<mapsto> AFile)))"
| "astep (OMkdir path) A = (if live (A path) then (-1, A) else (0, A(path \<mapsto> ADir)))"
| "astep (ORm path) A = (0, A(path \<mapsto> ARemoved))"
| "astep (OGetattr path) A = (if live (A path) then 0 else -1, A)"

text \<open>
  Entries that are not cached are looked up on the file system by \<open>rm\<close> and \<open>getattr\<close>; the abstract
  directory knows nothing of it, so these operations are used on known entries.
\<close>

fun known :: "op \<Rightarrow> adir \<Rightarrow> bool" where
  "known (OCreate path) A \<longleftrightarrow> True"
| "known (OMkdir path) A \<longleftrightarrow> True"
| "known (ORm path) A \<longleftrightarrow> A path \<noteq> None"
| "known (OGetattr path) A \<longleftrightarrow> A path \<noteq> None"

fun arun :: "(nat \<times> op) list \<Rightarrow> adir \<Rightarrow> int list" where
  "arun [] A = []"
| "arun ((i, o') # os) A = (case astep o' A of (r, A') \<Rightarrow> r # arun os A')"

fun all_known :: "(nat \<times> op) list \<Rightarrow> adir \<Rightarrow> bool" where
  "all_known [] A \<longleftrightarrow> True"
| "all_known ((i, o') # os) A \<longleftrightarrow> known o' A \<and> all_known os (snd (astep o' A))"

subsection \<open>The clients\<close>

text \<open>One operation of a client, and the operations of several clients that share the outside world.\<close>

fun cstep :: "nat \<Rightarrow> 'e ext \<Rightarrow> pacon \<Rightarrow> op \<Rightarrow> 'e client \<Rightarrow> (int \<times> 'e client) option" where
  "cstep n E p (OCreate path) s = pacon_create n E p path 0 s"
| "cstep n E p (OMkdir path) s = pacon_mkdir n E p path 0 s"
| "cstep n E p (ORm path) s = pacon_rm n E p path s"
| "cstep n E p (OGetattr path) s = do {
     (r, st, s) \<leftarrow> pacon_getattr n E p path (new_stat 0 0 0 0 0 0 0 0) s;
     Some (r, s)
   }"

fun crun ::
  "nat \<Rightarrow> 'e ext \<Rightarrow> (nat \<Rightarrow> pacon) \<Rightarrow> (nat \<times> op) list \<Rightarrow> (nat \<Rightarrow> 'e client) \<Rightarrow> 'e \<Rightarrow> (int list \<times> 'e) option" where
  "crun n E ps [] cs e = Some ([], e)"
| "crun n E ps ((i, o') # os) cs e = do {
     (r, s) \<leftarrow> cstep n E (ps i) o' ((cs i)\<lparr>env := e\<rparr>);
     (rs, e) \<leftarrow> crun n E ps os (cs(i := s)) (env s);
     Some (r # rs, e)
   }"

subsection \<open>The simulation\<close>

definition rep :: "pacon_stat \<Rightarrow> aentry \<Rightarrow> bool" where
  "rep st a \<longleftrightarrow> get_stat_flag st STAT_file_created = 0 \<and>
     (case a of
        ARemoved \<Rightarrow> get_stat_flag st STAT_rm = 1
      | AFile \<Rightarrow> get_stat_flag st STAT_rm = 0 \<and> get_stat_flag st STAT_type = 1
      | ADir \<Rightarrow> get_stat_flag st STAT_rm = 0 \<and> get_stat_flag st STAT_type = 0)"

definition entry_rep :: "item option \<Rightarrow> aentry option \<Rightarrow> bool" where
  "entry_rep i a \<longleftrightarrow>
     (case a of None \<Rightarrow> i = None | Some a \<Rightarrow> (\<exists>st. entry_stat i = Some st \<and> rep st a))"

definition in_dir :: "path \<Rightarrow> path \<Rightarrow> bool" where
  "in_dir d path \<longleftrightarrow> (\<exists>name. entry_path path d name) \<and> length path + 3 \<le> PATH_MAX"

definition sim :: "path \<Rightarrow> (path \<rightharpoonup> item) \<Rightarrow> adir \<Rightarrow> bool" where
  "sim d I A \<longleftrightarrow> (\<forall>path. in_dir d path \<longrightarrow> entry_rep (I path) (A path))"

definition clients_ok :: "path \<Rightarrow> memcached_st \<Rightarrow> (nat \<Rightarrow> pacon) \<Rightarrow> (nat \<Rightarrow> 'e client) \<Rightarrow> bool" where
  "clients_ok d m ps cs \<longleftrightarrow> (\<forall>i. perm_info (pf (ps i)) = None \<and> memc (kv_of (ps i)) = m \<and> dir_check_table (cs i) d = Some 0)"

lemma entry_rep_None: "entry_rep i None \<longleftrightarrow> i = None"
  by (simp add: entry_rep_def)

lemma entry_rep_Some: "entry_rep i (Some a) \<longleftrightarrow> (\<exists>st. entry_stat i = Some st \<and> rep st a)"
  by (simp add: entry_rep_def)

lemma sim_put: "sim d I A \<Longrightarrow> entry_rep (Some i) (Some a) \<Longrightarrow> sim d (I(path \<mapsto> i)) (A(path \<mapsto> a))"
  by (simp add: sim_def)

lemma not_live_cases:
  assumes "entry_rep i a" "\<not> live a"
  shows "i = None \<or> (\<exists>st. entry_stat i = Some st \<and> get_stat_flag st STAT_rm = 1)"
  using assms by (cases a; cases "the a") (auto simp: entry_rep_def live_def rep_def)

lemma live_rep:
  assumes "entry_rep i a" "live a"
  obtains st where "entry_stat i = Some st" "get_stat_flag st STAT_rm = 0" "get_stat_flag st STAT_file_created = 0"
  using assms by (auto simp: entry_rep_def live_def rep_def)

lemma new_file_rep: "rep (set_stat_flag (new_stat m a b c z u g j) STAT_type 1) AFile"
  by (simp add: rep_def) (simp add: new_stat_def get_stat_flag_def get_flag_word_def)

lemma zero_flags: "ps_flags st = 0 \<Longrightarrow> get_stat_flag st f = 0"
  by (simp add: get_stat_flag_def get_flag_word_def)

lemma parent_listed: "dir_check_table s d = Some 0 \<Longrightarrow> parent_known I d s"
  by (simp add: parent_known_def table_defs ht_get_def)

context client_env
begin

lemma create_sim:
  assumes "perm_info (pf p) = None" "sane_clock E" "memc (kv_of p) = m" "in_dir d path" "dir_check_table s d = Some 0"
    "sim d (items (env s) m) A"
  shows "\<exists>s'. pacon_create (Suc n) E p path 0 s = Some (fst (astep (OCreate path) A), s') \<and>
    sim d (items (env s') m) (snd (astep (OCreate path) A))"
proof -
  from assms(4) obtain name where path: "entry_path path d name" "length path + 3 \<le> PATH_MAX" by (auto simp: in_dir_def)
  have par: "parent_known (items (env s) (memc (kv_of p))) d s" by (rule parent_listed) (rule assms(5))
  have er: "entry_rep (items (env s) m path) (A path)" using assms(4,6) by (simp add: sim_def)
  show ?thesis
  proof (cases "live (A path)")
    case True
    with er obtain st where st: "entry_stat (items (env s) (memc (kv_of p)) path) = Some st" "get_stat_flag st STAT_rm = 0"
      using assms(3) by (auto elim: live_rep)
    from create_existing_run [OF assms(1) path par st, of n 0] True assms(3,6) show ?thesis by auto
  next
    case False
    have "items (env s) (memc (kv_of p)) path = None \<or>
        (\<exists>st. entry_stat (items (env s) (memc (kv_of p)) path) = Some st \<and> get_stat_flag st STAT_rm = 1)"
      using not_live_cases [OF er False] assms(3) by simp
    from create_new_run [OF assms(1,2) path par this refl, of n 0] obtain s' t uid gid junk c where
      r: "pacon_create (Suc n) E p path 0 s = Some (0, s')"
      "items (env s') = put_item m path (stat_bytes (set_stat_flag (new_stat (df_f_mode (pf p)) t t t 0 uid gid junk) STAT_type 1), c) (items (env s))"
      using assms(3) by auto
    have "sim d (items (env s') m) (A(path \<mapsto> AFile))"
      using assms(6) new_file_rep unfolding r(2) by (auto intro!: sim_put simp: entry_rep_Some)
    with r(1) False show ?thesis by simp
  qed
qed

lemma mkdir_existing_run:
  assumes free: "perm_info (pf p) = None"
    and path: "entry_path path d name" "length path + 3 \<le> PATH_MAX"
    and parent: "parent_known (items (env s) (memc (kv_of p))) d s"
    and live: "entry_stat (items (env s) (memc (kv_of p)) path) = Some old" "get_stat_flag old STAT_rm = 0"
  shows "\<exists>s'. pacon_mkdir (Suc n) E p path mode s = Some (-1, s') \<and> items (env s') = items (env s)"
proof -
  note key = entry_path_key [OF path(1)]
  from mkdir_prefix [OF free path parent, of "Suc n" mode] obtain e tb t st
    where e: "items e = items (env s)"
      and pc: "pacon_mkdir (Suc n) E p path mode s = mkdir_tail (Suc n) E p path st t (s\<lparr>dir_check_table := tb, env := e\<rparr>)"
    by blast
  let ?s1 = "s\<lparr>dir_check_table := tb, env := e\<rparr>"
  from live(1) obtain v c where "items (env ?s1) (memc (kv_of p)) path = Some (v, c)" using e by (auto elim: entry_stat_SomeE)
  from add_present [OF key(3) key(2) this, of PSTAT_SIZE "stat_bytes st" n] obtain e1 where
    a: "add_evict (Suc n) E p path (stat_bytes st) PSTAT_SIZE ?s1 = Some (-1, ?s1\<lparr>env := e1\<rparr>)" "items e1 = items (env s)"
    using e by auto
  have "entry_stat (items (env (?s1\<lparr>env := e1\<rparr>)) (memc (kv_of p)) path) = Some old" using live a by simp
  from replace_live [OF key(3) key(2) this, of "stat_bytes st" PSTAT_SIZE] a pc live(2) show ?thesis
    by (auto simp: mkdir_tail_def simp del: add_evict.simps)
qed

lemma mkdir_sim:
  assumes "perm_info (pf p) = None" "sane_clock E" "memc (kv_of p) = m" "in_dir d path" "dir_check_table s d = Some 0"
    "sim d (items (env s) m) A"
  shows "\<exists>s'. pacon_mkdir (Suc n) E p path 0 s = Some (fst (astep (OMkdir path) A), s') \<and>
    sim d (items (env s') m) (snd (astep (OMkdir path) A))"
proof -
  from assms(4) obtain name where path: "entry_path path d name" "length path + 3 \<le> PATH_MAX" by (auto simp: in_dir_def)
  have par: "parent_known (items (env s) (memc (kv_of p))) d s" by (rule parent_listed) (rule assms(5))
  have er: "entry_rep (items (env s) m path) (A path)" using assms(4,6) by (simp add: sim_def)
  show ?thesis
  proof (cases "live (A path)")
    case True
    with er obtain st where st: "entry_stat (items (env s) (memc (kv_of p)) path) = Some st" "get_stat_flag st STAT_rm = 0"
      using assms(3) by (auto elim: live_rep)
    from mkdir_existing_run [OF assms(1) path par st, of n 0] True assms(3,6) show ?thesis by auto
  next
    case False
    from not_live_cases [OF er False] have "\<exists>s' st c. pacon_mkdir (Suc n) E p path 0 s = Some (0, s') \<and> ps_flags st = 0 \<and>
        items (env s') = put_item m path (stat_bytes st, c) (items (env s))"
    proof
      assume "items (env s) m path = None"
      then show ?thesis using mkdir_new_run [OF assms(1,2) path par, of n 0] unfolding assms(3) by blast
    next
      assume "\<exists>st. entry_stat (items (env s) m path) = Some st \<and> get_stat_flag st STAT_rm = 1"
      then show ?thesis using mkdir_removed_run [OF assms(1) path par, of _ n 0] unfolding assms(3) by blast
    qed
    then obtain s' st c where r: "pacon_mkdir (Suc n) E p path 0 s = Some (0, s')" "ps_flags st = 0"
      "items (env s') = put_item m path (stat_bytes st, c) (items (env s))" by blast
    have "sim d (items (env s') m) (A(path \<mapsto> ADir))"
      using assms(6) zero_flags [OF r(2)] unfolding r(3) by (auto intro!: sim_put simp: entry_rep_Some rep_def)
    with r(1) False show ?thesis by simp
  qed
qed

lemma rm_sim:
  assumes "perm_info (pf p) = None" "sane_clock E" "memc (kv_of p) = m" "in_dir d path" "A path \<noteq> None"
    "sim d (items (env s) m) A"
  shows "\<exists>s'. pacon_rm (Suc n) E p path s = Some (fst (astep (ORm path) A), s') \<and>
    sim d (items (env s') m) (snd (astep (ORm path) A))"
proof -
  from assms(4) obtain name where path: "entry_path path d name" "length path + 3 \<le> PATH_MAX" by (auto simp: in_dir_def)
  note key = entry_path_key [OF path(1)]
  have "entry_rep (items (env s) m path) (A path)" using assms(4,6) by (simp add: sim_def)
  with assms(5) obtain a st where st: "entry_stat (items (env s) (memc (kv_of p)) path) = Some st" "rep st a"
    using assms(3) by (auto simp: entry_rep_Some)
  from rm_cached_run [OF assms(1,2) key(3) key(2) path(2) st(1), of n] obtain s' c where
    r: "pacon_rm (Suc n) E p path s = Some (0, s')"
      "items (env s') = put_item m path (stat_bytes (set_stat_flag st STAT_rm 1), c) (items (env s))"
    using assms(3) by auto
  have "sim d (items (env s') m) (A(path \<mapsto> ARemoved))"
    using assms(6) st(2) unfolding r(2) by (auto intro!: sim_put simp: entry_rep_Some rep_def)
  with r(1) show ?thesis by simp
qed

lemma getattr_sim:
  assumes "perm_info (pf p) = None" "memc (kv_of p) = m" "in_dir d path" "A path \<noteq> None" "sim d (items (env s) m) A"
  shows "\<exists>s'. cstep (Suc n) E p (OGetattr path) s = Some (fst (astep (OGetattr path) A), s') \<and>
    sim d (items (env s') m) (snd (astep (OGetattr path) A))"
proof -
  from assms(3) obtain name where path: "entry_path path d name" by (auto simp: in_dir_def)
  note key = entry_path_key [OF path]
  have "entry_rep (items (env s) m path) (A path)" using assms(3,5) by (simp add: sim_def)
  with assms(4) obtain a st where st: "entry_stat (items (env s) (memc (kv_of p)) path) = Some st" "rep st a" "A path = Some a"
    using assms(2) by (auto simp: entry_rep_Some)
  have "get_stat_flag st STAT_inline = 1 \<or> get_stat_flag st STAT_file_created = 0" using st(2) by (simp add: rep_def)
  from getattr_cached_run [OF assms(1) key(3) key(2) st(1) this] obtain e where
    g: "pacon_getattr (Suc n) E p path (new_stat 0 0 0 0 0 0 0 0) s = Some (if get_stat_flag st STAT_rm = 1 then -1 else 0,
      st\<lparr>ps_open_counter := ps_open_counter (new_stat 0 0 0 0 0 0 0 0), ps_fd := ps_fd (new_stat 0 0 0 0 0 0 0 0)\<rparr>, s\<lparr>env := e\<rparr>)"
      "items e = items (env s)" by blast
  moreover have "live (A path) \<longleftrightarrow> get_stat_flag st STAT_rm \<noteq> 1"
    using st(2,3) by (cases a) (auto simp: live_def rep_def)
  ultimately show ?thesis using assms(5) by simp
qed

lemma step_sim:
  assumes "perm_info (pf p) = None" "sane_clock E" "memc (kv_of p) = m" "in_dir d (op_path o')" "known o' A"
    "dir_check_table s d = Some 0" "sim d (items (env s) m) A"
  shows "\<exists>s'. cstep (Suc n) E p o' s = Some (fst (astep o' A), s') \<and> sim d (items (env s') m) (snd (astep o' A)) \<and>
    dir_check_table s' d = Some 0"
proof -
  have "\<exists>s'. cstep (Suc n) E p o' s = Some (fst (astep o' A), s') \<and> sim d (items (env s') m) (snd (astep o' A))"
    using assms create_sim [OF assms(1-3)] mkdir_sim [OF assms(1-3)] rm_sim [OF assms(1-3)] getattr_sim [OF assms(1,3)]
    by (cases o') auto
  then obtain s' where s': "cstep (Suc n) E p o' s = Some (fst (astep o' A), s')" "sim d (items (env s') m) (snd (astep o' A))"
    by blast
  have "client_step E s s'"
    using s'(1) by (cases o') (auto intro: client_step.intros simp: bind_eq_Some_conv)
  then have "dir_check_table s' d = Some 0" by (rule kept.client_step_keeps) (rule assms(6))
  with s' show ?thesis by blast
qed

lemma run_sim:
  assumes "sane_clock E" "clients_ok d m ps cs" "\<forall>(i, o') \<in> set os. in_dir d (op_path o')" "all_known os A"
    "sim d (items e m) A"
  shows "\<exists>e'. crun (Suc n) E ps os cs e = Some (arun os A, e')"
  using assms
proof (induction os arbitrary: cs e A)
  case Nil
  then show ?case by simp
next
  case (Cons x os)
  obtain i o' where x: "x = (i, o')" by (cases x)
  have c: "perm_info (pf (ps i)) = None" "memc (kv_of (ps i)) = m" "dir_check_table ((cs i)\<lparr>env := e\<rparr>) d = Some 0"
    using Cons.prems(2) by (simp_all add: clients_ok_def)
  have o: "in_dir d (op_path o')" "known o' A" "all_known os (snd (astep o' A))" using Cons.prems(3,4) x by simp_all
  have sm: "sim d (items (env ((cs i)\<lparr>env := e\<rparr>)) m) A" using Cons.prems(5) by simp
  from step_sim [OF c(1) Cons.prems(1) c(2) o(1,2) c(3) sm, of n] obtain s' where
    s': "cstep (Suc n) E (ps i) o' ((cs i)\<lparr>env := e\<rparr>) = Some (fst (astep o' A), s')"
      "sim d (items (env s') m) (snd (astep o' A))" "dir_check_table s' d = Some 0" by blast
  have "clients_ok d m ps (cs(i := s'))" using Cons.prems(2) s'(3) by (simp add: clients_ok_def)
  moreover have "\<forall>(i, o') \<in> set os. in_dir d (op_path o')" using Cons.prems(3) by simp
  ultimately obtain e' where "crun (Suc n) E ps os (cs(i := s')) (env s') = Some (arun os (snd (astep o' A)), e')"
    using Cons.IH [OF Cons.prems(1) _ _ o(3) s'(2)] by blast
  with s'(1) x show ?case by (simp add: split_def)
qed

end

subsection \<open>Properties\<close>

text \<open>
  C1: The clients of a region implement one shared directory. Take any number of clients that have
  checked the directory, and any sequence in which they create files and directories in it, remove
  known entries and ask for their attributes, in whatever interleaving: every operation returns,
  and the results are the ones of the abstract directory \<open>astep\<close>, a map from paths to files,
  directories and removed entries, on which the operations are run in the same order.
\<close>

theorem clients_refine_directory:
  assumes "client_env E items sent" "sane_clock E" "clients_ok d m ps cs" "\<forall>(i, o') \<in> set os. in_dir d (op_path o')"
    "all_known os A" "sim d (items e m) A"
  shows "\<exists>e'. crun (Suc n) E ps os cs e = Some (arun os A, e')"
  using assms by (rule client_env.run_sim)

theorem clients_refine_directory_witness:
  "\<exists>e'. crun 1 ref_ext (\<lambda>i. ref_pacon) [(0, OCreate ''/w/a''), (1, OCreate ''/w/a''), (1, ORm ''/w/a''), (0, OGetattr ''/w/a''), (2, OMkdir ''/w/a'')]
      (\<lambda>i. ref_client) ref_env0 = Some ([0, -1, 0, -1, 0], e')"
proof -
  have c: "clients_ok ''/w'' [''10.0.0.1''] (\<lambda>i. ref_pacon) (\<lambda>i. ref_client)"
    by (simp add: clients_ok_def ref_client_defs)
  have d: "in_dir ''/w'' ''/w/a''" using ref_path by (auto simp: in_dir_def PATH_MAX_def)
  have s: "sim ''/w'' (r_items ref_env0 [''10.0.0.1'']) Map.empty" by (simp add: sim_def entry_rep_None ref_env0_def)
  let ?ops = "[(0, OCreate ''/w/a''), (1, OCreate ''/w/a''), (1, ORm ''/w/a''), (0, OGetattr ''/w/a''), (2, OMkdir ''/w/a'')]"
  have o: "\<forall>(i, o') \<in> set ?ops. in_dir ''/w'' (op_path o')" "all_known ?ops Map.empty"
    using d by (simp_all add: live_def)
  have "\<exists>e'. crun (Suc 0) ref_ext (\<lambda>i. ref_pacon) ?ops (\<lambda>i. ref_client) ref_env0 = Some (arun ?ops Map.empty, e')"
    using clients_refine_directory [of ref_ext r_items r_sent "''/w''" "[''10.0.0.1'']" "\<lambda>i. ref_pacon" "\<lambda>i. ref_client" ?ops Map.empty ref_env0 0]
      ref.client_env_axioms ref_clock c o s by blast
  then show ?thesis by (simp add: live_def del: crun.simps)
qed

text \<open>
  C22: The table of checked directories. From a state in which it holds only zeros, whatever
  operations a client runs, on whatever handles (setting up, the namespace, open, reads and writes,
  fsync, eviction, barriers, checkpoints, joining regions), and whatever the outside world does in
  between, a lookup misses exactly for the directories that are not in the table, and a directory
  that was in it is still in it: no operation, \<open>pacon_rmdir\<close> included, ever takes one out.
\<close>

theorem check_table_only_grows:
  assumes "(client_step E)\<^sup>*\<^sup>* s s'" "check_table_ok s"
  shows "(dir_check_local k s' \<noteq> -1 \<longleftrightarrow> dir_check_table s' k \<noteq> None) \<and>
    (dir_check_table s d = Some v \<longrightarrow> dir_check_table s' d = Some v)"
  using zeros.client_runs_keep [OF assms] kept.client_runs_keep [OF assms(1), of d v] check_table_ok_hit by blast

theorem check_table_only_grows_witness:
  "\<exists>s'. (client_step ref_ext)\<^sup>*\<^sup>* ref_client s' \<and> dir_check_local ''/w'' s' \<noteq> -1"
proof -
  have ok: "check_table_ok ref_client" by (simp add: check_table_ok_def ref_client_defs)
  obtain s1 where "pacon_create 1 ref_ext ref_pacon ''/w/a'' 0 ref_client = Some (0, s1)" using ref_create_runs by blast
  then have "client_step ref_ext ref_client s1" by (rule step_create)
  then have r: "(client_step ref_ext)\<^sup>*\<^sup>* ref_client s1" by blast
  have "dir_check_table ref_client ''/w'' = Some 0" by (simp add: ref_client_defs)
  with check_table_only_grows [OF r ok, of "''/w''" "''/w''" 0] r show ?thesis by auto
qed

end
