(* ===== verification/Pipeline.thy ===== *)
theory Pipeline
  imports Server_Thms File_Thms
begin

text \<open>
  The client and the server together: the commit queue as a whole, compared with an abstract queue
  of operations on the file system, and what an operation of a client does to the file system once
  its message is handled.
\<close>

subsection \<open>The commit queue\<close>











subsection \<open>Properties\<close>









end
