(* ===== verification/Async_Rmdir.thy ===== *)
theory Async_Rmdir
  imports Server_Thms Namespace_Thms "HOL-Library.Signed_Division"
begin

text \<open>
  The asynchronous form of rmdir, which the sources compile with \<open>ASYNC_RPC = 1\<close>: the server notes
  the directories that are being removed in a table in shared memory (\<open>rmdir_pre\<close>, \<open>rmdir_post\<close>,
  \<open>commit_to_fs_barrier_pre\<close>, \<open>commit_to_fs_barrier_post\<close> and \<open>listen_local_rpc_async\<close> of
  \<open>pacon_server.c\<close>), and the clients of the node look paths up in it (\<open>check_rmdir_list\<close> of
  \<open>pacon.c\<close>).

  A segment of shared memory holds one \<open>struct rmdir_record\<close>. The segments are a store from their
  keys, which all processes of the node share; a segment that was never used is all zeros. \<open>shmget\<close>
  and \<open>shmat\<close> themselves belong to the environment, and can fail.
\<close>

subsection \<open>The table\<close>

definition RMDIRLIST_MAX :: int where [c_consts]: "RMDIRLIST_MAX = 128"
definition SHMKEY :: int where [c_consts]: "SHMKEY = 1"

record rmdir_record =
  rmdir_num :: int
  rmdir_list :: "string list"
  shmid_count :: int

type_synonym shm = "int \<Rightarrow> rmdir_record"

text \<open>\<open>shmget\<close> and \<open>shmat\<close> of the segment with the key \<open>key\<close>; false when one of them fails.\<close>

definition shm_attach ::
  "'e ext \<Rightarrow> int \<Rightarrow> ('e, 'z) world_scheme \<Rightarrow> (bool \<times> ('e, 'z) world_scheme) option" where
  "shm_attach E key s = do {
     (shmid, s) \<leftarrow> ext_call (c_shmget E key) s;
     if shmid = -1 then Some (False, s) else ext_call (c_shmat E shmid) s
   }"

subsection \<open>Looking up a path\<close>

text \<open>The segments \<open>i\<close> to \<open>shmid_count\<close>; in the last one the entries up to \<open>rmdir_num % RMDIRLIST_MAX\<close>.\<close>

function check_segments ::
  "'e ext \<Rightarrow> string \<Rightarrow> shm \<Rightarrow> int \<Rightarrow> 'e client \<Rightarrow> (int \<times> 'e client) option" where
  "check_segments E path m i s =
     (if i \<le> shmid_count (m SHMKEY) then do {
        (ok, s) \<leftarrow> (if i = 1 then Some (True, s) else shm_attach E i s);
        if \<not> ok then Some (-1, s)
        else do {
          let l = rmdir_list (m (if i = 1 then SHMKEY else i));
          let top = (if i < shmid_count (m SHMKEY) then RMDIRLIST_MAX else rmdir_num (m SHMKEY) smod RMDIRLIST_MAX);
          guard (top \<le> int (length l));
          if \<exists>d \<in> set (take (nat top) l). child_cmp_new path d 1 \<noteq> 0 then Some (-1, s)
          else check_segments E path m (i + 1) s
        }
      }
      else Some (0, s))"
  by pat_completeness auto
termination
  by (relation "measure (\<lambda>(E, path, m, i, s). nat (shmid_count (m SHMKEY) + 1 - i))") auto

declare check_segments.simps [simp del]

definition check_rmdir_list :: "'e ext \<Rightarrow> string \<Rightarrow> shm \<Rightarrow> 'e client \<Rightarrow> (int \<times> 'e client) option" where
  "check_rmdir_list E path m s = check_segments E path m 1 s"

subsection \<open>Adding a directory\<close>

definition rmdir_pre ::
  "'e ext \<Rightarrow> string \<Rightarrow> int \<Rightarrow> shm \<Rightarrow> 'e server \<Rightarrow> (int \<times> shm \<times> 'e server) option" where
  "rmdir_pre E path remote m s = do {
     let loc = rmdir_num (m SHMKEY);
     let shmkey = shmid_count (m SHMKEY);
     let full = (loc + 1 > shmkey * RMDIRLIST_MAX);
     (ok, s) \<leftarrow> (if full then shm_attach E (shmkey + 1) s else Some (True, s));
     if \<not> ok then Some (-1, m, s)
     else do {
       let shmkey = (if full then shmkey + 1 else shmkey);
       let key = (if full then shmkey else SHMKEY);
       let loc = (if full then loc smod RMDIRLIST_MAX else loc);
       guard (length path < PATH_MAX);
       l \<leftarrow> arr_set (rmdir_list (m key)) loc path;
       let m = m(key := (m key)\<lparr>rmdir_list := l\<rparr>);
       let r = (m SHMKEY)\<lparr>rmdir_num := rmdir_num (m SHMKEY) + 1\<rparr>;
       let r = (if rmdir_num r \<le> (shmkey - 1) * RMDIRLIST_MAX \<and> shmkey > 1
                then r\<lparr>shmid_count := shmid_count r + 1\<rparr> else r);
       let m = m(SHMKEY := r);
       if remote = 0 then do {
         c_mesg \<leftarrow> sprintf_buf (PATH_MAX + 3) ('':1'' @ path);
         (ret, s) \<leftarrow> server_broadcast E (sv_comm s) c_mesg s;
         Some (if ret \<noteq> 0 then -1 else 0, m, s)
       }
       else Some (0, m, s)
     }
   }"

subsection \<open>Taking a directory out\<close>

text \<open>
  The body of the inner loop for an entry that is the path: the entry at \<open>last_pos\<close> of the last
  segment moves to the slot \<open>pos\<close>, and the counters go down.
\<close>

definition post_move :: "int \<Rightarrow> int \<Rightarrow> shm \<Rightarrow> shm option" where
  "post_move last_shmkey pos m = do {
     let last_pos = rmdir_num (m SHMKEY) smod RMDIRLIST_MAX;
     let key = (if last_shmkey > 1 then last_shmkey else SHMKEY);
     m \<leftarrow> (if last_shmkey = 1 \<and> pos = last_pos then Some m
           else do {
             d \<leftarrow> arr_get (rmdir_list (m key)) last_pos;
             l \<leftarrow> arr_set (rmdir_list (m SHMKEY)) pos d;
             Some (m(SHMKEY := (m SHMKEY)\<lparr>rmdir_list := l\<rparr>))
           });
     l \<leftarrow> arr_set (rmdir_list (m key)) last_pos [];
     let m = m(key := (m key)\<lparr>rmdir_list := l\<rparr>);
     let r = (m SHMKEY)\<lparr>rmdir_num := rmdir_num (m SHMKEY) - 1\<rparr>;
     let r = (if rmdir_num r \<le> (last_shmkey - 1) * RMDIRLIST_MAX \<and> last_shmkey > 1
              then r\<lparr>shmid_count := shmid_count r - 1\<rparr> else r);
     Some (m(SHMKEY := r))
   }"

lemma post_move_num: "post_move k pos m = Some m' \<Longrightarrow> rmdir_num (m' SHMKEY) = rmdir_num (m SHMKEY) - 1"
  by (auto simp: post_move_def bind_eq_Some_conv Let_def split: if_splits)

function post_scan :: "string \<Rightarrow> int \<Rightarrow> int \<Rightarrow> shm \<Rightarrow> shm option" where
  "post_scan path last_shmkey j m =
     (if j < rmdir_num (m SHMKEY) then do {
        d \<leftarrow> arr_get (rmdir_list (m SHMKEY)) j;
        m' \<leftarrow> (if child_cmp_new path d 1 = 2 then post_move last_shmkey j m else Some m);
        post_scan path last_shmkey (j + 1) m'
      }
      else Some m)"
  by pat_completeness auto
termination
  by (relation "measure (\<lambda>(path, k, j, m). nat (rmdir_num (m SHMKEY) - j))") (auto dest: post_move_num split: if_splits)

declare post_scan.simps [simp del]

text \<open>
  The outer loop counts the segments with \<open>i\<close>, but its body starts with the assignment \<open>if (i = 1)\<close>:
  every round works on the first segment and ends with 2 in \<open>i\<close>. Fuel bounds the rounds.
\<close>

fun post_segments :: "nat \<Rightarrow> string \<Rightarrow> int \<Rightarrow> int \<Rightarrow> shm \<Rightarrow> shm option" where
  "post_segments 0 path last_shmkey i m = None"
| "post_segments (Suc n) path last_shmkey i m =
     (if i \<le> shmid_count (m SHMKEY) then do {
        m \<leftarrow> post_scan path last_shmkey 0 m;
        post_segments n path last_shmkey 2 m
      }
      else Some m)"

text \<open>The function has no return at its end: what the caller reads is not determined.\<close>

definition rmdir_post ::
  "nat \<Rightarrow> 'e ext \<Rightarrow> string \<Rightarrow> int \<Rightarrow> shm \<Rightarrow> 'e server \<Rightarrow> (int \<times> shm \<times> 'e server) option" where
  "rmdir_post n E path remote m s = do {
     s \<leftarrow> traversedir_dmkv_del n E path s;
     let last_shmkey = shmid_count (m SHMKEY);
     (ok, s) \<leftarrow> (if last_shmkey > 1 then shm_attach E last_shmkey s else Some (True, s));
     if \<not> ok then Some (-1, m, s)
     else do {
       m \<leftarrow> post_segments n path last_shmkey 1 m;
       (ret, s) \<leftarrow> (if remote = 0 then do {
           c_mesg \<leftarrow> sprintf_buf (PATH_MAX + 3) ('':2'' @ path);
           server_broadcast E (sv_comm s) c_mesg s
         }
         else Some (0, s));
       if ret \<noteq> 0 then Some (-1, m, s)
       else do {
         (junk, s) \<leftarrow> ext_call (c_indet E) s;
         Some (sint junk, m, s)
       }
     }
   }"

subsection \<open>Requests\<close>

text \<open>Both functions take the path from the start of the message up to the colon.\<close>

definition commit_to_fs_barrier_pre ::
  "'e ext \<Rightarrow> string \<Rightarrow> shm \<Rightarrow> 'e server \<Rightarrow> (int \<times> shm \<times> 'e server) option" where
  "commit_to_fs_barrier_pre E mesg m s = do {
     guard (CHR '':'' \<in> set mesg \<and> length (mesg_path mesg) < PATH_MAX);
     (ret, s) \<leftarrow> broadcast_barrier_begin_async E (mesg_time mesg) s;
     if ret \<noteq> 0 then Some (-1, m, s)
     else if mesg_op mesg = CHR ''4'' then do {
       (ret, m, s) \<leftarrow> rmdir_pre E (mesg_path mesg) 0 m s;
       Some (if ret \<noteq> 0 then -1 else 0, m, s)
     }
     else Some (-1, m, s)
   }"

definition commit_to_fs_barrier_post ::
  "nat \<Rightarrow> 'e ext \<Rightarrow> string \<Rightarrow> shm \<Rightarrow> 'e server \<Rightarrow> (int \<times> shm \<times> 'e server) option" where
  "commit_to_fs_barrier_post n E mesg m s = do {
     guard (CHR '':'' \<in> set mesg \<and> length (mesg_path mesg) < PATH_MAX);
     if mesg_op mesg = CHR ''4'' then do {
       (ret, m, s) \<leftarrow> rmdir_post n E (mesg_path mesg) 0 m s;
       if ret \<noteq> 0 then Some (-1, m, s)
       else do {
         (_, s) \<leftarrow> broadcast_barrier_end_async E s;
         Some (0, m, s)
       }
     }
     else Some (-1, m, s)
   }"

text \<open>
  One turn of the listener. Requests other than rmdir go to \<open>commit_to_fs_barrier\<close>; the branch for
  rmdir of that function is not reached from here.
\<close>

definition listen_local_rpc_async ::
  "nat \<Rightarrow> 'e ext \<Rightarrow> shm \<Rightarrow> 'e server \<Rightarrow> (unit wait \<times> shm \<times> 'e server) option" where
  "listen_local_rpc_async n E m s = do {
     (x, s) \<leftarrow> recv_string E (local_rpc_rep s) s;
     (case x of
        None \<Rightarrow> Some (Ret (), m, s)
      | Some mesg \<Rightarrow> do {
          guard (CHR '':'' \<in> set mesg);
          if mesg_op mesg = CHR ''4'' then do {
            (ret, m, s) \<leftarrow> commit_to_fs_barrier_pre E mesg m s;
            (_, s) \<leftarrow> ext_call (zmq_send E (local_rpc_rep s) (rpc_reply ret)) s;
            Some (Ret (), m, s)
          }
          else do {
            (w, s) \<leftarrow> commit_to_fs_barrier n E mesg s;
            (case w of
               Spin \<Rightarrow> Some (Spin, m, s)
             | Ret ret \<Rightarrow> do {
                 (_, s) \<leftarrow> ext_call (zmq_send E (local_rpc_rep s) (rpc_reply ret)) s;
                 Some (Ret (), m, s)
               })
          }
        })
   }"

text \<open>
  The case of RMDIR in \<open>commit_to_fs\<close>, and the two cases of \<open>handle_cluster_mesg\<close> for the broadcasts of
  \<open>rmdir_pre\<close> and \<open>rmdir_post\<close>, where the path is what follows the first two characters.
\<close>

definition commit_rmdir_async ::
  "nat \<Rightarrow> 'e ext \<Rightarrow> string \<Rightarrow> shm \<Rightarrow> 'e server \<Rightarrow> (int \<times> shm \<times> 'e server) option" where
  "commit_rmdir_async n E mesg m s = do {
     (ret, s) \<leftarrow> broadcast_wait_barrier E s;
     if ret \<noteq> 0 then Some (-1, m, s)
     else do {
       (ret, m, s) \<leftarrow> commit_to_fs_barrier_post n E mesg m s;
       Some (if ret \<noteq> 0 then -1 else 0, m, s)
     }
   }"

definition cluster_rmdir_async ::
  "nat \<Rightarrow> 'e ext \<Rightarrow> string \<Rightarrow> shm \<Rightarrow> 'e server \<Rightarrow> (int \<times> shm \<times> 'e server) option" where
  "cluster_rmdir_async n E mesg m s = do {
     guard (CHR '':'' \<in> set mesg \<and> length (mesg_path mesg) < PATH_MAX);
     (ret, m, s) \<leftarrow>
       (if mesg_op mesg = CHR ''1'' then rmdir_pre E (drop 2 mesg) 1 m s
        else rmdir_post n E (drop 2 mesg) 1 m s);
     Some (if ret \<noteq> 0 then -1 else 0, m, s)
   }"

text \<open>The client's \<open>init_pacon\<close> and the server's start attach the first segment and clear its counters.\<close>

definition init_pacon_shm :: "'e ext \<Rightarrow> shm \<Rightarrow> 'e client \<Rightarrow> (int \<times> shm \<times> 'e client) option" where
  "init_pacon_shm E m s = do {
     (ok, s) \<leftarrow> shm_attach E SHMKEY s;
     Some (if ok then 0 else -1,
       if ok then m(SHMKEY := (m SHMKEY)\<lparr>rmdir_num := 0, shmid_count := 1\<rparr>) else m, s)
   }"

definition start_server_shm :: "'e ext \<Rightarrow> shm \<Rightarrow> 'e server \<Rightarrow> (int \<times> shm \<times> 'e server) option" where
  "start_server_shm E m s = do {
     (ok, s) \<leftarrow> shm_attach E SHMKEY s;
     Some (if ok then 0 else -1, if ok then m(SHMKEY := (m SHMKEY)\<lparr>rmdir_num := 0\<rparr>) else m, s)
   }"

subsection \<open>Lookups in one segment\<close>

text \<open>The paths that a list of removed directories covers.\<close>

definition covers :: "string list \<Rightarrow> string \<Rightarrow> bool" where
  "covers l q \<longleftrightarrow> (\<exists>d \<in> set l. q = d \<or> (\<exists>r. q = d @ CHR ''/'' # r))"

lemma covers_cmp: "(\<exists>d \<in> set l. child_cmp_new q d 1 \<noteq> 0) \<longleftrightarrow> covers l q"
  by (auto simp: covers_def child_cmp_new_eq)

lemma covers_append [simp]: "covers (l @ l') q \<longleftrightarrow> covers l q \<or> covers l' q"
  by (auto simp: covers_def)

lemma covers_Cons: "covers (d # l) q \<longleftrightarrow> q = d \<or> (\<exists>r. q = d @ CHR ''/'' # r) \<or> covers l q"
  by (auto simp: covers_def)

text \<open>The table fits into the first segment, with room for one more entry.\<close>

definition one_segment :: "shm \<Rightarrow> bool" where
  "one_segment m \<longleftrightarrow> shmid_count (m SHMKEY) = 1 \<and> 0 \<le> rmdir_num (m SHMKEY) \<and> rmdir_num (m SHMKEY) < RMDIRLIST_MAX \<and>
     length (rmdir_list (m SHMKEY)) = nat RMDIRLIST_MAX"

definition noted :: "shm \<Rightarrow> string list" where
  "noted m = take (nat (rmdir_num (m SHMKEY))) (rmdir_list (m SHMKEY))"

lemma smod_small: "0 \<le> a \<Longrightarrow> a < b \<Longrightarrow> (a :: int) smod b = a"
  by (simp add: signed_modulo_int_def sgn_if)

lemma check_one_segment:
  assumes "one_segment m"
  shows "check_rmdir_list E q m c = Some (if covers (noted m) q then -1 else 0, c)"
  using assms check_segments.simps [of E q m 1 c] check_segments.simps [of E q m 2 c]
  by (simp add: check_rmdir_list_def one_segment_def noted_def smod_small covers_cmp Let_def)

lemma rmdir_pre_one_segment:
  assumes "one_segment m" "length path < PATH_MAX"
  defines "m' \<equiv> m(SHMKEY := (m SHMKEY)\<lparr>rmdir_list := (rmdir_list (m SHMKEY))[nat (rmdir_num (m SHMKEY)) := path],
      rmdir_num := rmdir_num (m SHMKEY) + 1\<rparr>)"
  shows "rmdir_pre E path remote m s =
    (if remote = 0 then do {
         c_mesg \<leftarrow> sprintf_buf (PATH_MAX + 3) ('':1'' @ path);
         (ret, s) \<leftarrow> server_broadcast E (sv_comm s) c_mesg s;
         Some (if ret \<noteq> 0 then -1 else 0, m', s)
       }
     else Some (0, m', s))"
    and "noted m' = noted m @ [path]"
proof -
  have l: "arr_set (rmdir_list (m SHMKEY)) (rmdir_num (m SHMKEY)) path =
      Some ((rmdir_list (m SHMKEY))[nat (rmdir_num (m SHMKEY)) := path])"
    using assms(1) by (intro arr_set_ok) (simp_all add: one_segment_def RMDIRLIST_MAX_def)
  show "rmdir_pre E path remote m s = (if remote = 0 then do {
         c_mesg \<leftarrow> sprintf_buf (PATH_MAX + 3) ('':1'' @ path);
         (ret, s) \<leftarrow> server_broadcast E (sv_comm s) c_mesg s;
         Some (if ret \<noteq> 0 then -1 else 0, m', s) } else Some (0, m', s))"
    using assms(1,2) l by (simp add: rmdir_pre_def one_segment_def Let_def m'_def)
  have "nat (rmdir_num (m SHMKEY) + 1) = Suc (nat (rmdir_num (m SHMKEY)))" "nat (rmdir_num (m SHMKEY)) < length (rmdir_list (m SHMKEY))"
    using assms(1) by (auto simp: one_segment_def RMDIRLIST_MAX_def)
  then show "noted m' = noted m @ [path]"
    by (simp add: noted_def m'_def take_Suc_conv_app_nth)
qed

subsection \<open>Properties\<close>

text \<open>
  C28: A directory that \<open>rmdir_pre\<close> notes is seen by the clients: as long as the table fits into one
  segment, \<open>check_rmdir_list\<close> afterwards returns -1 for the directory and everything below it, and
  for every other path what it returned before.
\<close>

theorem rmdir_pre_then_check:
  assumes "one_segment m" "rmdir_num (m SHMKEY) + 1 < RMDIRLIST_MAX" "length path < PATH_MAX"
  shows "\<exists>m'. (remote \<noteq> 0 \<longrightarrow> rmdir_pre E path remote m s = Some (0, m', s)) \<and>
    (\<forall>ret m2 s2. rmdir_pre E path remote m s = Some (ret, m2, s2) \<longrightarrow> m2 = m') \<and>
    (\<forall>q c. check_rmdir_list E q m' c =
      (if q = path \<or> (\<exists>r. q = path @ CHR ''/'' # r) then Some (-1, c) else check_rmdir_list E q m c))"
proof -
  let ?m = "m(SHMKEY := (m SHMKEY)\<lparr>rmdir_list := (rmdir_list (m SHMKEY))[nat (rmdir_num (m SHMKEY)) := path],
      rmdir_num := rmdir_num (m SHMKEY) + 1\<rparr>)"
  note r = rmdir_pre_one_segment [OF assms(1,3)]
  have "one_segment ?m" using assms(1,2) by (simp add: one_segment_def)
  then have "check_rmdir_list E q ?m c =
      (if q = path \<or> (\<exists>r. q = path @ CHR ''/'' # r) then Some (-1, c) else check_rmdir_list E q m c)" for q and c
    using assms(1) r(2) by (simp add: check_one_segment covers_Cons) (simp add: covers_def)
  moreover have "rmdir_pre E path remote m s = Some (ret, m2, s2) \<Longrightarrow> m2 = ?m" for ret m2 s2
    by (simp add: r(1) bind_eq_Some_conv split: if_splits) blast
  moreover have "remote \<noteq> 0 \<Longrightarrow> rmdir_pre E path remote m s = Some (0, ?m, s)" by (simp add: r(1))
  ultimately show ?thesis by (intro exI [of _ ?m]) blast
qed

definition ref_table :: "string list \<Rightarrow> shm" where
  "ref_table l = (\<lambda>_. \<lparr>rmdir_num = int (length l), rmdir_list = l @ replicate (128 - length l) [], shmid_count = 1\<rparr>)"

lemma ref_table_one: "length l < 128 \<Longrightarrow> one_segment (ref_table l)"
  by (simp add: one_segment_def ref_table_def RMDIRLIST_MAX_def)

theorem rmdir_pre_then_check_witness:
  "\<exists>m'. rmdir_pre ref_ext ''/w/d'' 1 (ref_table []) (ref_server ref_env0) = Some (0, m', ref_server ref_env0) \<and>
    check_rmdir_list ref_ext ''/w/d/f'' m' ref_client = Some (-1, ref_client) \<and>
    check_rmdir_list ref_ext ''/w/e'' m' ref_client = check_rmdir_list ref_ext ''/w/e'' (ref_table []) ref_client"
  using rmdir_pre_then_check [OF ref_table_one, of "[]" "''/w/d''" 1 ref_ext "ref_server ref_env0"]
  by (auto simp: ref_table_def RMDIRLIST_MAX_def PATH_MAX_def)

text \<open>
  C29: With two directories in the table, \<open>rmdir_post\<close> of the first one puts the empty slot behind the
  last entry in its place: the second directory is lost from the table, and from then on
  \<open>check_rmdir_list\<close> takes every absolute path for removed.
\<close>

theorem rmdir_post_hides_everything:
  assumes "m SHMKEY = \<lparr>rmdir_num = 2, rmdir_list = a # b # [] # rest, shmid_count = 1\<rparr>" "length rest = 125"
    "traversedir_dmkv_del (Suc (Suc n)) E a s = Some s1"
  shows "\<exists>ret m' s2. rmdir_post (Suc (Suc n)) E a 1 m s = Some (ret, m', s2) \<and> noted m' = [[]] \<and>
    (\<forall>q c. check_rmdir_list E (CHR ''/'' # q) m' c = Some (-1, c))"
proof -
  let ?m = "m(SHMKEY := \<lparr>rmdir_num = 1, rmdir_list = [] # b # [] # rest, shmid_count = 1\<rparr>)"
  have "post_move 1 0 m = Some ?m"
    using assms(1,2) by (simp add: post_move_def smod_small RMDIRLIST_MAX_def arr_get_def arr_set_def Let_def)
  then have "post_scan a 1 0 m = Some ?m"
    using assms(1) by (simp add: post_scan.simps [of a 1 0 m] post_scan.simps [of a 1 1] arr_get_def child_cmp_new_eq)
  then have "post_segments (Suc (Suc n)) a 1 1 m = Some ?m" using assms(1) by simp
  then have r: "\<exists>ret s2. rmdir_post (Suc (Suc n)) E a 1 m s = Some (ret, ?m, s2)"
    using assms(1,3) by (simp add: rmdir_post_def ext_call_eq del: post_segments.simps)
  have n: "noted ?m = [[]]" by (simp add: noted_def)
  have "one_segment ?m" using assms(2) by (simp add: one_segment_def RMDIRLIST_MAX_def)
  then have "check_rmdir_list E (CHR ''/'' # q) ?m c = Some (-1, c)" for q and c
    by (simp add: check_one_segment n covers_Cons del: fun_upd_apply)
  with r n show ?thesis by blast
qed

definition ref_env_dir :: ref_env where
  "ref_env_dir = ref_env0\<lparr>r_fs := [''/w'' \<mapsto> FDir, ''/w/a'' \<mapsto> FDir], r_ls := [''/w/a'' \<mapsto> []]\<rparr>"

theorem rmdir_post_hides_everything_witness:
  "\<exists>ret m' s2. rmdir_post 2 ref_ext ''/w/a'' 1 (ref_table [''/w/a'', ''/w/b'']) (ref_server ref_env_dir) = Some (ret, m', s2) \<and>
    check_rmdir_list ref_ext ''/w/other'' m' ref_client = Some (-1, ref_client)"
proof -
  have t: "ref_table [''/w/a'', ''/w/b''] SHMKEY =
      \<lparr>rmdir_num = 2, rmdir_list = ''/w/a'' # ''/w/b'' # [] # replicate 125 [], shmid_count = 1\<rparr>"
    by (simp add: ref_table_def numeral_eq_Suc)
  have "\<exists>s1. traversedir_dmkv_del (Suc (Suc 0)) ref_ext ''/w/a'' (ref_server ref_env_dir) = Some s1"
    by (simp add: ext_call_eq) (simp add: ref_ext_def ref_env_dir_def ref_server_def ext_call_eq)
  then show ?thesis
    using t rmdir_post_hides_everything [of "ref_table [''/w/a'', ''/w/b'']" "''/w/a''" "''/w/b''" "replicate 125 []" 0 ref_ext "ref_server ref_env_dir"]
    by (auto simp: numeral_2_eq_2)
qed

text \<open>
  C30: The path of a request carries the number of the last barrier in front, and
  \<open>commit_to_fs_barrier_pre\<close> does not take it off: what \<open>pacon_rmdir\<close> asks for is noted under a name
  that no lookup of an absolute path meets, so that clients go on using the directory.
\<close>

theorem async_rmdir_not_seen:
  assumes "one_segment m" "rmdir_num (m SHMKEY) + 1 < RMDIRLIST_MAX" "path = CHR ''/'' # p" "CHR '':'' \<notin> set path" "0 \<le> k"
    "commit_to_fs_barrier_pre E ((show_int k @ path) @ opt_str RMDIR @ show_int (sint (t :: u32))) m s = Some (0, m', s')"
  shows "noted m' = noted m @ [show_int k @ path] \<and>
    check_rmdir_list E (CHR ''/'' # q) m' c = check_rmdir_list E (CHR ''/'' # q) m c"
proof -
  let ?d = "show_int k @ path"
  let ?m = "m(SHMKEY := (m SHMKEY)\<lparr>rmdir_list := (rmdir_list (m SHMKEY))[nat (rmdir_num (m SHMKEY)) := ?d],
      rmdir_num := rmdir_num (m SHMKEY) + 1\<rparr>)"
  obtain x w where x: "show_int k = x # w" "isdigit x"
    using assms(5) show_nat_digits [of _ "nat k"] by (cases "show_nat (nat k)") (auto simp: show_int_def)
  have "CHR '':'' \<notin> set ?d"
    using assms(4,5) isdigit_char_neq(1) by (auto simp: show_int_def dest: show_nat_digits)
  note parts = mesg_parts [OF this refl, of RMDIR t]
  from assms(6) obtain s1 where p: "length ?d < PATH_MAX" and r: "rmdir_pre E ?d 0 m s1 = Some (0, m', s')"
    by (auto simp: commit_to_fs_barrier_pre_def parts [simplified] bind_eq_Some_conv split: if_splits)
  note pre = rmdir_pre_one_segment [OF assms(1) p]
  from r have m': "m' = ?m" by (auto simp: pre(1) bind_eq_Some_conv split: if_splits)
  have "one_segment ?m" using assms(1,2) by (simp add: one_segment_def)
  moreover have "covers [?d] (CHR ''/'' # q) = False"
    using x isdigit_char_neq(2) [OF x(2)] by (auto simp: covers_def)
  ultimately have "check_rmdir_list E (CHR ''/'' # q) ?m c = check_rmdir_list E (CHR ''/'' # q) m c"
    using assms(1) pre(2) by (simp add: check_one_segment del: fun_upd_apply)
  then show ?thesis using pre(2) by (simp add: m' del: fun_upd_apply)
qed

theorem async_rmdir_not_seen_witness:
  "\<exists>m' s'. commit_to_fs_barrier_pre ref_ext ((show_int 0 @ ''/w/d'') @ opt_str RMDIR @ show_int (sint (9 :: u32)))
      (ref_table []) (ref_server ref_env0) = Some (0, m', s') \<and>
    check_rmdir_list ref_ext ''/w/d'' m' ref_client = check_rmdir_list ref_ext ''/w/d'' (ref_table []) ref_client"
proof -
  have "CHR '':'' \<notin> set (show_int 0 @ ''/w/d'')" by (simp add: show_int_0)
  note parts = mesg_parts [OF this refl, of RMDIR 9]
  have n: "rmdir_num (ref_table [] SHMKEY) + 1 < RMDIRLIST_MAX" by (simp add: ref_table_def RMDIRLIST_MAX_def)
  have l: "length (show_int 0 @ ''/w/d'') < PATH_MAX" by (simp add: show_int_0 PATH_MAX_def)
  have b: "server_broadcast ref_ext (sv_comm (ref_server ref_env0)) x (ref_server ref_env0) = Some (0, ref_server ref_env0)" for x
    by (simp add: server_broadcast_def ref_server_def)
  have t: "barrier_mesg 9 = Some '':89''" "sprintf_buf (PATH_MAX + 3) ('':1'' @ show_int 0 @ ''/w/d'') \<noteq> None"
    by code_simp+
  obtain m' where "commit_to_fs_barrier_pre ref_ext ((show_int 0 @ ''/w/d'') @ opt_str RMDIR @ show_int (sint (9 :: u32)))
      (ref_table []) (ref_server ref_env0) = Some (0, m', ref_server ref_env0)"
    using l t(2) rmdir_pre_one_segment(1) [OF ref_table_one l, of "[]" ref_ext 0 "ref_server ref_env0"]
    unfolding commit_to_fs_barrier_pre_def broadcast_barrier_begin_async_def parts by (auto simp: b t(1) opt_str_def)
  from async_rmdir_not_seen [OF ref_table_one n _ _ _ this, of "''w/d''" "''w/d''" ref_client] this
  show ?thesis by auto
qed

end
