(* ===== verification/Async_Client.thy ===== *)
theory Async_Client
  imports Async_Rmdir File_Data
begin

text \<open>
  The operations of the client with \<open>ASYNC_RPC = 1\<close>. They differ from those of \<open>Cache\<close>, \<open>Namespace\<close>
  and \<open>File_Data\<close> in the calls of \<open>check_rmdir_list\<close>, directly or through the parts that follow: the
  check of the parent directory, and eviction, which opens the root directory.

  The table of removed directories is in shared memory, so it belongs to the outside world and
  can change between two steps: \<open>M e\<close> is the memory in the state \<open>e\<close>. What \<open>pacon->rmdir_record\<close>
  points to is \<open>Some M\<close> in a region that \<open>init_pacon\<close> set up; \<open>init_remote_pacon\<close> does not set the
  pointer, so in a joined region it is \<open>None\<close>, and following it is undefined.
\<close>

type_synonym 'e rmdir_ptr = "('e \<Rightarrow> shm) option"

text \<open>\<open>if (pacon->rmdir_record->rmdir_num > 0) ret = check_rmdir_list (pacon, path);\<close>\<close>

definition removed ::
  "'e ext \<Rightarrow> 'e rmdir_ptr \<Rightarrow> string \<Rightarrow> 'e client \<Rightarrow> (int \<times> 'e client) option" where
  "removed E R path s = do {
     M \<leftarrow> R;
     if rmdir_num (M (env s) SHMKEY) > 0 then check_rmdir_list E path (M (env s)) s else Some (0, s)
   }"

subsection \<open>Eviction and loading\<close>

definition opendir_with_async ::
  "'e rmdir_ptr \<Rightarrow> 'e adder \<Rightarrow> 'e ext \<Rightarrow> pacon \<Rightarrow> string \<Rightarrow> 'e client \<Rightarrow> (dirp \<times> 'e client) option" where
  "opendir_with_async R add E p path s = do {
     (ret, s) \<leftarrow> permitted E p path 0 READDIR_PC s;
     if ret < 0 then Some (DIR_ERR, s)
     else do {
       (ret, s) \<leftarrow> removed E R path s;
       if ret \<noteq> 0 then Some (DIR_ERR, s)
       else do {
         (ret, s) \<leftarrow> ensure_cached_with add E p path s;
         if ret = -1 then Some (DIR_ERR, s)
         else do {
           path_new \<leftarrow> sprintf_buf PATH_MAX (show_int (current_barrier_id s) @ path);
           (t, s) \<leftarrow> ext_call (c_time E) s;
           (ret, s) \<leftarrow> add_to_local_rpc E p path_new READDIR t s;
           if ret = -1 then Some (DIR_ERR, s)
           else do {
             (d, s) \<leftarrow> ext_call (c_opendir E path) s;
             Some (case d of None \<Rightarrow> DIR_NULL | Some es \<Rightarrow> DIR es, s)
           }
         }
       }
     }
   }"

fun evict_find_async ::
  "nat \<Rightarrow> 'e rmdir_ptr \<Rightarrow> 'e adder \<Rightarrow> 'e ext \<Rightarrow> pacon \<Rightarrow> int \<Rightarrow> 'e client \<Rightarrow> (int \<times> 'e client) option" where
  "evict_find_async 0 R add E p rr s = None"
| "evict_find_async (Suc n) R add E p rr s = do {
     (dir, s) \<leftarrow> opendir_with_async R add E p (root_of p) s;
     (case dir of
        DIR es \<Rightarrow>
          (case evict_pick es 0 rr of
             None \<Rightarrow> evict_find_async n R add E p 0 s
           | Some e \<Rightarrow> do {
               evict_path \<leftarrow> sprintf_buf PATH_MAX (root_of p @ ''/'' @ d_name e);
               (ret, s) \<leftarrow> (if d_isdir e then flush_dir E p evict_path s else flush_file n E p evict_path s);
               if ret \<noteq> 0 then Some (-1, s) else evict_finish E p (rr + 1) s
             })
      | _ \<Rightarrow> None)
   }"

definition evict_metadata_async ::
  "nat \<Rightarrow> 'e rmdir_ptr \<Rightarrow> 'e adder \<Rightarrow> 'e ext \<Rightarrow> pacon \<Rightarrow> 'e client \<Rightarrow> (int \<times> 'e client) option" where
  "evict_metadata_async n R add E p s = do {
     (rr, s) \<leftarrow> evict_begin n E p s;
     (case rr of None \<Rightarrow> Some (-1, s) | Some rr \<Rightarrow> evict_find_async n R add E p rr s)
   }"

fun add_evict_async :: "nat \<Rightarrow> 'e ext \<Rightarrow> 'e rmdir_ptr \<Rightarrow> pacon \<Rightarrow> 'e adder" where
  "add_evict_async 0 E R p path val len s = None"
| "add_evict_async (Suc n) E R p path val len s = do {
     (ret, s) \<leftarrow> dmkv_add E (kv_of p) path val len s;
     if ret = -2 then do {
       (_, s) \<leftarrow> evict_metadata_async n R (add_evict_async n E R p) E p s;
       add_evict_async n E R p path val len s
     }
     else Some (ret, s)
   }"

definition load_async ::
  "nat \<Rightarrow> 'e ext \<Rightarrow> 'e rmdir_ptr \<Rightarrow> pacon \<Rightarrow> string \<Rightarrow> 'e client \<Rightarrow> (int \<times> 'e client) option" where
  "load_async n E R p = load_with (add_evict_async n E R p) E p"

definition ensure_cached_async ::
  "nat \<Rightarrow> 'e ext \<Rightarrow> 'e rmdir_ptr \<Rightarrow> pacon \<Rightarrow> string \<Rightarrow> 'e client \<Rightarrow> (int \<times> 'e client) option" where
  "ensure_cached_async n E R p = ensure_cached_with (add_evict_async n E R p) E p"

definition pacon_opendir_async ::
  "nat \<Rightarrow> 'e ext \<Rightarrow> 'e rmdir_ptr \<Rightarrow> pacon \<Rightarrow> string \<Rightarrow> 'e client \<Rightarrow> (dirp \<times> 'e client) option" where
  "pacon_opendir_async n E R p = opendir_with_async R (add_evict_async n E R p) E p"

subsection \<open>Checking the parent directory\<close>

fun load_children_async ::
  "nat \<Rightarrow> 'e ext \<Rightarrow> 'e rmdir_ptr \<Rightarrow> pacon \<Rightarrow> string \<Rightarrow> dirent list \<Rightarrow> 'e client \<Rightarrow> (int \<times> 'e client) option" where
  "load_children_async n E R p p_dir [] s = Some (0, s)"
| "load_children_async n E R p p_dir (entry # rest) s =
     (if d_name entry = ''.'' \<or> d_name entry = ''..'' then load_children_async n E R p p_dir rest s
      else if length p_dir + length (d_name entry) \<ge> PATH_MAX - 1 then Some (-1, s)
      else do {
        (ret, s) \<leftarrow> load_async n E R p (p_dir @ ''/'' @ d_name entry) s;
        if ret \<noteq> 0 then Some (-1, s) else load_children_async n E R p p_dir rest s
      })"

definition check_dir_async ::
  "nat \<Rightarrow> 'e ext \<Rightarrow> 'e rmdir_ptr \<Rightarrow> pacon \<Rightarrow> string \<Rightarrow> 'e client \<Rightarrow> (int \<times> 'e client) option" where
  "check_dir_async n E R p p_dir s = do {
     (ret, s) \<leftarrow> removed E R p_dir s;
     if ret \<noteq> 0 then Some (-1, s)
     else if dir_check_local p_dir s \<noteq> -1 then Some (0, s)
     else do {
       (g, s) \<leftarrow> dmkv_get_cas E (kv_of p) p_dir s;
       (ret, g, s) \<leftarrow>
         (case g of
            None \<Rightarrow> do {
              (ret, s) \<leftarrow> load_async n E R p p_dir s;
              if ret \<noteq> 0 then Some (-1, None, s)
              else do { (g, s) \<leftarrow> dmkv_get_cas E (kv_of p) p_dir s; Some (0 :: int, g, s) }
            }
          | Some vc \<Rightarrow> Some (0, Some vc, s));
       if ret = -1 then Some (-1, s)
       else do {
         (val, cas) \<leftarrow> g;
         p_st \<leftarrow> deseri_val val;
         if get_stat_flag p_st STAT_type = 1 then Some (-1, s)
         else if get_stat_flag p_st STAT_existedin_dfs = 1 \<and> get_stat_flag p_st STAT_child_check = 0 then do {
           (pd, s) \<leftarrow> ext_call (c_opendir E p_dir) s;
           entries \<leftarrow> pd;
           (ret, s) \<leftarrow> load_children_async n E R p p_dir entries s;
           if ret \<noteq> 0 then Some (-1, s)
           else do {
             (ret, s) \<leftarrow> cas_flag_loop n E p p_dir STAT_child_check p_st val cas s;
             if ret = -1 then Some (-1, s) else Some (0, add_to_dir_check_table p_dir s)
           }
         }
         else Some (0, add_to_dir_check_table p_dir s)
       }
     }
   }"

definition check_parent_dir_async ::
  "nat \<Rightarrow> 'e ext \<Rightarrow> 'e rmdir_ptr \<Rightarrow> pacon \<Rightarrow> string \<Rightarrow> 'e client \<Rightarrow> (int \<times> 'e client) option" where
  "check_parent_dir_async n E R p path s =
     (if path = ''/'' then Some (0, s)
      else if path = [] then None
      else
        let path_len = (if last path = CHR ''/'' then length path - 1 else length path) in
        if path_len \<ge> PATH_MAX then Some (-1, s)
        else do {
          p_dir \<leftarrow> parent_dir path path_len;
          check_dir_async n E R p p_dir s
        })"

subsection \<open>Creating files and directories\<close>

text \<open>
  The first part of the branch for an entry that was not added: \<open>Some 1\<close> when the path is in the
  table of removed directories, so that the new value was set over the entry and the function goes
  on to the commit queue; the result of \<open>dmkv_set\<close> is not looked at. 0 when the path is not in the
  table, 2 when no directory is being removed or \<open>dmkv_add\<close> failed otherwise.
\<close>

definition over_removed ::
  "'e ext \<Rightarrow> 'e rmdir_ptr \<Rightarrow> pacon \<Rightarrow> string \<Rightarrow> bytes \<Rightarrow> int \<Rightarrow> 'e client \<Rightarrow> (int \<times> 'e client) option" where
  "over_removed E R p path val ret s =
     (if ret = -1 then do {
        M \<leftarrow> R;
        if rmdir_num (M (env s) SHMKEY) > 0 then do {
          (ret1, s) \<leftarrow> check_rmdir_list E path (M (env s)) s;
          if ret1 = -1 then do { (_, s) \<leftarrow> dmkv_set E (kv_of p) path val PSTAT_SIZE s; Some (1, s) }
          else Some (0, s)
        }
        else Some (2, s)
      }
      else Some (2, s))"

definition pacon_create_async ::
  "nat \<Rightarrow> 'e ext \<Rightarrow> 'e rmdir_ptr \<Rightarrow> pacon \<Rightarrow> string \<Rightarrow> u32 \<Rightarrow> 'e client \<Rightarrow> (int \<times> 'e client) option" where
  "pacon_create_async n E R p path mode s = do {
     (ret, s) \<leftarrow> permitted E p path 1 CREATE_PC s;
     if ret < 0 then Some (-1, s)
     else do {
       f_mode \<leftarrow> new_mode p (df_f_mode (pf p)) sp_f_modes ret;
       (timestamp, s) \<leftarrow> ext_call (c_time E) s;
       (ret, s) \<leftarrow> check_parent_dir_async n E R p path s;
       if ret \<noteq> 0 then Some (-1, s)
       else do {
         (uid, s) \<leftarrow> ext_call (c_getuid E) s;
         (gid, s) \<leftarrow> ext_call (c_getgid E) s;
         (junk, s) \<leftarrow> ext_call (c_indet E) s;
         (blk, s) \<leftarrow> fresh_block E PSTAT_SIZE s;
         let p_st = set_stat_flag (new_stat f_mode timestamp timestamp timestamp 0 uid gid junk) STAT_type 1;
         val \<leftarrow> seri_val p_st blk;
         (ret, s) \<leftarrow> add_evict_async n E R p path val PSTAT_SIZE s;
         (ret, s) \<leftarrow> (if ret \<noteq> 0 then do {
             (how, s) \<leftarrow> over_removed E R p path val ret s;
             if how = 1 then Some (0, s) else replace_removed E p path val PSTAT_SIZE s
           }
           else Some (0, s));
         if ret \<noteq> 0 then Some (-1, s)
         else add_to_mq E p path CREATE timestamp s
       }
     }
   }"

definition pacon_mkdir_async ::
  "nat \<Rightarrow> 'e ext \<Rightarrow> 'e rmdir_ptr \<Rightarrow> pacon \<Rightarrow> string \<Rightarrow> u32 \<Rightarrow> 'e client \<Rightarrow> (int \<times> 'e client) option" where
  "pacon_mkdir_async n E R p path mode s = do {
     (ret, s) \<leftarrow> permitted E p path 0 MKDIR_PC s;
     if ret < 0 then Some (-1, s)
     else do {
       dir_mode \<leftarrow> new_mode p (df_dir_mode (pf p)) sp_dir_modes ret;
       (ret, s) \<leftarrow> check_parent_dir_async n E R p path s;
       if ret \<noteq> 0 then Some (-1, s)
       else do {
         (ct, s) \<leftarrow> ext_call (c_time E) s;
         (at, s) \<leftarrow> ext_call (c_time E) s;
         (mt, s) \<leftarrow> ext_call (c_time E) s;
         (uid, s) \<leftarrow> ext_call (c_getuid E) s;
         (gid, s) \<leftarrow> ext_call (c_getgid E) s;
         (junk, s) \<leftarrow> ext_call (c_indet E) s;
         (blk, s) \<leftarrow> fresh_block E PSTAT_SIZE s;
         val \<leftarrow> seri_val (new_stat dir_mode ct at mt 0 uid gid junk) blk;
         (ret, s) \<leftarrow> add_evict_async n E R p path val PSTAT_SIZE s;
         if ret \<noteq> 0 then do {
           (how, s) \<leftarrow> over_removed E R p path val ret s;
           if how = 0 then Some (-1, s)
           else if how = 1 then add_to_mq E p path MKDIR ct s
           else replace_removed E p path val PSTAT_SIZE s
         }
         else add_to_mq E p path MKDIR ct s
       }
     }
   }"

text \<open>The value that \<open>pacon_create_write\<close> sets over a removed directory is cut off behind the metadata.\<close>

definition pacon_create_write_async ::
  "nat \<Rightarrow> 'e ext \<Rightarrow> 'e rmdir_ptr \<Rightarrow> pacon \<Rightarrow> string \<Rightarrow> u32 \<Rightarrow> bytes \<Rightarrow> u64 \<Rightarrow> pacon_file \<Rightarrow> 'e client \<Rightarrow>
   (int \<times> pacon_file \<times> 'e client) option" where
  "pacon_create_write_async n E R p path mode buf sz f s = do {
     (ret, s) \<leftarrow> permitted E p path 1 CREATE_PC s;
     if ret < 0 then Some (-1, f, s)
     else do {
       f_mode \<leftarrow> new_mode p (df_f_mode (pf p)) sp_f_modes ret;
       (ret, s) \<leftarrow> check_parent_dir_async n E R p path s;
       if ret \<noteq> 0 then Some (-1, f, s)
       else if sz < of_nat (INLINE_MAX - 1) then do {
         (ct, s) \<leftarrow> ext_call (c_time E) s;
         (at, s) \<leftarrow> ext_call (c_time E) s;
         (mt, s) \<leftarrow> ext_call (c_time E) s;
         (uid, s) \<leftarrow> ext_call (c_getuid E) s;
         (gid, s) \<leftarrow> ext_call (c_getgid E) s;
         (junk, s) \<leftarrow> ext_call (c_indet E) s;
         (blk, s) \<leftarrow> fresh_block E (PSTAT_SIZE + INLINE_MAX) s;
         let p_st = set_stat_flag (set_stat_flag (new_stat f_mode ct at mt (ucast sz) uid gid junk) STAT_type 1) STAT_inline 1;
         val \<leftarrow> seri_inline_data (Some p_st) buf blk;
         (ret, s) \<leftarrow> add_evict_async n E R p path val (PSTAT_SIZE + unat sz) s;
         (ret, s) \<leftarrow> (if ret \<noteq> 0 then do {
             (how, s) \<leftarrow> over_removed E R p path val ret s;
             if how = 1 then Some (0, s) else create_write_exists E p path val (PSTAT_SIZE + unat sz) s
           }
           else Some (0, s));
         if ret = -1 then Some (-1, f, s)
         else do {
           (ret, s) \<leftarrow> add_to_mq E p path CREATE ct s;
           Some (ret, f\<lparr>f_fd := -1\<rparr>, s)
         }
       }
       else Some (-1, f, s)
     }
   }"

subsection \<open>Attributes, removing and renaming\<close>

fun pacon_getattr_async ::
  "nat \<Rightarrow> 'e ext \<Rightarrow> 'e rmdir_ptr \<Rightarrow> pacon \<Rightarrow> string \<Rightarrow> pacon_stat \<Rightarrow> 'e client \<Rightarrow> (int \<times> pacon_stat \<times> 'e client) option" where
  "pacon_getattr_async 0 E R p path st s = None"
| "pacon_getattr_async (Suc n) E R p path st s = do {
     (ret, s) \<leftarrow> permitted E p path 1 READ_PC s;
     if ret < 0 then Some (-1, st, s)
     else do {
       (ret, s) \<leftarrow> removed E R path s;
       if ret \<noteq> 0 then Some (-1, st, s)
       else do {
         (val, s) \<leftarrow> dmkv_get E (kv_of p) path s;
         (case val of
            Some v \<Rightarrow> getattr_hit E path v st s
          | None \<Rightarrow> do {
              (r, s) \<leftarrow> (if child_cmp_new path (root_of p) 1 > 0 then ext_call (c_stat E path) s else Some (None, s));
              (case r of
                 None \<Rightarrow>
                   if cr_num (pf p) > 0 then
                     (if cr_num (pf p) \<le> length (remote_cr_root (pf p)) then
                       (case find_region path (take (cr_num (pf p)) (remote_cr_root (pf p))) 0 of
                          None \<Rightarrow> Some (-1, st, s)
                        | Some cr \<Rightarrow>
                            if cr < length (remote_pacon_list p) then do {
                              (ret, st, s) \<leftarrow> pacon_getattr_async n E None (remote_pacon_list p ! cr) path st s;
                              Some (if ret \<noteq> 0 then -1 else 0, st, s)
                            }
                            else None)
                      else None)
                   else Some (-1, st, s)
               | Some buf \<Rightarrow> do {
                   let st = getattr_stat buf st;
                   (blk, s) \<leftarrow> fresh_block E PSTAT_SIZE s;
                   val \<leftarrow> seri_val st blk;
                   (_, s) \<leftarrow> add_evict_async n E R p path val PSTAT_SIZE s;
                   Some (0, st, s)
                 })
            })
       }
     }
   }"

declare pacon_getattr_async.simps [simp del]

definition pacon_rm_async ::
  "nat \<Rightarrow> 'e ext \<Rightarrow> 'e rmdir_ptr \<Rightarrow> pacon \<Rightarrow> string \<Rightarrow> 'e client \<Rightarrow> (int \<times> 'e client) option" where
  "pacon_rm_async n E R p path s = do {
     (ret, s) \<leftarrow> permitted E p path 1 RM_PC s;
     if ret < 0 then Some (-1, s)
     else do {
       (g, s) \<leftarrow> dmkv_get_cas E (kv_of p) path s;
       (ret, g, s) \<leftarrow>
         (case g of
            None \<Rightarrow> do {
              (ret, s) \<leftarrow> load_async n E R p path s;
              if ret = -1 then Some (-1, None, s)
              else do { (g, s) \<leftarrow> dmkv_get_cas E (kv_of p) path s; Some (0 :: int, g, s) }
            }
          | Some vc \<Rightarrow> Some (0, Some vc, s));
       if ret = -1 then Some (-1, s)
       else do {
         (val, cas) \<leftarrow> g;
         p_st \<leftarrow> deseri_val val;
         (_, s) \<leftarrow> cas_flag_loop n E p path STAT_rm p_st val cas s;
         (t, s) \<leftarrow> ext_call (c_time E) s;
         add_to_mq E p path RM t s
       }
     }
   }"

text \<open>The table of descriptors is not emptied here; a program calls \<open>pacon_rmdir_clean\<close> for that.\<close>

definition pacon_rmdir_async ::
  "nat \<Rightarrow> 'e ext \<Rightarrow> 'e rmdir_ptr \<Rightarrow> pacon \<Rightarrow> string \<Rightarrow> 'e client \<Rightarrow> (int \<times> 'e client) option" where
  "pacon_rmdir_async n E R p path s = do {
     (ret, s) \<leftarrow> permitted E p path 0 RMDIR_PC s;
     if ret < 0 then Some (-1, s)
     else do {
       (ret, s) \<leftarrow> removed E R path s;
       if ret \<noteq> 0 then Some (-1, s)
       else do {
         (ret, s) \<leftarrow> ensure_cached_async n E R p path s;
         if ret = -1 then Some (-1, s)
         else do {
           path_new \<leftarrow> sprintf_buf PATH_MAX (show_int (current_barrier_id s) @ path);
           (t, s) \<leftarrow> ext_call (c_time E) s;
           (ret, s) \<leftarrow> add_to_local_rpc E p path_new RMDIR t s;
           if ret = -1 then Some (-1, s)
           else do {
             (ret, s) \<leftarrow> dmkv_del E (kv_of p) path s;
             if ret \<noteq> 0 then Some (-1, s) else Some (ret, s)
           }
         }
       }
     }
   }"

text \<open>
  When the new name is taken, the table is looked up a second time, for the old path; the function
  fails in both cases.
\<close>

definition pacon_rename_async ::
  "nat \<Rightarrow> 'e ext \<Rightarrow> 'e rmdir_ptr \<Rightarrow> pacon \<Rightarrow> string \<Rightarrow> string \<Rightarrow> 'e client \<Rightarrow> (int \<times> 'e client) option" where
  "pacon_rename_async n E R p path newpath s = do {
     (ret, s) \<leftarrow> permitted E p path 0 RENAME_PC s;
     if ret < 0 then Some (-1, s)
     else do {
       (ret, s) \<leftarrow> removed E R path s;
       if ret \<noteq> 0 then Some (-1, s)
       else do {
         (ret, s) \<leftarrow> ensure_cached_async n E R p path s;
         if ret = -1 then Some (-1, s)
         else do {
           (val, s) \<leftarrow> dmkv_get E (kv_of p) newpath s;
           if val \<noteq> None then do {
             (_, s) \<leftarrow> removed E R path s;
             Some (-1, s)
           }
           else do {
             (ret, s) \<leftarrow> load_async n E R p newpath s;
             if ret \<noteq> -1 then Some (-1, s)
             else if length path > PATH_MAX div 2 \<or> length newpath > PATH_MAX div 2 then Some (-1, s)
             else do {
               joint_path \<leftarrow> sprintf_buf PATH_MAX (path @ ''-'' @ newpath);
               joint_path_new \<leftarrow> sprintf_buf PATH_MAX (show_int (current_barrier_id s) @ joint_path);
               (t, s) \<leftarrow> ext_call (c_time E) s;
               (ret, s) \<leftarrow> add_to_local_rpc E p joint_path_new RENAME t s;
               Some (if ret = -1 then -1 else 0, s)
             }
           }
         }
       }
     }
   }"

subsection \<open>An empty table\<close>

text \<open>As long as no directory is being removed, the operations are those of the synchronous form.\<close>

definition none_removed :: "('e \<Rightarrow> shm) \<Rightarrow> bool" where
  "none_removed M \<longleftrightarrow> (\<forall>e. rmdir_num (M e SHMKEY) \<le> 0)"

lemma none_removedD: "none_removed M \<Longrightarrow> \<not> 0 < rmdir_num (M e SHMKEY)"
  by (simp add: none_removed_def not_less)

lemma removed_none: "none_removed M \<Longrightarrow> removed E (Some M) path s = Some (0, s)"
  by (simp add: removed_def none_removedD)

lemma over_removed_none: "none_removed M \<Longrightarrow> over_removed E (Some M) p path val ret s = Some (2, s)"
  by (simp add: over_removed_def none_removedD)

lemma opendir_with_none: "none_removed M \<Longrightarrow> opendir_with_async (Some M) add E p = opendir_with add E p"
  by (intro ext) (simp add: opendir_with_async_def opendir_with_def removed_none cong: if_cong)

lemma evict_find_none: "none_removed M \<Longrightarrow> evict_find_async n (Some M) add E p = evict_find_with n add E p"
  by (induction n) (intro ext, simp add: opendir_with_none cong: dirp.case_cong option.case_cong if_cong)+

lemma evict_metadata_none: "none_removed M \<Longrightarrow> evict_metadata_async n (Some M) add E p s = evict_metadata_with n add E p s"
  by (simp add: evict_metadata_async_def evict_metadata_with_def evict_find_none cong: option.case_cong if_cong)

lemma add_evict_none:
  assumes "none_removed M" shows "add_evict_async n E (Some M) p = add_evict n E p"
proof (induction n)
  case 0
  show ?case by (intro ext) simp
next
  case (Suc n)
  then show ?case by (intro ext) (simp add: evict_metadata_none [OF assms] cong: if_cong)
qed

lemma circle_none:
  assumes "none_removed M"
  shows "load_async n E (Some M) p = load_to_pacon n E p"
    and "ensure_cached_async n E (Some M) p = ensure_cached n E p"
    and "pacon_opendir_async n E (Some M) p = pacon_opendir n E p"
  by (simp_all add: load_async_def load_to_pacon_def ensure_cached_async_def ensure_cached_def
      pacon_opendir_async_def pacon_opendir_def opendir_with_none [OF assms] add_evict_none [OF assms])

lemma load_children_none:
  assumes "none_removed M" shows "load_children_async n E (Some M) p d es = load_children n E p d es"
  by (induction es) (intro ext, simp add: circle_none [OF assms] cong: if_cong)+

lemma check_parent_none:
  assumes "none_removed M" shows "check_parent_dir_async n E (Some M) p = check_parent_dir n E p"
proof -
  have c: "check_dir_async n E (Some M) p = check_dir n E p"
    by (intro ext) (simp add: check_dir_async_def check_dir_def removed_none [OF assms] circle_none [OF assms]
        load_children_none [OF assms] cong: option.case_cong if_cong)
  show ?thesis unfolding check_parent_dir_async_def check_parent_dir_def c by (intro ext) (rule refl)
qed

lemmas none_eqs = removed_none over_removed_none add_evict_none circle_none check_parent_none

end
