(* ===== verification/Async_Thms.thy ===== *)
theory Async_Thms
  imports Async_Client File_Thms
begin

text \<open>
  Correctness of the client with \<open>ASYNC_RPC = 1\<close>: with an empty table it is the synchronous client;
  a path in the table is refused; and what happens when such a path is created again.
\<close>

subsection \<open>Paths in the table\<close>

text \<open>The table fits into one segment in every state, and contains the path, or does not.\<close>

definition always_covers :: "('e \<Rightarrow> shm) \<Rightarrow> string \<Rightarrow> bool" where
  "always_covers M q \<longleftrightarrow> (\<forall>e. one_segment (M e) \<and> covers (noted (M e)) q)"

definition never_covers :: "('e \<Rightarrow> shm) \<Rightarrow> string \<Rightarrow> bool" where
  "never_covers M q \<longleftrightarrow> (\<forall>e. one_segment (M e) \<and> \<not> covers (noted (M e)) q)"

lemma always_coversI: "\<forall>e. one_segment (M e) \<Longrightarrow> \<forall>e. covers (noted (M e)) q \<Longrightarrow> always_covers M q"
  by (simp add: always_covers_def)

lemma never_coversI: "\<forall>e. one_segment (M e) \<Longrightarrow> \<forall>e. \<not> covers (noted (M e)) q \<Longrightarrow> never_covers M q"
  by (simp add: never_covers_def)

lemma covers_pos: "covers (noted m) q \<Longrightarrow> 0 < rmdir_num (m SHMKEY)"
  by (rule ccontr) (simp add: noted_def covers_def)

lemma removed_covered: "always_covers M q \<Longrightarrow> removed E (Some M) q s = Some (-1, s)"
  using covers_pos [of "M (env s)" q] by (simp add: removed_def always_covers_def check_one_segment)

lemma removed_clear: "never_covers M q \<Longrightarrow> removed E (Some M) q s = Some (0, s)"
  by (simp add: removed_def never_covers_def check_one_segment)

lemma over_removed_covered:
  "always_covers M q \<Longrightarrow> over_removed E (Some M) p q val (-1) s =
    do { (_, s) \<leftarrow> dmkv_set E (kv_of p) q val PSTAT_SIZE s; Some (1, s) }"
  using covers_pos [of "M (env s)" q] by (simp add: over_removed_def always_covers_def check_one_segment)

lemma check_parent_async_entry:
  assumes "entry_path path d name" "length path < PATH_MAX"
  shows "check_parent_dir_async n E R p path s = check_dir_async n E R p d s"
  using assms entry_path_last [OF assms(1)] parent_dir_append [of name d "[]"]
  by (auto simp: check_parent_dir_async_def entry_path_def)

lemma check_dir_covered: "always_covers M d \<Longrightarrow> check_dir_async n E (Some M) p d s = Some (-1, s)"
  by (simp add: check_dir_async_def removed_covered)

subsection \<open>Storing over a removed directory\<close>

context client_env
begin

lemma check_dir_async_known:
  assumes "parent_known (items (env s) (memc (kv_of p))) d s" "d \<noteq> []" "never_covers M d"
  shows "\<exists>e t. check_dir_async n E (Some M) p d s = Some (0, s\<lparr>dir_check_table := t, env := e\<rparr>) \<and>
    items e = items (env s) \<and> sent e = sent (env s)"
proof (cases "dir_check_local d s \<noteq> -1")
  case True
  then have "check_dir_async n E (Some M) p d s = Some (0, s\<lparr>dir_check_table := dir_check_table s, env := env s\<rparr>)"
    by (simp add: check_dir_async_def removed_clear [OF assms(3)])
  then show ?thesis by blast
next
  case False
  with assms obtain v c where i: "items (env s) (memc (kv_of p)) (norm_key d) = Some (v, c)"
    and l: "PSTAT_SIZE \<le> length v" and k: "known_dir (bytes_stat v)"
    by (auto simp: parent_known_def split: option.splits)
  let ?e = "snd (memcached_get E (memc (kv_of p)) (norm_key d) (env s))"
  have "check_dir_async n E (Some M) p d s = Some (0, add_to_dir_check_table d (s\<lparr>env := ?e\<rparr>))"
    using False i l k assms(2)
    by (auto simp: check_dir_async_def removed_clear [OF assms(3)] dmkv_get_cas_run deseri_val_append known_dir_def)
  then have "check_dir_async n E (Some M) p d s =
      Some (0, s\<lparr>dir_check_table := ht_insert (dir_check_table s) d 0, env := ?e\<rparr>)"
    by (simp add: table_defs)
  then show ?thesis
    by (intro exI [of _ ?e] exI [of _ "ht_insert (dir_check_table s) d 0"]) simp
qed

text \<open>
  An entry for a path in the table is stored whatever is cached for it: added when there is
  nothing, set otherwise, and then only its first \<open>PSTAT_SIZE\<close> bytes.
\<close>

lemma store_covered:
  assumes key: "plain_key path" "norm_key path = path" "path \<noteq> []" and len: "PSTAT_SIZE \<le> len" "len \<le> length v"
    and cov: "always_covers M path"
  shows "\<exists>e1 e c. (add_evict_async (Suc n) E (Some M) p path v len s = Some (0, s\<lparr>env := e\<rparr>) \<or>
      add_evict_async (Suc n) E (Some M) p path v len s = Some (-1, s\<lparr>env := e1\<rparr>) \<and>
      over_removed E (Some M) p path v (-1) (s\<lparr>env := e1\<rparr>) = Some (1, s\<lparr>env := e\<rparr>)) \<and>
    items e = put_item (memc (kv_of p)) path
      (take (if items (env s) (memc (kv_of p)) path = None then len else PSTAT_SIZE) v, c) (items (env s)) \<and>
    sent e = sent (env s)"
proof (cases "items (env s) (memc (kv_of p)) path")
  case None
  from add_new [OF key(3,2) None len(2), of n] obtain e c where
    "add_evict (Suc n) E p path v len s = Some (0, s\<lparr>env := e\<rparr>)"
    "items e = put_item (memc (kv_of p)) path (take len v, c) (items (env s))" "sent e = sent (env s)" by blast
  moreover then have "add_evict_async (Suc n) E (Some M) p path v len s = Some (0, s\<lparr>env := e\<rparr>)"
    using None key len dmkv_add_absent [of path len v s "kv_of p"] by (simp add: split: if_splits)
  ultimately show ?thesis using None by (intro exI [of _ e] exI [of _ c]) simp
next
  case (Some i)
  let ?e1 = "snd (memcached_add E (memc (kv_of p)) path (take len v) (env s))"
  let ?e = "snd (memcached_set E (memc (kv_of p)) path (take PSTAT_SIZE v) ?e1)"
  have a: "add_evict_async (Suc n) E (Some M) p path v len s = Some (-1, s\<lparr>env := ?e1\<rparr>)"
    using Some key len by (simp add: dmkv_add_present)
  have i: "items ?e1 = items (env s)" using add_present_items [OF Some] by simp
  have o': "over_removed E (Some M) p path v (-1) (s\<lparr>env := ?e1\<rparr>) = Some (1, s\<lparr>env := ?e\<rparr>)"
    using key len by (simp add: over_removed_covered [OF cov] dmkv_set_ok)
  obtain c where c: "items ?e = put_item (memc (kv_of p)) path (take PSTAT_SIZE v, c) (items (env s))"
    using set_items [of "memc (kv_of p)" path "take PSTAT_SIZE v" ?e1] i by auto
  show ?thesis using a o' c Some by (intro exI [of _ ?e1] exI [of _ ?e] exI [of _ c]) simp
qed

lemma create_covered_run:
  assumes free: "perm_info (pf p) = None" and clock: "sane_clock E"
    and path: "entry_path path d name" "length path + 3 \<le> PATH_MAX"
    and parent: "parent_known (items (env s) (memc (kv_of p))) d s" "never_covers M d"
    and cov: "always_covers M path" and time: "t = fst (c_time E (env s))"
  shows "\<exists>s' uid gid junk c. pacon_create_async (Suc n) E (Some M) p path mode s = Some (0, s') \<and>
    items (env s') = put_item (memc (kv_of p)) path
      (stat_bytes (set_stat_flag (new_stat (df_f_mode (pf p)) t t t 0 uid gid junk) STAT_type 1), c) (items (env s)) \<and>
    sent (env s') = sent (env s) @ [(publisher (pf p), path @ opt_str CREATE @ show_int (sint t))]"
proof -
  note key = entry_path_key [OF path(1)]
  let ?s1 = "s\<lparr>env := snd (c_time E (env s))\<rparr>"
  have "parent_known (items (env ?s1) (memc (kv_of p))) d ?s1" using parent by (simp add: parent_known_def)
  moreover have "d \<noteq> []" using path by (simp add: entry_path_def)
  ultimately obtain e1 tb where cd: "check_dir_async (Suc n) E (Some M) p d ?s1 = Some (0, ?s1\<lparr>dir_check_table := tb, env := e1\<rparr>)"
    and e1: "items e1 = items (env s)" "sent e1 = sent (env s)"
    using check_dir_async_known [of ?s1 p d M "Suc n"] parent(2) by auto
  have lt: "length path < PATH_MAX" using path(2) by simp
  define uid where "uid = fst (c_getuid E e1)"
  define gid where "gid = fst (c_getgid E (snd (c_getuid E e1)))"
  define junk where "junk = fst (c_indet E (snd (c_getgid E (snd (c_getuid E e1)))))"
  define e2 where "e2 = snd (c_indet_block E PSTAT_SIZE (snd (c_indet E (snd (c_getgid E (snd (c_getuid E e1)))))))"
  let ?st = "set_stat_flag (new_stat (df_f_mode (pf p)) t t t 0 uid gid junk) STAT_type 1"
  let ?s2 = "s\<lparr>dir_check_table := tb, env := e2\<rparr>"
  have e2: "items e2 = items (env s)" "sent e2 = sent (env s)" using e1 by (simp_all add: e2_def)
  from store_covered [OF key(1,2,3) _ _ cov, of PSTAT_SIZE "stat_bytes ?st" n p ?s2] e2 obtain e3 e4 c where
    st: "add_evict_async (Suc n) E (Some M) p path (stat_bytes ?st) PSTAT_SIZE ?s2 = Some (0, ?s2\<lparr>env := e4\<rparr>) \<or>
      add_evict_async (Suc n) E (Some M) p path (stat_bytes ?st) PSTAT_SIZE ?s2 = Some (-1, ?s2\<lparr>env := e3\<rparr>) \<and>
      over_removed E (Some M) p path (stat_bytes ?st) (-1) (?s2\<lparr>env := e3\<rparr>) = Some (1, ?s2\<lparr>env := e4\<rparr>)"
    and e4: "items e4 = put_item (memc (kv_of p)) path (stat_bytes ?st, c) (items (env s))" "sent e4 = sent (env s)" by auto
  have r: "t \<in> range (\<lambda>e. fst (c_time E e))" using time by blast
  from mq_run [OF clock r path(2), of p CREATE "?s2\<lparr>env := e4\<rparr>"] obtain e5 where
    m: "add_to_mq E p path CREATE t (?s2\<lparr>env := e4\<rparr>) = Some (0, ?s2\<lparr>env := e5\<rparr>)"
      "items e5 = items e4" "sent e5 = sent e4 @ [(publisher (pf p), path @ opt_str CREATE @ show_int (sint t))]" by auto
  have "pacon_create_async (Suc n) E (Some M) p path mode s = Some (0, ?s2\<lparr>env := e5\<rparr>)"
    using free path cd e1 time st m(1)
    by (auto simp: pacon_create_async_def check_parent_async_entry [OF path(1) lt] ext_call_eq fresh_block_run seri_val_eq
        uid_def gid_def junk_def e2_def simp del: add_evict_async.simps cong: if_cong)
  then show ?thesis using m e4 by (intro exI conjI) (assumption, simp_all)
qed

lemma mkdir_covered_run:
  assumes free: "perm_info (pf p) = None" and clock: "sane_clock E"
    and path: "entry_path path d name" "length path + 3 \<le> PATH_MAX"
    and parent: "parent_known (items (env s) (memc (kv_of p))) d s" "never_covers M d"
    and cov: "always_covers M path"
  shows "\<exists>s' (t :: u32) st c. pacon_mkdir_async (Suc n) E (Some M) p path mode s = Some (0, s') \<and>
    ps_mode st = df_dir_mode (pf p) \<and> ps_flags st = 0 \<and>
    items (env s') = put_item (memc (kv_of p)) path (stat_bytes st, c) (items (env s)) \<and>
    sent (env s') = sent (env s) @ [(publisher (pf p), path @ opt_str MKDIR @ show_int (sint t))]"
proof -
  note key = entry_path_key [OF path(1)]
  have "d \<noteq> []" using path by (simp add: entry_path_def)
  with parent obtain e1 tb where cd: "check_dir_async (Suc n) E (Some M) p d s = Some (0, s\<lparr>dir_check_table := tb, env := e1\<rparr>)"
    and e1: "items e1 = items (env s)" "sent e1 = sent (env s)"
    using check_dir_async_known [of s p d M "Suc n"] by auto
  have lt: "length path < PATH_MAX" using path(2) by simp
  define e2 e3 e4 e5 e6 where "e2 = snd (c_time E e1)" and "e3 = snd (c_time E e2)" and "e4 = snd (c_time E e3)"
    and "e5 = snd (c_getuid E e4)" and "e6 = snd (c_getgid E e5)"
  note es = e2_def e3_def e4_def e5_def e6_def
  define e7 where "e7 = snd (c_indet_block E PSTAT_SIZE (snd (c_indet E e6)))"
  have e7: "items e7 = items (env s)" "sent e7 = sent (env s)" using e1 by (simp_all add: e7_def es)
  define st where "st = new_stat (df_dir_mode (pf p)) (fst (c_time E e1)) (fst (c_time E e2))
    (fst (c_time E e3)) 0 (fst (c_getuid E e4)) (fst (c_getgid E e5)) (fst (c_indet E e6))"
  let ?s2 = "s\<lparr>dir_check_table := tb, env := e7\<rparr>" and ?t = "fst (c_time E e1)"
  from store_covered [OF key(1,2,3) _ _ cov, of PSTAT_SIZE "stat_bytes st" n p ?s2] e7 obtain e8 e9 c where
    a: "add_evict_async (Suc n) E (Some M) p path (stat_bytes st) PSTAT_SIZE ?s2 = Some (0, ?s2\<lparr>env := e9\<rparr>) \<or>
      add_evict_async (Suc n) E (Some M) p path (stat_bytes st) PSTAT_SIZE ?s2 = Some (-1, ?s2\<lparr>env := e8\<rparr>) \<and>
      over_removed E (Some M) p path (stat_bytes st) (-1) (?s2\<lparr>env := e8\<rparr>) = Some (1, ?s2\<lparr>env := e9\<rparr>)"
    and e9: "items e9 = put_item (memc (kv_of p)) path (stat_bytes st, c) (items (env s))" "sent e9 = sent (env s)" by auto
  have r: "?t \<in> range (\<lambda>e. fst (c_time E e))" by blast
  from mq_run [OF clock r path(2), of p MKDIR "?s2\<lparr>env := e9\<rparr>"] obtain e10 where
    m: "add_to_mq E p path MKDIR ?t (?s2\<lparr>env := e9\<rparr>) = Some (0, ?s2\<lparr>env := e10\<rparr>)"
      "items e10 = items e9" "sent e10 = sent e9 @ [(publisher (pf p), path @ opt_str MKDIR @ show_int (sint ?t))]" by auto
  have "pacon_mkdir_async (Suc n) E (Some M) p path mode s = Some (0, ?s2\<lparr>env := e10\<rparr>)"
    using free path cd e1 a m(1)
    by (auto simp: pacon_mkdir_async_def check_parent_async_entry [OF path(1) lt] ext_call_eq fresh_block_run seri_val_eq
        es e7_def st_def simp del: add_evict_async.simps cong: if_cong)
  moreover have "ps_mode st = df_dir_mode (pf p)" "ps_flags st = 0" by (simp_all add: st_def new_stat_def)
  ultimately show ?thesis using m e9 by (intro exI conjI) (assumption, simp_all)
qed

lemma create_write_covered_run:
  assumes free: "perm_info (pf p) = None" and clock: "sane_clock E"
    and path: "entry_path path d name" "length path + 3 \<le> PATH_MAX"
    and parent: "parent_known (items (env s) (memc (kv_of p))) d s" "never_covers M d"
    and data: "NUL \<notin> set b" "length b + 1 < INLINE_MAX"
    and cov: "always_covers M path" and present: "items (env s) (memc (kv_of p)) path \<noteq> None"
  shows "\<exists>s' st c. pacon_create_write_async (Suc n) E (Some M) p path mode (b @ NUL # brest) (of_nat (length b)) f s =
      Some (0, f\<lparr>f_fd := -1\<rparr>, s') \<and> ps_size st = of_nat (length b) \<and> get_stat_flag st STAT_inline = 1 \<and>
    items (env s') = put_item (memc (kv_of p)) path (stat_bytes st, c) (items (env s))"
proof -
  note key = entry_path_key [OF path(1)]
  have "d \<noteq> []" using path by (simp add: entry_path_def)
  with parent obtain e1 tb where cd: "check_dir_async (Suc n) E (Some M) p d s = Some (0, s\<lparr>dir_check_table := tb, env := e1\<rparr>)"
    and e1: "items e1 = items (env s)" "sent e1 = sent (env s)"
    using check_dir_async_known [of s p d M "Suc n"] by auto
  have lt: "length path < PATH_MAX" using path(2) by simp
  have small: "length b < 2 ^ 31" "(INLINE_MAX - 1) < 2 ^ 31" using data(2) by (simp_all add: INLINE_MAX_def)
  have sz: "(of_nat (length b) :: u64) < of_nat (INLINE_MAX - 1)" "unat (of_nat (length b) :: u64) = length b"
    unfolding small_less [OF small] unat_small(1) [OF small(1)] using data(2) by simp_all
  define e2 e3 e4 e5 e6 where "e2 = snd (c_time E e1)" and "e3 = snd (c_time E e2)" and "e4 = snd (c_time E e3)"
    and "e5 = snd (c_getuid E e4)" and "e6 = snd (c_getgid E e5)"
  note es = e2_def e3_def e4_def e5_def e6_def
  define e7 where "e7 = snd (c_indet_block E (PSTAT_SIZE + INLINE_MAX) (snd (c_indet E e6)))"
  have e7: "items e7 = items (env s)" "sent e7 = sent (env s)" using e1 by (simp_all add: e7_def es)
  define st where "st = set_stat_flag (set_stat_flag (new_stat (df_f_mode (pf p)) (fst (c_time E e1)) (fst (c_time E e2))
    (fst (c_time E e3)) (of_nat (length b)) (fst (c_getuid E e4)) (fst (c_getgid E e5)) (fst (c_indet E e6))) STAT_type 1) STAT_inline 1"
  have st: "ps_size st = of_nat (length b)" "get_stat_flag st STAT_inline = 1" by (simp_all add: st_def new_stat_def)
  let ?blk = "fit (PSTAT_SIZE + INLINE_MAX) (fst (c_indet_block E (PSTAT_SIZE + INLINE_MAX) (snd (c_indet E e6))))"
  define v where "v = stat_bytes st @ b @ NUL # drop (PSTAT_SIZE + length b + 1) ?blk"
  have se: "seri_inline_data (Some st) (b @ NUL # brest) ?blk = Some v"
    unfolding v_def using data by (subst seri_inline_data_eq) simp_all
  let ?s2 = "s\<lparr>dir_check_table := tb, env := e7\<rparr>" and ?t = "fst (c_time E e1)"
  have len: "PSTAT_SIZE \<le> PSTAT_SIZE + length b" "PSTAT_SIZE + length b \<le> length v" by (simp_all add: v_def)
  have "items (env ?s2) (memc (kv_of p)) path \<noteq> None" using present e7 by simp
  with store_covered [OF key(1,2,3) len cov, of n p ?s2] e7 obtain e8 e9 c where
    a: "add_evict_async (Suc n) E (Some M) p path v (PSTAT_SIZE + length b) ?s2 = Some (0, ?s2\<lparr>env := e9\<rparr>) \<or>
      add_evict_async (Suc n) E (Some M) p path v (PSTAT_SIZE + length b) ?s2 = Some (-1, ?s2\<lparr>env := e8\<rparr>) \<and>
      over_removed E (Some M) p path v (-1) (?s2\<lparr>env := e8\<rparr>) = Some (1, ?s2\<lparr>env := e9\<rparr>)"
    and e9: "items e9 = put_item (memc (kv_of p)) path (stat_bytes st, c) (items (env s))" by (auto simp: v_def)
  have r: "?t \<in> range (\<lambda>e. fst (c_time E e))" by blast
  from mq_run [OF clock r path(2), of p CREATE "?s2\<lparr>env := e9\<rparr>"] obtain e10 where
    m: "add_to_mq E p path CREATE ?t (?s2\<lparr>env := e9\<rparr>) = Some (0, ?s2\<lparr>env := e10\<rparr>)" "items e10 = items e9" by auto
  have "pacon_create_write_async (Suc n) E (Some M) p path mode (b @ NUL # brest) (of_nat (length b)) f s =
      Some (0, f\<lparr>f_fd := -1\<rparr>, ?s2\<lparr>env := e10\<rparr>)"
    using free path cd sz se a m(1) small_down [of "length b"]
    by (auto simp: pacon_create_write_async_def check_parent_async_entry [OF path(1) lt] ext_call_eq fresh_block_run
        es e7_def st_def simp del: add_evict_async.simps cong: if_cong)
  then show ?thesis using m e9 st by (intro exI conjI) (assumption, simp_all)
qed

end

subsection \<open>Properties\<close>

text \<open>
  As long as no directory is being removed, each of these operations of the asynchronous client is
  the one of the synchronous client, for every environment and every fuel; only \<open>rmdir\<close> differs,
  which then leaves the table of descriptors for \<open>pacon_rmdir_clean\<close>. For \<open>getattr\<close> this needs a
  region without joined regions.
\<close>

theorem async_client_empty_table:
  assumes "none_removed M"
  shows "pacon_create_async n E (Some M) p path mode s = pacon_create n E p path mode s \<and>
    pacon_mkdir_async n E (Some M) p path mode s = pacon_mkdir n E p path mode s \<and>
    pacon_create_write_async n E (Some M) p path mode buf sz f s = pacon_create_write n E p path mode buf sz f s \<and>
    (cr_num (pf p) = 0 \<longrightarrow> pacon_getattr_async n E (Some M) p path st s = pacon_getattr n E p path st s) \<and>
    pacon_rm_async n E (Some M) p path s = pacon_rm n E p path s \<and>
    pacon_opendir_async n E (Some M) p path s = pacon_opendir n E p path s \<and>
    pacon_rename_async n E (Some M) p path newpath s = pacon_rename n E p path newpath s \<and>
    map_option (\<lambda>(r, s). if r = 0 then pacon_rmdir_clean s else (r, s)) (pacon_rmdir_async n E (Some M) p path s) =
      pacon_rmdir n E p path s"
proof (intro conjI impI)
  note eqs = none_eqs [OF assms]
  show "pacon_create_async n E (Some M) p path mode s = pacon_create n E p path mode s"
    by (simp add: pacon_create_async_def pacon_create_def eqs cong: if_cong)
  show "pacon_mkdir_async n E (Some M) p path mode s = pacon_mkdir n E p path mode s"
    by (simp add: pacon_mkdir_async_def pacon_mkdir_def eqs cong: if_cong)
  show "pacon_create_write_async n E (Some M) p path mode buf sz f s = pacon_create_write n E p path mode buf sz f s"
    by (simp add: pacon_create_write_async_def pacon_create_write_def eqs cong: if_cong)
  show "pacon_getattr_async n E (Some M) p path st s = pacon_getattr n E p path st s" if "cr_num (pf p) = 0"
    using that by (cases n)
      (simp_all add: pacon_getattr_async.simps pacon_getattr.simps eqs cong: option.case_cong if_cong)
  show "pacon_rm_async n E (Some M) p path s = pacon_rm n E p path s"
    by (simp add: pacon_rm_async_def pacon_rm_def eqs cong: if_cong option.case_cong)
  show "pacon_opendir_async n E (Some M) p path s = pacon_opendir n E p path s" by (simp add: eqs)
  show "pacon_rename_async n E (Some M) p path newpath s = pacon_rename n E p path newpath s"
    by (simp add: pacon_rename_async_def pacon_rename_def eqs cong: if_cong)
  show "map_option (\<lambda>(r, s). if r = 0 then pacon_rmdir_clean s else (r, s)) (pacon_rmdir_async n E (Some M) p path s) =
      pacon_rmdir n E p path s"
    by (simp add: pacon_rmdir_async_def pacon_rmdir_def eqs map_option_bind split_def comp_def
        if_distrib [of "map_option f" for f] cong: if_cong)
      (intro Option.bind_cong if_cong refl; simp add: pacon_rmdir_clean_def)
qed

theorem async_client_empty_table_witness:
  "pacon_create_async 1 ref_ext (Some (\<lambda>_. ref_table [])) ref_pacon ''/w/a'' 0 ref_client =
    pacon_create 1 ref_ext ref_pacon ''/w/a'' 0 ref_client"
  using async_client_empty_table [of "\<lambda>_. ref_table []" 1 ref_ext ref_pacon "''/w/a''" 0 ref_client]
  by (simp add: none_removed_def ref_table_def)

text \<open>
  C31: While a directory is in the table of removed directories, and the table has fewer than 128
  entries and so fits into one segment, a client of a region without batch permissions refuses the
  directory and everything below it: \<open>getattr\<close>, \<open>opendir\<close>, \<open>rmdir\<close> and \<open>rename\<close> of a path that the
  table covers fail, and so do \<open>create\<close>, \<open>mkdir\<close> and \<open>create_write\<close> of an entry whose directory it
  covers. None of them sends a request or a message, or touches the cache; the state is the one
  before, but for the clock that \<open>create\<close> reads.
\<close>

theorem async_covered_refused:
  assumes "perm_info (pf p) = None" "\<forall>e. one_segment (M e)"
  shows "((\<forall>e. covers (noted (M e)) q) \<longrightarrow>
      pacon_getattr_async (Suc n) E (Some M) p q st s = Some (-1, st, s) \<and>
      pacon_opendir_async n E (Some M) p q s = Some (DIR_ERR, s) \<and>
      pacon_rmdir_async n E (Some M) p q s = Some (-1, s) \<and>
      pacon_rename_async n E (Some M) p q q' s = Some (-1, s)) \<and>
    ((\<forall>e. covers (noted (M e)) d) \<and> entry_path path d name \<and> length path < PATH_MAX \<longrightarrow>
      pacon_create_async n E (Some M) p path mode s = Some (-1, s\<lparr>env := snd (c_time E (env s))\<rparr>) \<and>
      pacon_mkdir_async n E (Some M) p path mode s = Some (-1, s) \<and>
      pacon_create_write_async n E (Some M) p path mode buf sz f s = Some (-1, f, s))"
  using assms always_coversI [OF assms(2), of q] always_coversI [OF assms(2), of d]
  by (auto simp: pacon_getattr_async.simps(2) pacon_opendir_async_def opendir_with_async_def pacon_rmdir_async_def
      pacon_rename_async_def removed_covered pacon_create_async_def pacon_mkdir_async_def pacon_create_write_async_def
      check_parent_async_entry check_dir_covered ext_call_eq)

theorem async_covered_refused_witness:
  "pacon_getattr_async 1 ref_ext (Some (\<lambda>_. ref_table [''/w''])) ref_pacon ''/w/a'' ref_stat ref_client = Some (-1, ref_stat, ref_client) \<and>
   pacon_mkdir_async 1 ref_ext (Some (\<lambda>_. ref_table [''/w''])) ref_pacon ''/w/a'' 0 ref_client = Some (-1, ref_client)"
proof -
  have one: "\<forall>e. one_segment ((\<lambda>_ :: ref_env. ref_table [''/w'']) e)" using ref_table_one [of "[''/w'']"] by simp
  have n: "noted (ref_table [''/w'']) = [''/w'']" by (simp add: noted_def ref_table_def)
  have c: "covers [''/w''] ''/w/a''" "covers [''/w''] ''/w''" by (simp_all add: covers_def)
  from async_covered_refused [OF ref_free one, of "''/w/a''" 0 ref_ext ref_stat ref_client "[]" "''/w''" "''/w/a''" "''a''" 0]
    async_covered_refused [OF ref_free one, of "''/w/a''" 1 ref_ext ref_stat ref_client "[]" "''/w''" "''/w/a''" "''a''" 0] n c
  show ?thesis using ref_path by (simp add: PATH_MAX_def)
qed

text \<open>
  C32: A directory can be made again while its predecessor is still in the table of removed
  directories. Let the table have fewer than 128 entries and cover the path but not its parent, and
  let the client know the parent, in a region without batch permissions. Then, whatever is cached for
  the path itself, \<open>create\<close> and \<open>mkdir\<close> store the new entry, send the message to the server and return
  0. But as long as the table holds the path, the new entry cannot be used: \<open>getattr\<close> of it fails.
\<close>

theorem async_recreated_not_visible:
  assumes "client_env E items sent" "perm_info (pf p) = None" "sane_clock E"
    "entry_path path d name" "length path + 3 \<le> PATH_MAX"
    "parent_known (items (env s) (memc (kv_of p))) d s"
    "\<forall>e. one_segment (M e)" "\<forall>e. \<not> covers (noted (M e)) d" "\<forall>e. covers (noted (M e)) path"
  shows "(\<exists>s' st c. pacon_create_async (Suc n) E (Some M) p path mode s = Some (0, s') \<and>
      items (env s') = put_item (memc (kv_of p)) path (stat_bytes st, c) (items (env s)) \<and> get_stat_flag st STAT_type = 1 \<and>
      (\<exists>t :: u32. sent (env s') = sent (env s) @ [(publisher (pf p), path @ opt_str CREATE @ show_int (sint t))]) \<and>
      pacon_getattr_async (Suc n) E (Some M) p path st0 s' = Some (-1, st0, s')) \<and>
    (\<exists>s' st c. pacon_mkdir_async (Suc n) E (Some M) p path mode s = Some (0, s') \<and>
      items (env s') = put_item (memc (kv_of p)) path (stat_bytes st, c) (items (env s)) \<and> ps_flags st = 0 \<and>
      (\<exists>t :: u32. sent (env s') = sent (env s) @ [(publisher (pf p), path @ opt_str MKDIR @ show_int (sint t))]) \<and>
      pacon_getattr_async (Suc n) E (Some M) p path st0 s' = Some (-1, st0, s'))"
proof -
  note cov = always_coversI [OF assms(7,9)] and par = never_coversI [OF assms(7,8)]
  have "pacon_getattr_async (Suc n) E (Some M) p path st0 s' = Some (-1, st0, s')" for s'
    using assms(2) cov by (simp add: pacon_getattr_async.simps(2) removed_covered)
  note g = this
  obtain s1 uid gid junk c where "pacon_create_async (Suc n) E (Some M) p path mode s = Some (0, s1)"
    "items (env s1) = put_item (memc (kv_of p)) path (stat_bytes (set_stat_flag (new_stat (df_f_mode (pf p)) (fst (c_time E (env s)))
      (fst (c_time E (env s))) (fst (c_time E (env s))) 0 uid gid junk) STAT_type 1), c) (items (env s))"
    "sent (env s1) = sent (env s) @ [(publisher (pf p), path @ opt_str CREATE @ show_int (sint (fst (c_time E (env s)))))]"
    using client_env.create_covered_run [OF assms(1-6) par cov refl, of n mode] by blast
  moreover note client_env.mkdir_covered_run [OF assms(1-6) par cov, of n mode]
  ultimately show ?thesis using g
    by (intro conjI) (intro exI conjI, assumption, assumption, simp, assumption, simp, blast)
qed

lemma ref_covered:
  "\<forall>e. one_segment ((\<lambda>_ :: ref_env. ref_table [''/w/a'']) e)"
  "\<forall>e. \<not> covers (noted ((\<lambda>_ :: ref_env. ref_table [''/w/a'']) e)) ''/w''"
  "\<forall>e. covers (noted ((\<lambda>_ :: ref_env. ref_table [''/w/a'']) e)) ''/w/a''"
  using ref_table_one [of "[''/w/a'']"]
  by (simp_all add: noted_def ref_table_def covers_def)

theorem async_recreated_not_visible_witness:
  "\<exists>s'. pacon_mkdir_async 1 ref_ext (Some (\<lambda>_. ref_table [''/w/a''])) ref_pacon ''/w/a'' 0 (ref_client_with ref_stat) = Some (0, s') \<and>
    pacon_getattr_async 1 ref_ext (Some (\<lambda>_. ref_table [''/w/a''])) ref_pacon ''/w/a'' ref_stat s' = Some (-1, ref_stat, s')"
  using async_recreated_not_visible [OF ref.client_env_axioms ref_free ref_clock ref_path _ ref_parent(2) ref_covered,
      where n = 0 and mode = 0 and ?st0.0 = ref_stat]
  by (auto simp: PATH_MAX_def)

text \<open>
  C33: \<open>pacon_create_write\<close> over a cached entry whose path is in the table of removed directories loses
  the data. Let the table have fewer than 128 entries and cover the path but not its parent, let the
  client know the parent, in a region without batch permissions, and let the data have no NUL byte and
  be shorter than \<open>INLINE_MAX\<close> less one. Then the call returns 0, but what it stores ends behind the
  metadata, which says that the data is inline and how long it is.
\<close>

theorem async_create_write_drops_data:
  assumes "client_env E items sent" "perm_info (pf p) = None" "sane_clock E"
    "entry_path path d name" "length path + 3 \<le> PATH_MAX"
    "parent_known (items (env s) (memc (kv_of p))) d s"
    "\<forall>e. one_segment (M e)" "\<forall>e. \<not> covers (noted (M e)) d" "\<forall>e. covers (noted (M e)) path"
    "NUL \<notin> set b" "length b + 1 < INLINE_MAX" "items (env s) (memc (kv_of p)) path \<noteq> None"
  shows "\<exists>s' st c. pacon_create_write_async (Suc n) E (Some M) p path mode (b @ NUL # brest) (of_nat (length b)) f s =
      Some (0, f\<lparr>f_fd := -1\<rparr>, s') \<and> ps_size st = of_nat (length b) \<and> get_stat_flag st STAT_inline = 1 \<and>
    items (env s') (memc (kv_of p)) path = Some (stat_bytes st, c)"
  using client_env.create_write_covered_run [OF assms(1-6) never_coversI [OF assms(7,8)] assms(10,11) always_coversI [OF assms(7,9)] assms(12), of n mode brest f] by auto

theorem async_create_write_drops_data_witness:
  "\<exists>s' st c. pacon_create_write_async 1 ref_ext (Some (\<lambda>_. ref_table [''/w/a''])) ref_pacon ''/w/a'' 0 (''xyz'' @ [NUL]) 3 (ref_file 5 0)
      (ref_client_with ref_stat) = Some (0, (ref_file 5 0)\<lparr>f_fd := -1\<rparr>, s') \<and> ps_size st = 3 \<and> get_stat_flag st STAT_inline = 1 \<and>
    r_items (env s') [''10.0.0.1''] ''/w/a'' = Some (stat_bytes st, c)"
  using async_create_write_drops_data [OF ref.client_env_axioms ref_free ref_clock ref_path _ ref_parent(2) [where st = ref_stat]
      ref_covered, where n = 0 and mode = 0 and b = "''xyz''" and brest = "[]" and f = "ref_file 5 0"]
  by (simp add: ref_items ref_memc PATH_MAX_def INLINE_MAX_def)

end
