(* ===== verification/Cuckoo_Hash.thy ===== *)
theory Cuckoo_Hash
  imports Prelude
begin

text \<open>
  Hashing in libcuckoo, the hash table behind \<open>hash_table.cc\<close>: the two buckets a key can be in
  (\<open>cuckoohash_map.hh\<close>). \<open>size_type\<close> is a word of 64 bits; a hashpower is the number of bits of a
  bucket index. The hash function, \<open>std::hash\<close>, is an argument of the definitions that use it.
\<close>

type_synonym u8 = "8 word"

definition SLOT_PER_BUCKET :: nat where [c_consts]: "SLOT_PER_BUCKET = 4"
definition kMaxNumLocks :: nat where [c_consts]: "kMaxNumLocks = 2 ^ 16"

definition hashsize :: "nat \<Rightarrow> u64" where
  "hashsize hp = push_bit hp 1"

definition hashmask :: "nat \<Rightarrow> u64" where
  "hashmask hp = hashsize hp - 1"

definition partial_key :: "u64 \<Rightarrow> u8" where
  "partial_key hash =
     (let hash_32bit = (ucast hash :: 32 word) XOR ucast (drop_bit 32 hash);
          hash_16bit = (ucast hash_32bit :: 16 word) XOR ucast (drop_bit 16 hash_32bit)
      in (ucast hash_16bit :: 8 word) XOR ucast (drop_bit 8 hash_16bit))"

definition index_hash :: "nat \<Rightarrow> u64 \<Rightarrow> u64" where
  "index_hash hp hv = hv AND hashmask hp"

definition alt_index :: "nat \<Rightarrow> u8 \<Rightarrow> u64 \<Rightarrow> u64" where
  "alt_index hp partial index =
     (let nonzero_tag = ucast partial + 1 in (index XOR (nonzero_tag * 0xc6a4a7935bd1e995)) AND hashmask hp)"

definition lock_ind :: "u64 \<Rightarrow> u64" where
  "lock_ind bucket_ind = bucket_ind AND (of_nat kMaxNumLocks - 1)"

subsection \<open>Indices as truncated words\<close>

lemma hashmask_mask: "hashmask hp = mask hp"
  by (simp add: hashmask_def hashsize_def mask_eq_exp_minus_1 push_bit_eq_mult)

lemma index_hash_take: "index_hash hp hv = take_bit hp hv"
  by (simp add: index_hash_def hashmask_mask take_bit_eq_mask)

lemma alt_index_take: "alt_index hp p i = take_bit hp (i XOR ((ucast p + 1) * 0xc6a4a7935bd1e995))"
  by (simp add: alt_index_def hashmask_mask take_bit_eq_mask Let_def)

lemma lock_ind_take: "lock_ind i = take_bit 16 i"
  by (simp add: lock_ind_def kMaxNumLocks_def take_bit_eq_mask mask_eq_exp_minus_1)

text \<open>The alternate of the alternate is the bucket itself.\<close>

lemma alt_index_involution: "take_bit hp i = i \<Longrightarrow> alt_index hp p (alt_index hp p i) = i"
  by (simp add: alt_index_take take_bit_xor flip: xor.assoc) (simp add: xor.assoc)

lemma index_hash_idem [simp]: "take_bit hp (index_hash hp h) = index_hash hp h"
  by (simp add: index_hash_take)

lemma alt_index_idem [simp]: "take_bit hp (alt_index hp p i) = alt_index hp p i"
  by (simp add: alt_index_take)

text \<open>Doubling the table adds one bit at the top of both indices.\<close>

lemma index_hash_grow: "take_bit hp (index_hash (Suc hp) h) = index_hash hp h"
  by (simp add: index_hash_take min_def)

lemma alt_index_grow: "take_bit hp (alt_index (Suc hp) p i) = alt_index hp p (take_bit hp i)"
  by (simp add: alt_index_take take_bit_xor min_def)

lemma unat_index_less: "hp < 64 \<Longrightarrow> take_bit hp (i :: u64) = i \<Longrightarrow> unat i < 2 ^ hp"
  by (metis take_bit_nat_less_exp unsigned_take_bit_eq)

lemma unat_of_index: "i < 2 ^ hp \<Longrightarrow> hp < 64 \<Longrightarrow> unat (of_nat i :: u64) = i"
  using power_increasing [of hp 64 "2 :: nat"] by (simp add: unat_of_nat take_bit_nat_eq_self)

lemma grow_cases:
  fixes x :: u64
  assumes "take_bit (Suc hp) x = x"
  shows "x = take_bit hp x \<or> x = take_bit hp x + hashsize hp"
proof -
  have "take_bit hp x + push_bit hp (of_bool (bit x hp)) = take_bit hp x OR push_bit hp (of_bool (bit x hp))"
    by (rule disjunctive_add_eq_or) (simp add: bit_eq_iff bit_simps)
  also have "\<dots> = take_bit (Suc hp) x" by (rule bit_eqI) (auto simp: bit_simps less_Suc_eq)
  finally have "x = take_bit hp x + push_bit hp (of_bool (bit x hp))" using assms by simp
  then show ?thesis by (cases "bit x hp") (simp_all add: hashsize_def)
qed

lemma unat_hashsize: "hp < 64 \<Longrightarrow> unat (hashsize hp) = 2 ^ hp"
  unfolding hashsize_def by (subst unsigned_push_bit_eq) (simp add: push_bit_eq_mult take_bit_nat_eq_self)

lemma unat_upper_half:
  fixes i :: u64
  assumes "hp < 63" "unat i < 2 ^ hp"
  shows "unat (i + hashsize hp) = unat i + 2 ^ hp"
proof -
  have "2 ^ Suc hp \<le> (2 :: nat) ^ 63" using assms(1) by (intro power_increasing) simp_all
  then have "unat i + unat (hashsize hp) < 2 ^ 64" using assms unat_hashsize [of hp] by simp
  then show ?thesis using assms(1) by (simp add: unat_word_ariths unat_hashsize)
qed

lemma lock_ind_small: "unat (lock_ind i) < kMaxNumLocks"
  using unat_index_less [of 16 "lock_ind i"] by (simp add: lock_ind_take kMaxNumLocks_def)

lemma unat_lock_ind: "unat (lock_ind i) = unat i mod kMaxNumLocks"
  unfolding lock_ind_take kMaxNumLocks_def by (subst unsigned_take_bit_eq) (simp add: take_bit_eq_mod)

lemma lock_ind_grow: "16 \<le> hp \<Longrightarrow> lock_ind (take_bit hp i) = lock_ind i"
  by (simp add: lock_ind_take min_def)

end
