(* ===== verification/Cuckoo_Table.thy ===== *)
theory Cuckoo_Table
  imports Cuckoo_Hash
begin

text \<open>
  The hash table of libcuckoo (\<open>libcuckoo_bucket_container.hh\<close> and \<open>cuckoohash_map.hh\<close>), as one thread
  uses it: \<open>hash_table.cc\<close> has one table per kind of entry and calls \<open>insert\<close>, \<open>find\<close> and \<open>clear\<close>.

  Taking and releasing a spinlock has no effect for one thread, but a lock carries two more things,
  which are modelled: the counter of the elements below it, and the mark that the buckets below it
  were already moved from \<open>old_buckets_\<close> after the last doubling. Taking a lock moves them, so also a
  lookup changes the table. The exception \<open>hashpower_changed\<close>, and with it the status
  \<open>failure_under_expansion\<close>, needs a second thread. An \<open>assert\<close> on the
  contents of the table that fails, and an access outside an array, give \<open>None\<close>; the unlocking before
  the search for a path and the two \<open>assert (!try_lock ())\<close>, which say that locks are held, are about
  other threads and left out. A table keeps the default limits (a load factor of at least 0.05 to grow by
  itself, no maximal hashpower).
\<close>

subsection \<open>The container of buckets\<close>

text \<open>A slot holds a key, its value and the partial key, or is not occupied.\<close>

type_synonym ('k, 'v) slot = "('k \<times> 'v \<times> u8) option"
type_synonym ('k, 'v) bucket = "('k, 'v) slot list"

record ('k, 'v) container =
  hashpower :: nat
  bucket_arr :: "('k, 'v) bucket list"

definition empty_bucket :: "('k, 'v) bucket" where
  "empty_bucket = replicate SLOT_PER_BUCKET None"

definition new_container :: "nat \<Rightarrow> ('k, 'v) container" where
  "new_container hp = \<lparr>hashpower = hp, bucket_arr = replicate (2 ^ hp) empty_bucket\<rparr>"

definition get_bucket :: "('k, 'v) container \<Rightarrow> u64 \<Rightarrow> ('k, 'v) bucket option" where
  "get_bucket c i = (if unat i < length (bucket_arr c) then Some (bucket_arr c ! unat i) else None)"

definition setKV :: "u64 \<Rightarrow> nat \<Rightarrow> u8 \<Rightarrow> 'k \<Rightarrow> 'v \<Rightarrow> ('k, 'v) container \<Rightarrow> ('k, 'v) container option" where
  "setKV ind slot p k v c = do {
     b \<leftarrow> get_bucket c ind;
     guard (slot < length b \<and> b ! slot = None);
     Some (c\<lparr>bucket_arr := (bucket_arr c)[unat ind := b[slot := Some (k, v, p)]]\<rparr>)
   }"

definition eraseKV :: "u64 \<Rightarrow> nat \<Rightarrow> ('k, 'v) container \<Rightarrow> ('k, 'v) container option" where
  "eraseKV ind slot c = do {
     b \<leftarrow> get_bucket c ind;
     guard (slot < length b \<and> b ! slot \<noteq> None);
     Some (c\<lparr>bucket_arr := (bucket_arr c)[unat ind := b[slot := None]]\<rparr>)
   }"

definition clear_buckets :: "('k, 'v) container \<Rightarrow> ('k, 'v) container" where
  "clear_buckets c = c\<lparr>bucket_arr := map (map (\<lambda>_. None)) (bucket_arr c)\<rparr>"

definition clear_and_deallocate :: "('k, 'v) container \<Rightarrow> ('k, 'v) container" where
  "clear_and_deallocate c = c\<lparr>bucket_arr := []\<rparr>"

subsection \<open>The table\<close>

record spinlock =
  elem_counter :: int
  is_migrated :: bool

record ('k, 'v) cuckoo =
  tbl_buckets :: "('k, 'v) container"
  tbl_old :: "('k, 'v) container"
  tbl_locks :: "spinlock list"
  tbl_lazy :: nat

definition new_lock :: spinlock where
  "new_lock = \<lparr>elem_counter = 0, is_migrated = True\<rparr>"

text \<open>\<open>for (blog2 = 0; (1 << blog2) < buckets; ++blog2);\<close>\<close>

function blog2_from :: "nat \<Rightarrow> nat \<Rightarrow> nat" where
  "blog2_from buckets blog2 = (if (2 :: nat) ^ blog2 < buckets then blog2_from buckets (Suc blog2) else blog2)"
  by pat_completeness auto
termination
  by (relation "measure (\<lambda>(b, i). b - 2 ^ i)") (auto intro: diff_less_mono2)

declare blog2_from.simps [simp del]

definition reserve_calc :: "nat \<Rightarrow> nat" where
  "reserve_calc n = blog2_from ((n + SLOT_PER_BUCKET - 1) div SLOT_PER_BUCKET) 0"

definition LIBCUCKOO_DEFAULT_SIZE :: nat where [c_consts]: "LIBCUCKOO_DEFAULT_SIZE = 2 ^ 16 * SLOT_PER_BUCKET"

definition cuckoohash_map :: "nat \<Rightarrow> ('k, 'v) cuckoo" where
  "cuckoohash_map n = (let hp = reserve_calc n in
     \<lparr>tbl_buckets = new_container hp, tbl_old = new_container 0,
      tbl_locks = replicate (min (2 ^ hp) kMaxNumLocks) new_lock, tbl_lazy = 0\<rparr>)"

abbreviation table_hp :: "('k, 'v) cuckoo \<Rightarrow> nat" where
  "table_hp t \<equiv> hashpower (tbl_buckets t)"

definition cuckoo_size :: "('k, 'v) cuckoo \<Rightarrow> int" where
  "cuckoo_size t = sum_list (map elem_counter (tbl_locks t))"

definition capacity :: "('k, 'v) cuckoo \<Rightarrow> nat" where
  "capacity t = 2 ^ table_hp t * SLOT_PER_BUCKET"

text \<open>
  \<open>load_factor () < minimum_load_factor ()\<close>: the capacity is a power of two, so for a size of at most
  \<open>2 ^ 53\<close> the quotient is exact as a double; the limit is the double next to 0.05, 3602879701896397 divided by 2 to the 56.
\<close>

definition load_factor_too_low :: "('k, 'v) cuckoo \<Rightarrow> bool" where
  "load_factor_too_low t \<longleftrightarrow> cuckoo_size t * 2 ^ 56 < 3602879701896397 * int (capacity t)"

subsection \<open>Moving buckets after a doubling\<close>

text \<open>
  The loop of \<open>move_bucket\<close> over the slots of one old bucket: a key whose index got a new bit goes to
  the next free slot of the bucket \<open>new_ind\<close>, the others keep bucket and slot.
\<close>

fun move_slots ::
  "('k \<Rightarrow> u64) \<Rightarrow> nat \<Rightarrow> nat \<Rightarrow> u64 \<Rightarrow> u64 \<Rightarrow> nat \<Rightarrow> ('k, 'v) slot list \<Rightarrow> nat \<Rightarrow> ('k, 'v) container \<Rightarrow> ('k, 'v) container option" where
  "move_slots hash old_hp new_hp old_ind new_ind j [] new_slot c = Some c"
| "move_slots hash old_hp new_hp old_ind new_ind j (None # rest) new_slot c =
     move_slots hash old_hp new_hp old_ind new_ind (Suc j) rest new_slot c"
| "move_slots hash old_hp new_hp old_ind new_ind j (Some (k, v, p) # rest) new_slot c = (
     let h = hash k;
         old_ihash = index_hash old_hp h; old_ahash = alt_index old_hp (partial_key h) old_ihash;
         new_ihash = index_hash new_hp h; new_ahash = alt_index new_hp (partial_key h) new_ihash
     in if old_ind = old_ihash \<and> new_ihash = new_ind \<or> old_ind = old_ahash \<and> new_ahash = new_ind then do {
          c \<leftarrow> setKV new_ind new_slot p k v c;
          move_slots hash old_hp new_hp old_ind new_ind (Suc j) rest (Suc new_slot) c
        }
        else do {
          guard (old_ind = old_ihash \<and> new_ihash = old_ihash \<or> old_ind = old_ahash \<and> new_ahash = old_ahash);
          c \<leftarrow> setKV old_ind j p k v c;
          move_slots hash old_hp new_hp old_ind new_ind (Suc j) rest new_slot c
        })"

definition move_bucket ::
  "('k \<Rightarrow> u64) \<Rightarrow> ('k, 'v) container \<Rightarrow> u64 \<Rightarrow> ('k, 'v) container \<Rightarrow> ('k, 'v) container option" where
  "move_bucket hash old ind new = do {
     b \<leftarrow> get_bucket old ind;
     move_slots hash (hashpower old) (hashpower new) ind (ind + hashsize (hashpower old)) 0 b 0 new
   }"

text \<open>The buckets below one lock: \<open>l\<close>, \<open>l + kMaxNumLocks\<close> and so on.\<close>

function move_below ::
  "('k \<Rightarrow> u64) \<Rightarrow> ('k, 'v) container \<Rightarrow> nat \<Rightarrow> ('k, 'v) container \<Rightarrow> ('k, 'v) container option" where
  "move_below hash old i new =
     (if i < 2 ^ hashpower old then do {
        new \<leftarrow> move_bucket hash old (of_nat i) new;
        move_below hash old (i + kMaxNumLocks) new
      }
      else Some new)"
  by pat_completeness auto
termination
  by (relation "measure (\<lambda>(hash, old, i, new). 2 ^ hashpower old - i)") (auto simp: kMaxNumLocks_def)

declare move_below.simps [simp del]

definition decrement_lazy :: "('k, 'v) cuckoo \<Rightarrow> ('k, 'v) cuckoo option" where
  "decrement_lazy t = do {
     guard (tbl_lazy t \<ge> 1);
     Some (t\<lparr>tbl_lazy := tbl_lazy t - 1, tbl_old := if tbl_lazy t = 1 then clear_and_deallocate (tbl_old t) else tbl_old t\<rparr>)
   }"

definition rehash_lock :: "('k \<Rightarrow> u64) \<Rightarrow> bool \<Rightarrow> nat \<Rightarrow> ('k, 'v) cuckoo \<Rightarrow> ('k, 'v) cuckoo option" where
  "rehash_lock hash is_lazy l t = do {
     guard (l < length (tbl_locks t));
     let lock = tbl_locks t ! l;
     if is_migrated lock then Some t
     else do {
       guard (length (tbl_locks t) = kMaxNumLocks \<and> hashpower (tbl_old t) + 1 = table_hp t \<and> 2 ^ hashpower (tbl_old t) \<ge> kMaxNumLocks);
       new \<leftarrow> move_below hash (tbl_old t) l (tbl_buckets t);
       let t = t\<lparr>tbl_buckets := new, tbl_locks := (tbl_locks t)[l := lock\<lparr>is_migrated := True\<rparr>]\<rparr>;
       if is_lazy then decrement_lazy t else Some t
     }
   }"

text \<open>
  Taking the locks of one, two or three buckets, in the order of the locks. The guards \<open>l2 != l1\<close> of the
  code keep it from locking the same spinlock twice; the calls of \<open>rehash_lock\<close> have no guard.
\<close>

definition lock_one :: "('k \<Rightarrow> u64) \<Rightarrow> u64 \<Rightarrow> ('k, 'v) cuckoo \<Rightarrow> ('k, 'v) cuckoo option" where
  "lock_one hash i t = rehash_lock hash True (unat (lock_ind i)) t"

definition lock_two :: "('k \<Rightarrow> u64) \<Rightarrow> u64 \<Rightarrow> u64 \<Rightarrow> ('k, 'v) cuckoo \<Rightarrow> ('k, 'v) cuckoo option" where
  "lock_two hash i1 i2 t = (
     let l1 = unat (lock_ind i1); l2 = unat (lock_ind i2); (l1, l2) = (if l2 < l1 then (l2, l1) else (l1, l2))
     in do {
       t \<leftarrow> rehash_lock hash True l1 t;
       rehash_lock hash True l2 t
     })"

definition sort_three :: "nat \<Rightarrow> nat \<Rightarrow> nat \<Rightarrow> nat \<times> nat \<times> nat" where
  "sort_three l0 l1 l2 = (
     let (l1, l2) = (if l2 < l1 then (l2, l1) else (l1, l2));
         (l0, l2) = (if l2 < l0 then (l2, l0) else (l0, l2));
         (l0, l1) = (if l1 < l0 then (l1, l0) else (l0, l1))
     in (l0, l1, l2))"

definition lock_three :: "('k \<Rightarrow> u64) \<Rightarrow> u64 \<Rightarrow> u64 \<Rightarrow> u64 \<Rightarrow> ('k, 'v) cuckoo \<Rightarrow> ('k, 'v) cuckoo option" where
  "lock_three hash i1 i2 i3 t = (
     case sort_three (unat (lock_ind i1)) (unat (lock_ind i2)) (unat (lock_ind i3)) of (l0, l1, l2) \<Rightarrow> do {
       t \<leftarrow> rehash_lock hash True l0 t;
       t \<leftarrow> rehash_lock hash True l1 t;
       rehash_lock hash True l2 t
     })"

definition snapshot_and_lock_two :: "('k \<Rightarrow> u64) \<Rightarrow> u64 \<Rightarrow> ('k, 'v) cuckoo \<Rightarrow> (u64 \<times> u64 \<times> ('k, 'v) cuckoo) option" where
  "snapshot_and_lock_two hash h t = (
     let i1 = index_hash (table_hp t) h; i2 = alt_index (table_hp t) (partial_key h) i1
     in do { t \<leftarrow> lock_two hash i1 i2 t; Some (i1, i2, t) })"


subsection \<open>Looking into a bucket\<close>

text \<open>The first slot with the partial key and the key.\<close>

fun read_slots :: "('k, 'v) slot list \<Rightarrow> nat \<Rightarrow> u8 \<Rightarrow> 'k \<Rightarrow> nat option" where
  "read_slots [] i partial key = None"
| "read_slots (s # rest) i partial key =
     (case s of
        None \<Rightarrow> read_slots rest (Suc i) partial key
      | Some (k, v, p) \<Rightarrow>
          if partial \<noteq> p then read_slots rest (Suc i) partial key
          else if k = key then Some i else read_slots rest (Suc i) partial key)"

definition try_read_from_bucket :: "('k, 'v) bucket \<Rightarrow> u8 \<Rightarrow> 'k \<Rightarrow> nat option" where
  "try_read_from_bucket b partial key = read_slots b 0 partial key"

text \<open>\<open>Inl\<close> is the slot of the key; \<open>Inr\<close> is the last free slot, if there is one.\<close>

fun find_slots :: "('k, 'v) slot list \<Rightarrow> nat \<Rightarrow> u8 \<Rightarrow> 'k \<Rightarrow> nat option \<Rightarrow> nat + nat option" where
  "find_slots [] i partial key slot = Inr slot"
| "find_slots (s # rest) i partial key slot =
     (case s of
        None \<Rightarrow> find_slots rest (Suc i) partial key (Some i)
      | Some (k, v, p) \<Rightarrow>
          if partial \<noteq> p then find_slots rest (Suc i) partial key slot
          else if k = key then Inl i else find_slots rest (Suc i) partial key slot)"

definition try_find_insert_bucket :: "('k, 'v) bucket \<Rightarrow> u8 \<Rightarrow> 'k \<Rightarrow> nat + nat option" where
  "try_find_insert_bucket b partial key = find_slots b 0 partial key None"

definition cuckoo_find :: "'k \<Rightarrow> u8 \<Rightarrow> u64 \<Rightarrow> u64 \<Rightarrow> ('k, 'v) cuckoo \<Rightarrow> (u64 \<times> nat) option option" where
  "cuckoo_find key partial i1 i2 t = do {
     b1 \<leftarrow> get_bucket (tbl_buckets t) i1;
     (case try_read_from_bucket b1 partial key of
        Some slot \<Rightarrow> Some (Some (i1, slot))
      | None \<Rightarrow> do {
          b2 \<leftarrow> get_bucket (tbl_buckets t) i2;
          Some (map_option (\<lambda>slot. (i2, slot)) (try_read_from_bucket b2 partial key))
        })
   }"

subsection \<open>The search for a cuckoo path\<close>

definition MAX_BFS_PATH_LEN :: nat where [c_consts]: "MAX_BFS_PATH_LEN = 5"

definition MAX_CUCKOO_COUNT :: nat where [c_consts]:
  "MAX_CUCKOO_COUNT = 2 * ((SLOT_PER_BUCKET ^ MAX_BFS_PATH_LEN - 1) div (SLOT_PER_BUCKET - 1))"

record b_slot =
  bs_bucket :: u64
  bs_pathcode :: "16 word"
  bs_depth :: int

text \<open>
  The loop over the slots of the bucket of \<open>x\<close>: the slot that ends the search, if one is free, and
  the entries for the queue.
\<close>

fun expand_slots :: "nat \<Rightarrow> b_slot \<Rightarrow> ('k, 'v) bucket \<Rightarrow> nat list \<Rightarrow> b_slot option \<times> b_slot list" where
  "expand_slots hp x b [] = (None, [])"
| "expand_slots hp x b (slot # rest) =
     (case b ! slot of
        None \<Rightarrow> (Some (x\<lparr>bs_pathcode := bs_pathcode x * of_nat SLOT_PER_BUCKET + of_nat slot\<rparr>), [])
      | Some (k, v, p) \<Rightarrow> (case expand_slots hp x b rest of (found, ys) \<Rightarrow>
          (found,
           if bs_depth x < int MAX_BFS_PATH_LEN - 1
           then \<lparr>bs_bucket = alt_index hp p (bs_bucket x),
                 bs_pathcode = bs_pathcode x * of_nat SLOT_PER_BUCKET + of_nat slot, bs_depth = bs_depth x + 1\<rparr> # ys
           else ys)))"

definition expand :: "nat \<Rightarrow> b_slot \<Rightarrow> ('k, 'v) bucket \<Rightarrow> b_slot option \<times> b_slot list" where
  "expand hp x b = expand_slots hp x b
     (map (\<lambda>i. (unat (bs_pathcode x) mod SLOT_PER_BUCKET + i) mod SLOT_PER_BUCKET) [0..<SLOT_PER_BUCKET])"

text \<open>An entry weighs more than the four entries one level deeper, which bounds the search.\<close>

definition bs_weight :: "b_slot \<Rightarrow> nat" where
  "bs_weight x = 5 ^ nat (int MAX_BFS_PATH_LEN - bs_depth x)"

lemma expand_slots_weight:
  "sum_list (map bs_weight (snd (expand_slots hp x b l))) * 5 \<le> length l * bs_weight x"
proof (induction l)
  case (Cons slot l)
  have "bs_weight \<lparr>bs_bucket = a, bs_pathcode = c, bs_depth = bs_depth x + 1\<rparr> * 5 = bs_weight x"
    if "bs_depth x < int MAX_BFS_PATH_LEN - 1" for a c
  proof -
    have "nat (int MAX_BFS_PATH_LEN - bs_depth x) = Suc (nat (int MAX_BFS_PATH_LEN - (bs_depth x + 1)))"
      using that by linarith
    then show ?thesis by (simp add: bs_weight_def)
  qed
  with Cons show ?case by (auto split: option.splits prod.splits)
qed simp

lemma expand_weight: "sum_list (map bs_weight (snd (expand hp x b))) < bs_weight x"
proof -
  have "sum_list (map bs_weight (snd (expand hp x b))) * 5 \<le> 4 * bs_weight x"
    unfolding expand_def by (rule order.trans [OF expand_slots_weight]) (simp add: SLOT_PER_BUCKET_def)
  moreover have "0 < bs_weight x" by (simp add: bs_weight_def)
  ultimately show ?thesis by linarith
qed

text \<open>The queue of \<open>slot_search\<close> is an array without wrap-around; \<open>put\<close> counts the entries put in.\<close>

function search_loop ::
  "('k \<Rightarrow> u64) \<Rightarrow> nat \<Rightarrow> b_slot list \<Rightarrow> nat \<Rightarrow> ('k, 'v) cuckoo \<Rightarrow> (b_slot \<times> ('k, 'v) cuckoo) option" where
  "search_loop hash hp [] put t = Some (\<lparr>bs_bucket = 0, bs_pathcode = 0, bs_depth = -1\<rparr>, t)"
| "search_loop hash hp (x # q) put t = do {
     t \<leftarrow> lock_one hash (bs_bucket x) t;
     b \<leftarrow> get_bucket (tbl_buckets t) (bs_bucket x);
     guard (put + length (snd (expand hp x b)) \<le> MAX_CUCKOO_COUNT);
     (case fst (expand hp x b) of
        Some y \<Rightarrow> Some (y, t)
      | None \<Rightarrow> search_loop hash hp (q @ snd (expand hp x b)) (put + length (snd (expand hp x b))) t)
   }"
  by pat_completeness auto
termination
  by (relation "measure (\<lambda>(hash, hp, q, put, t). sum_list (map bs_weight q))") (auto simp: expand_weight)

definition slot_search :: "('k \<Rightarrow> u64) \<Rightarrow> nat \<Rightarrow> u64 \<Rightarrow> u64 \<Rightarrow> ('k, 'v) cuckoo \<Rightarrow> (b_slot \<times> ('k, 'v) cuckoo) option" where
  "slot_search hash hp i1 i2 t = search_loop hash hp
     [\<lparr>bs_bucket = i1, bs_pathcode = 0, bs_depth = 0\<rparr>, \<lparr>bs_bucket = i2, bs_pathcode = 1, bs_depth = 0\<rparr>] 2 t"

text \<open>
  \<open>cuckoopath_search\<close>: the slots come out of the path code from the last to the first, what is left
  of the code names the bucket the path starts in.
\<close>

fun path_slots :: "nat \<Rightarrow> 16 word \<Rightarrow> nat list \<Rightarrow> nat list \<times> 16 word" where
  "path_slots 0 code acc = (acc, code)"
| "path_slots (Suc n) code acc =
     path_slots n (code div of_nat SLOT_PER_BUCKET) (unat (code mod of_nat SLOT_PER_BUCKET) # acc)"

text \<open>
  A cuckoo path: the entries to be moved, with bucket, slot and hash, and the slot at its end. The
  path ends early at a free slot.
\<close>

type_synonym cuckoo_path = "(u64 \<times> nat \<times> u64) list \<times> (u64 \<times> nat)"

fun path_fill ::
  "('k \<Rightarrow> u64) \<Rightarrow> nat \<Rightarrow> u64 \<Rightarrow> nat list \<Rightarrow> ('k, 'v) cuckoo \<Rightarrow> (cuckoo_path \<times> ('k, 'v) cuckoo) option" where
  "path_fill hash hp bucket [] t = None"
| "path_fill hash hp bucket (slot # rest) t = do {
     t \<leftarrow> lock_one hash bucket t;
     b \<leftarrow> get_bucket (tbl_buckets t) bucket;
     guard (slot < length b);
     (case b ! slot of
        None \<Rightarrow> Some (([], (bucket, slot)), t)
      | Some (k, v, p) \<Rightarrow>
          if rest = [] then Some (([], (bucket, slot)), t)
          else do {
            let h = hash k;
            guard (bucket = index_hash hp h \<or> bucket = alt_index hp (partial_key h) (index_hash hp h));
            ((recs, end), t) \<leftarrow> path_fill hash hp (alt_index hp (partial_key h) bucket) rest t;
            Some (((bucket, slot, h) # recs, end), t)
          })
   }"

definition cuckoopath_search ::
  "('k \<Rightarrow> u64) \<Rightarrow> nat \<Rightarrow> u64 \<Rightarrow> u64 \<Rightarrow> ('k, 'v) cuckoo \<Rightarrow> (cuckoo_path option \<times> ('k, 'v) cuckoo) option" where
  "cuckoopath_search hash hp i1 i2 t = do {
     (x, t) \<leftarrow> slot_search hash hp i1 i2 t;
     if bs_depth x = -1 then Some (None, t)
     else (case path_slots (nat (bs_depth x + 1)) (bs_pathcode x) [] of (slots, code) \<Rightarrow> do {
       guard (code = 0 \<or> code = 1);
       (path, t) \<leftarrow> path_fill hash hp (if code = 0 then i1 else i2) slots t;
       Some (Some path, t)
     })
   }"

subsection \<open>Moving along a cuckoo path\<close>

text \<open>
  The loop of \<open>cuckoopath_move\<close>, over the entries from the last to the first; false when an entry is
  not there any more.
\<close>

fun move_path ::
  "('k \<Rightarrow> u64) \<Rightarrow> u64 \<Rightarrow> u64 \<Rightarrow> (u64 \<times> nat \<times> u64) list \<Rightarrow> u64 \<times> nat \<Rightarrow> ('k, 'v) cuckoo \<Rightarrow> (bool \<times> ('k, 'v) cuckoo) option" where
  "move_path hash i1 i2 [] to t = Some (True, t)"
| "move_path hash i1 i2 ((from_bucket, fs, h) # rest) (to_bucket, ts) t = do {
     t \<leftarrow> (if rest = [] then lock_three hash i1 i2 to_bucket t else lock_two hash from_bucket to_bucket t);
     fb \<leftarrow> get_bucket (tbl_buckets t) from_bucket;
     tb \<leftarrow> get_bucket (tbl_buckets t) to_bucket;
     guard (fs < length fb \<and> ts < length tb);
     (case (tb ! ts, fb ! fs) of
        (None, Some (k, v, p)) \<Rightarrow>
          if hash k \<noteq> h then Some (False, t)
          else do {
            c \<leftarrow> setKV to_bucket ts p k v (tbl_buckets t);
            c \<leftarrow> eraseKV from_bucket fs c;
            move_path hash i1 i2 rest (from_bucket, fs) (t\<lparr>tbl_buckets := c\<rparr>)
          }
      | _ \<Rightarrow> Some (False, t))
   }"

definition cuckoopath_move ::
  "('k \<Rightarrow> u64) \<Rightarrow> u64 \<Rightarrow> u64 \<Rightarrow> cuckoo_path \<Rightarrow> ('k, 'v) cuckoo \<Rightarrow> (bool \<times> ('k, 'v) cuckoo) option" where
  "cuckoopath_move hash i1 i2 path t = (case path of (recs, (bucket, slot)) \<Rightarrow>
     if recs = [] then do {
       guard (bucket = i1 \<or> bucket = i2);
       t \<leftarrow> lock_two hash i1 i2 t;
       b \<leftarrow> get_bucket (tbl_buckets t) bucket;
       guard (slot < length b);
       Some (b ! slot = None, t)
     }
     else move_path hash i1 i2 (rev recs) (bucket, slot) t)"

definition path_start :: "cuckoo_path \<Rightarrow> u64 \<times> nat" where
  "path_start path = (case fst path of [] \<Rightarrow> snd path | (bucket, slot, h) # _ \<Rightarrow> (bucket, slot))"

text \<open>\<open>run_cuckoo\<close> searches again when a move failed. The fuel bounds the rounds.\<close>

fun run_cuckoo ::
  "nat \<Rightarrow> ('k \<Rightarrow> u64) \<Rightarrow> u64 \<Rightarrow> u64 \<Rightarrow> ('k, 'v) cuckoo \<Rightarrow> ((u64 \<times> nat) option \<times> ('k, 'v) cuckoo) option" where
  "run_cuckoo 0 hash i1 i2 t = None"
| "run_cuckoo (Suc n) hash i1 i2 t = do {
     (path, t) \<leftarrow> cuckoopath_search hash (table_hp t) i1 i2 t;
     (case path of
        None \<Rightarrow> Some (None, t)
      | Some path \<Rightarrow> do {
          (done, t) \<leftarrow> cuckoopath_move hash i1 i2 path t;
          if done then do {
            let (insert_bucket, insert_slot) = path_start path;
            b \<leftarrow> get_bucket (tbl_buckets t) insert_bucket;
            guard ((insert_bucket = i1 \<or> insert_bucket = i2) \<and> insert_slot < length b \<and> b ! insert_slot = None);
            Some (Some (insert_bucket, insert_slot), t)
          }
          else run_cuckoo n hash i1 i2 t
        })
   }"


subsection \<open>Growing\<close>

datatype 'a outcome = Done 'a | LoadFactorTooLow

fun rehash_all :: "('k \<Rightarrow> u64) \<Rightarrow> nat list \<Rightarrow> ('k, 'v) cuckoo \<Rightarrow> ('k, 'v) cuckoo option" where
  "rehash_all hash [] t = Some t"
| "rehash_all hash (l # ls) t = do { t \<leftarrow> rehash_lock hash False l t; rehash_all hash ls t }"

fun move_all :: "('k \<Rightarrow> u64) \<Rightarrow> ('k, 'v) container \<Rightarrow> nat list \<Rightarrow> ('k, 'v) container \<Rightarrow> ('k, 'v) container option" where
  "move_all hash old [] new = Some new"
| "move_all hash old (i # is) new = do { new \<leftarrow> move_bucket hash old (of_nat i) new; move_all hash old is new }"

definition maybe_resize_locks :: "nat \<Rightarrow> ('k, 'v) cuckoo \<Rightarrow> ('k, 'v) cuckoo" where
  "maybe_resize_locks new_bucket_count t =
     (if \<not> (length (tbl_locks t) < kMaxNumLocks \<and> length (tbl_locks t) < new_bucket_count) then t
      else t\<lparr>tbl_locks := tbl_locks t @ replicate (min kMaxNumLocks new_bucket_count - length (tbl_locks t)) new_lock\<rparr>)"

text \<open>
  \<open>num_remaining_lazy_rehash_locks (n)\<close> returns before it comes to the deallocation, so it only sets
  the number.
\<close>

definition set_lazy :: "nat \<Rightarrow> ('k, 'v) cuckoo \<Rightarrow> ('k, 'v) cuckoo" where
  "set_lazy n t = t\<lparr>tbl_lazy := n\<rparr>"

definition cuckoo_fast_double :: "('k \<Rightarrow> u64) \<Rightarrow> ('k, 'v) cuckoo \<Rightarrow> ('k, 'v) cuckoo outcome option" where
  "cuckoo_fast_double hash t = (
     let new_hp = table_hp t + 1 in
     do {
       guard (0 \<le> cuckoo_size t);
       if load_factor_too_low t then Some LoadFactorTooLow
       else do {
         guard (new_hp < 64);
         t \<leftarrow> rehash_all hash [0..<length (tbl_locks t)] t;
         let t = maybe_resize_locks (2 ^ new_hp) (set_lazy 0 t);
         let t = t\<lparr>tbl_old := tbl_buckets t, tbl_buckets := new_container new_hp\<rparr>;
         if 2 ^ hashpower (tbl_old t) < kMaxNumLocks then do {
           new \<leftarrow> move_all hash (tbl_old t) [0..<2 ^ hashpower (tbl_old t)] (tbl_buckets t);
           Some (Done (set_lazy 0 (t\<lparr>tbl_buckets := new\<rparr>)))
         }
         else Some (Done (set_lazy (length (tbl_locks t))
                (t\<lparr>tbl_locks := map (\<lambda>l. l\<lparr>is_migrated := False\<rparr>) (tbl_locks t)\<rparr>)))
       }
     })"

subsection \<open>Inserting\<close>

datatype position = Free u64 nat | Duplicated u64 nat | TableFull

definition cuckoo_insert ::
  "nat \<Rightarrow> ('k \<Rightarrow> u64) \<Rightarrow> 'k \<Rightarrow> u64 \<Rightarrow> u64 \<Rightarrow> ('k, 'v) cuckoo \<Rightarrow> (position \<times> ('k, 'v) cuckoo) option" where
  "cuckoo_insert n hash key i1 i2 t = do {
     let partial = partial_key (hash key);
     b1 \<leftarrow> get_bucket (tbl_buckets t) i1;
     (case try_find_insert_bucket b1 partial key of
        Inl slot \<Rightarrow> Some (Duplicated i1 slot, t)
      | Inr res1 \<Rightarrow> do {
          b2 \<leftarrow> get_bucket (tbl_buckets t) i2;
          (case try_find_insert_bucket b2 partial key of
             Inl slot \<Rightarrow> Some (Duplicated i2 slot, t)
           | Inr res2 \<Rightarrow>
               (case (res1, res2) of
                  (Some slot, _) \<Rightarrow> Some (Free i1 slot, t)
                | (None, Some slot) \<Rightarrow> Some (Free i2 slot, t)
                | (None, None) \<Rightarrow> do {
                    (r, t) \<leftarrow> run_cuckoo n hash i1 i2 t;
                    (case r of
                       None \<Rightarrow> Some (TableFull, t)
                     | Some (insert_bucket, insert_slot) \<Rightarrow> do {
                         b \<leftarrow> get_bucket (tbl_buckets t) insert_bucket;
                         guard (insert_slot < length b \<and> b ! insert_slot = None);
                         guard (insert_bucket = index_hash (table_hp t) (hash key) \<or>
                           insert_bucket = alt_index (table_hp t) partial (index_hash (table_hp t) (hash key)));
                         pos \<leftarrow> cuckoo_find key partial i1 i2 t;
                         Some (case pos of Some (i, slot) \<Rightarrow> Duplicated i slot | None \<Rightarrow> Free insert_bucket insert_slot, t)
                       })
                  }))
        })
   }"

text \<open>The fuel bounds the number of times the table grows.\<close>

fun cuckoo_insert_loop ::
  "nat \<Rightarrow> ('k \<Rightarrow> u64) \<Rightarrow> 'k \<Rightarrow> u64 \<Rightarrow> u64 \<Rightarrow> ('k, 'v) cuckoo \<Rightarrow> (position \<times> ('k, 'v) cuckoo) outcome option" where
  "cuckoo_insert_loop 0 hash key i1 i2 t = None"
| "cuckoo_insert_loop (Suc n) hash key i1 i2 t = do {
     (pos, t) \<leftarrow> cuckoo_insert (Suc n) hash key i1 i2 t;
     (case pos of
        TableFull \<Rightarrow> do {
          r \<leftarrow> cuckoo_fast_double hash t;
          (case r of
             LoadFactorTooLow \<Rightarrow> Some LoadFactorTooLow
           | Done t \<Rightarrow> do {
               (i1, i2, t) \<leftarrow> snapshot_and_lock_two hash (hash key) t;
               cuckoo_insert_loop n hash key i1 i2 t
             })
        }
      | _ \<Rightarrow> Some (Done (pos, t)))
   }"

definition count_at :: "int \<Rightarrow> u64 \<Rightarrow> ('k, 'v) cuckoo \<Rightarrow> ('k, 'v) cuckoo option" where
  "count_at d bucket_ind t = (let l = unat (lock_ind bucket_ind) in do {
     guard (l < length (tbl_locks t));
     let lock = tbl_locks t ! l;
     Some (t\<lparr>tbl_locks := (tbl_locks t)[l := lock\<lparr>elem_counter := elem_counter lock + d\<rparr>]\<rparr>)
   })"

definition add_to_bucket :: "u64 \<Rightarrow> nat \<Rightarrow> u8 \<Rightarrow> 'k \<Rightarrow> 'v \<Rightarrow> ('k, 'v) cuckoo \<Rightarrow> ('k, 'v) cuckoo option" where
  "add_to_bucket bucket_ind slot partial key val t = do {
     c \<leftarrow> setKV bucket_ind slot partial key val (tbl_buckets t);
     count_at 1 bucket_ind (t\<lparr>tbl_buckets := c\<rparr>)
   }"

definition del_from_bucket :: "u64 \<Rightarrow> nat \<Rightarrow> ('k, 'v) cuckoo \<Rightarrow> ('k, 'v) cuckoo option" where
  "del_from_bucket bucket_ind slot t = do {
     c \<leftarrow> eraseKV bucket_ind slot (tbl_buckets t);
     count_at (-1) bucket_ind (t\<lparr>tbl_buckets := c\<rparr>)
   }"

subsection \<open>The operations of the table\<close>

definition mapped :: "u64 \<Rightarrow> nat \<Rightarrow> ('k, 'v) cuckoo \<Rightarrow> 'v option" where
  "mapped i slot t = do {
     b \<leftarrow> get_bucket (tbl_buckets t) i;
     guard (slot < length b);
     (k, v, p) \<leftarrow> b ! slot;
     Some v
   }"

definition set_mapped :: "u64 \<Rightarrow> nat \<Rightarrow> 'v \<Rightarrow> ('k, 'v) cuckoo \<Rightarrow> ('k, 'v) cuckoo option" where
  "set_mapped i slot v t = do {
     b \<leftarrow> get_bucket (tbl_buckets t) i;
     guard (slot < length b);
     (k, _, p) \<leftarrow> b ! slot;
     Some (t\<lparr>tbl_buckets := (tbl_buckets t)\<lparr>bucket_arr := (bucket_arr (tbl_buckets t))[unat i := b[slot := Some (k, v, p)]]\<rparr>\<rparr>)
   }"

text \<open>A lookup with its position; \<open>find_fn\<close>, \<open>update_fn\<close> and \<open>erase_fn\<close> start with it.\<close>

definition locate :: "('k \<Rightarrow> u64) \<Rightarrow> 'k \<Rightarrow> ('k, 'v) cuckoo \<Rightarrow> ((u64 \<times> nat) option \<times> ('k, 'v) cuckoo) option" where
  "locate hash key t = do {
     (i1, i2, t) \<leftarrow> snapshot_and_lock_two hash (hash key) t;
     pos \<leftarrow> cuckoo_find key (partial_key (hash key)) i1 i2 t;
     Some (pos, t)
   }"

definition find_fn :: "('k \<Rightarrow> u64) \<Rightarrow> 'k \<Rightarrow> ('k, 'v) cuckoo \<Rightarrow> ('v option \<times> ('k, 'v) cuckoo) option" where
  "find_fn hash key t = do {
     (pos, t) \<leftarrow> locate hash key t;
     (case pos of
        None \<Rightarrow> Some (None, t)
      | Some (i, slot) \<Rightarrow> do { v \<leftarrow> mapped i slot t; Some (Some v, t) })
   }"

text \<open>The functions on values give the new value, those of \<open>erase_fn\<close> and \<open>uprase_fn\<close> also whether to erase.\<close>

definition update_fn :: "('k \<Rightarrow> u64) \<Rightarrow> 'k \<Rightarrow> ('v \<Rightarrow> 'v) \<Rightarrow> ('k, 'v) cuckoo \<Rightarrow> (bool \<times> ('k, 'v) cuckoo) option" where
  "update_fn hash key fn t = do {
     (pos, t) \<leftarrow> locate hash key t;
     (case pos of
        None \<Rightarrow> Some (False, t)
      | Some (i, slot) \<Rightarrow> do { v \<leftarrow> mapped i slot t; t \<leftarrow> set_mapped i slot (fn v) t; Some (True, t) })
   }"

definition apply_erase :: "('v \<Rightarrow> bool \<times> 'v) \<Rightarrow> u64 \<Rightarrow> nat \<Rightarrow> ('k, 'v) cuckoo \<Rightarrow> ('k, 'v) cuckoo option" where
  "apply_erase fn i slot t = do {
     v \<leftarrow> mapped i slot t;
     t \<leftarrow> set_mapped i slot (snd (fn v)) t;
     if fst (fn v) then del_from_bucket i slot t else Some t
   }"

definition erase_fn :: "('k \<Rightarrow> u64) \<Rightarrow> 'k \<Rightarrow> ('v \<Rightarrow> bool \<times> 'v) \<Rightarrow> ('k, 'v) cuckoo \<Rightarrow> (bool \<times> ('k, 'v) cuckoo) option" where
  "erase_fn hash key fn t = do {
     (pos, t) \<leftarrow> locate hash key t;
     (case pos of
        None \<Rightarrow> Some (False, t)
      | Some (i, slot) \<Rightarrow> do { t \<leftarrow> apply_erase fn i slot t; Some (True, t) })
   }"

definition uprase_fn ::
  "nat \<Rightarrow> ('k \<Rightarrow> u64) \<Rightarrow> 'k \<Rightarrow> ('v \<Rightarrow> bool \<times> 'v) \<Rightarrow> 'v \<Rightarrow> ('k, 'v) cuckoo \<Rightarrow> (bool \<times> ('k, 'v) cuckoo) outcome option" where
  "uprase_fn n hash key fn val t = do {
     (i1, i2, t) \<leftarrow> snapshot_and_lock_two hash (hash key) t;
     r \<leftarrow> cuckoo_insert_loop n hash key i1 i2 t;
     (case r of
        LoadFactorTooLow \<Rightarrow> Some LoadFactorTooLow
      | Done (pos, t) \<Rightarrow>
          (case pos of
             Free i slot \<Rightarrow> do { t \<leftarrow> add_to_bucket i slot (partial_key (hash key)) key val t; Some (Done (True, t)) }
           | Duplicated i slot \<Rightarrow> do { t \<leftarrow> apply_erase fn i slot t; Some (Done (False, t)) }
           | TableFull \<Rightarrow> None))
   }"

definition upsert where "upsert n hash key fn val t = uprase_fn n hash key (\<lambda>v. (False, fn v)) val t"
definition insert_kv where "insert_kv n hash key val t = upsert n hash key (\<lambda>v. v) val t"
definition insert_or_assign where "insert_or_assign n hash key val t = upsert n hash key (\<lambda>_. val) val t"
definition update_kv where "update_kv hash key val t = update_fn hash key (\<lambda>_. val) t"
definition erase_key where "erase_key hash key t = erase_fn hash key (\<lambda>v. (True, v)) t"

definition cuckoo_clear :: "('k, 'v) cuckoo \<Rightarrow> ('k, 'v) cuckoo" where
  "cuckoo_clear t = set_lazy 0 (t\<lparr>tbl_buckets := clear_buckets (tbl_buckets t),
     tbl_locks := map (\<lambda>_. new_lock) (tbl_locks t)\<rparr>)"

lemmas cuckoo_ops = upsert_def insert_kv_def insert_or_assign_def update_kv_def erase_key_def

end
