(* ===== verification/Cuckoo_Flat.thy ===== *)
theory Cuckoo_Flat
  imports Cuckoo_Table "HOL-Library.Multiset"
begin

text \<open>
  The buckets of a table as one list, without the locks and without the buckets that still have to be
  moved: the entries they hold, the condition that every entry is in one of the two buckets of its
  key, and the table of twice the size.
\<close>

subsection \<open>The entries of buckets\<close>

type_synonym ('k, 'v) entry = "'k \<times> 'v \<times> u8"

fun occupied :: "('k, 'v) bucket \<Rightarrow> ('k, 'v) entry list" where
  "occupied [] = []"
| "occupied (None # b) = occupied b"
| "occupied (Some e # b) = e # occupied b"

definition entries :: "('k, 'v) bucket list \<Rightarrow> ('k, 'v) entry list" where
  "entries bs = concat (map occupied bs)"

definition kv_map :: "('k, 'v) entry list \<Rightarrow> 'k \<rightharpoonup> 'v" where
  "kv_map es = map_of (map (\<lambda>(k, v, p). (k, v)) es)"

lemma occupied_append [simp]: "occupied (b @ b') = occupied b @ occupied b'"
  by (induction b rule: occupied.induct) simp_all

lemma occupied_map_Some [simp]: "occupied (map Some es) = es"
  by (induction es) simp_all

lemma occupied_None [simp]: "occupied (replicate n None) = []"
  by (induction n) simp_all

lemma set_occupied_Some: "e \<in> set (occupied b) \<longleftrightarrow> Some e \<in> set b"
  by (induction b rule: occupied.induct) auto

lemma set_occupied: "e \<in> set (occupied b) \<longleftrightarrow> (\<exists>s < length b. b ! s = Some e)"
  unfolding set_occupied_Some by (rule in_set_conv_nth)

lemma occupied_le: "length (occupied b) \<le> length b"
  by (induction b rule: occupied.induct) simp_all

lemma entries_simps [simp]:
  "entries [] = []" "entries (b # bs) = occupied b @ entries bs" "entries (bs @ bs') = entries bs @ entries bs'"
  "entries (replicate n (replicate m None)) = []"
  by (simp_all add: entries_def)

lemma set_entries: "e \<in> set (entries bs) \<longleftrightarrow> (\<exists>i < length bs. e \<in> set (occupied (bs ! i)))"
  by (auto simp: entries_def) (metis in_set_conv_nth)+

lemma occupied_fill:
  "s < length b \<Longrightarrow> b ! s = None \<Longrightarrow> mset (occupied (b[s := Some e])) = add_mset e (mset (occupied b))"
proof (induction b arbitrary: s)
  case (Cons x b)
  then show ?case by (cases s; cases x) auto
qed simp

lemma occupied_free:
  "s < length b \<Longrightarrow> b ! s = Some e \<Longrightarrow> mset (occupied b) = add_mset e (mset (occupied (b[s := None])))"
  using occupied_fill [of s "b[s := None]" e] list_update_id [of b s] by simp

lemma entries_update:
  "i < length bs \<Longrightarrow> mset (entries (bs[i := b])) + mset (occupied (bs ! i)) = mset (entries bs) + mset (occupied b)"
proof (induction bs arbitrary: i)
  case (Cons x bs)
  then show ?case by (cases i) (auto simp: ac_simps)
qed simp

text \<open>Filling, freeing and overwriting one slot.\<close>

lemma entries_fill:
  assumes "i < length bs" "s < length (bs ! i)" "bs ! i ! s = None"
  shows "mset (entries (bs[i := (bs ! i)[s := Some e]])) = add_mset e (mset (entries bs))"
  using entries_update [OF assms(1), of "(bs ! i)[s := Some e]"] occupied_fill [OF assms(2,3), of e] by simp

lemma entries_free:
  assumes "i < length bs" "s < length (bs ! i)" "bs ! i ! s = Some e"
  shows "mset (entries bs) = add_mset e (mset (entries (bs[i := (bs ! i)[s := None]])))"
  using entries_update [OF assms(1), of "(bs ! i)[s := None]"] occupied_free [OF assms(2,3)] by simp

subsection \<open>The map of a table\<close>

abbreviation distinct_keys :: "('k, 'v) entry list \<Rightarrow> bool" where
  "distinct_keys es \<equiv> distinct (map fst es)"

lemma distinct_keys_mset: "mset es = mset es' \<Longrightarrow> distinct_keys es \<longleftrightarrow> distinct_keys es'"
  by (rule mset_eq_imp_distinct_iff) simp

lemma fst_kv: "fst \<circ> (\<lambda>(k, v, p). (k, v)) = fst"
  by auto

lemma kv_map_Some:
  assumes "distinct_keys es"
  shows "kv_map es k = Some v \<longleftrightarrow> (\<exists>p. (k, v, p) \<in> set es)"
proof -
  have "kv_map es k = Some v \<longleftrightarrow> (k, v) \<in> set (map (\<lambda>(k, v, p). (k, v)) es)"
    unfolding kv_map_def using assms by (intro map_of_eq_Some_iff) (simp add: fst_kv)
  then show ?thesis by force
qed

lemma kv_map_None: "kv_map es k = None \<longleftrightarrow> k \<notin> fst ` set es"
  by (simp add: kv_map_def map_of_eq_None_iff image_image case_prod_unfold)

lemma kv_map_simps [simp]:
  "kv_map [] = Map.empty" "kv_map ((k, v, p) # es) = (kv_map es)(k \<mapsto> v)"
  by (simp_all add: kv_map_def)

lemma kv_map_mset:
  assumes "mset es = mset es'" "distinct_keys es"
  shows "kv_map es = kv_map es'"
proof -
  have "distinct_keys es'" using distinct_keys_mset assms by blast
  moreover have "set es = set es'" using assms(1) by (rule mset_eq_setD)
  ultimately show ?thesis unfolding kv_map_def
    using assms(2) by (subst map_of_inject_set) (simp_all add: fst_kv)
qed

text \<open>One entry more.\<close>

lemma kv_map_add:
  assumes "mset es' = add_mset (k, v, p) (mset es)" "distinct_keys es" "k \<notin> fst ` set es"
  shows "distinct_keys es'" "kv_map es' = (kv_map es)(k \<mapsto> v)" "length es' = Suc (length es)"
proof -
  have eq: "mset es' = mset ((k, v, p) # es)" using assms(1) by simp
  then show d: "distinct_keys es'" using distinct_keys_mset assms(2,3) by fastforce
  then show "kv_map es' = (kv_map es)(k \<mapsto> v)" using kv_map_mset [OF eq] by simp
  show "length es' = Suc (length es)" using mset_eq_length [OF eq] by simp
qed

text \<open>One entry less.\<close>

lemma kv_map_remove:
  assumes "mset es = add_mset (k, v, p) (mset es')" "distinct_keys es"
  shows "distinct_keys es'" "k \<notin> fst ` set es'" "kv_map es' = (kv_map es)(k := None)" "length es = Suc (length es')"
proof -
  have eq: "mset es = mset ((k, v, p) # es')" using assms(1) by simp
  then have d: "distinct_keys ((k, v, p) # es')" using distinct_keys_mset assms(2) by blast
  then show "distinct_keys es'" and k: "k \<notin> fst ` set es'" by auto
  have "kv_map es = (kv_map es')(k \<mapsto> v)" using kv_map_mset [OF eq assms(2)] by simp
  moreover have "kv_map es' k = None" using k kv_map_None by metis
  ultimately show "kv_map es' = (kv_map es)(k := None)" by auto
  show "length es = Suc (length es')" using mset_eq_length [OF eq] by simp
qed

subsection \<open>The two buckets of a key\<close>

definition home1 :: "('k \<Rightarrow> u64) \<Rightarrow> nat \<Rightarrow> 'k \<Rightarrow> u64" where
  "home1 hash hp k = index_hash hp (hash k)"

definition home2 :: "('k \<Rightarrow> u64) \<Rightarrow> nat \<Rightarrow> 'k \<Rightarrow> u64" where
  "home2 hash hp k = alt_index hp (partial_key (hash k)) (home1 hash hp k)"

definition entry_ok :: "('k \<Rightarrow> u64) \<Rightarrow> nat \<Rightarrow> u64 \<Rightarrow> ('k, 'v) entry \<Rightarrow> bool" where
  "entry_ok hash hp i e = (case e of (k, v, p) \<Rightarrow>
     p = partial_key (hash k) \<and> (i = home1 hash hp k \<or> i = home2 hash hp k))"

definition shape :: "nat \<Rightarrow> ('k, 'v) bucket list \<Rightarrow> bool" where
  "shape hp bs \<longleftrightarrow> hp < 64 \<and> length bs = 2 ^ hp \<and> (\<forall>b \<in> set bs. length b = SLOT_PER_BUCKET)"

definition placed :: "('k \<Rightarrow> u64) \<Rightarrow> nat \<Rightarrow> ('k, 'v) bucket list \<Rightarrow> bool" where
  "placed hash hp bs \<longleftrightarrow> (\<forall>i < length bs. \<forall>e \<in> set (occupied (bs ! i)). entry_ok hash hp (of_nat i) e)"

definition flat_inv :: "('k \<Rightarrow> u64) \<Rightarrow> nat \<Rightarrow> ('k, 'v) bucket list \<Rightarrow> bool" where
  "flat_inv hash hp bs \<longleftrightarrow> shape hp bs \<and> placed hash hp bs \<and> distinct_keys (entries bs)"

lemma home_idem [simp]:
  "take_bit hp (home1 hash hp k) = home1 hash hp k" "take_bit hp (home2 hash hp k) = home2 hash hp k"
  by (simp_all add: home1_def home2_def)

lemma home1_grow: "take_bit hp (home1 hash (Suc hp) k) = home1 hash hp k"
  by (simp add: home1_def index_hash_grow)

lemma home2_grow: "take_bit hp (home2 hash (Suc hp) k) = home2 hash hp k"
  by (simp add: home2_def alt_index_grow home1_grow)

lemma alt_home:
  "alt_index hp (partial_key (hash k)) (home1 hash hp k) = home2 hash hp k"
  "alt_index hp (partial_key (hash k)) (home2 hash hp k) = home1 hash hp k"
  by (simp_all add: home2_def alt_index_involution)

lemma entry_ok_alt: "entry_ok hash hp i (k, v, p) \<Longrightarrow> entry_ok hash hp (alt_index hp p i) (k, v, p)"
  by (auto simp: entry_ok_def alt_home)

lemma shape_nth: "shape hp bs \<Longrightarrow> i < 2 ^ hp \<Longrightarrow> length (bs ! i) = SLOT_PER_BUCKET"
  by (simp add: shape_def)

lemma shape_update: "shape hp bs \<Longrightarrow> length b = SLOT_PER_BUCKET \<Longrightarrow> shape hp (bs[i := b])"
  by (auto simp: shape_def dest: set_update_subset_insert [THEN subsetD])

lemma placed_update:
  assumes "placed hash hp bs" "\<And>e. e \<in> set (occupied b) \<Longrightarrow> entry_ok hash hp (of_nat i) e"
  shows "placed hash hp (bs[i := b])"
  using assms by (cases "i < length bs") (auto simp: placed_def nth_list_update split: if_splits)

text \<open>An entry with a key is in one of the two buckets of the key.\<close>

lemma entries_in_homes:
  assumes "shape hp bs" "placed hash hp bs"
  shows "(k, v, p) \<in> set (entries bs) \<longleftrightarrow>
    (k, v, p) \<in> set (occupied (bs ! unat (home1 hash hp k))) \<or> (k, v, p) \<in> set (occupied (bs ! unat (home2 hash hp k)))"
proof
  assume "(k, v, p) \<in> set (entries bs)"
  then obtain i where i: "i < length bs" and o: "(k, v, p) \<in> set (occupied (bs ! i))" by (auto simp: set_entries)
  have "unat (of_nat i :: u64) = i" using i assms(1) by (auto simp: shape_def intro: unat_of_index)
  moreover have "of_nat i = home1 hash hp k \<or> of_nat i = home2 hash hp k"
    using assms(2) i o by (fastforce simp: placed_def entry_ok_def)
  ultimately show "(k, v, p) \<in> set (occupied (bs ! unat (home1 hash hp k))) \<or> (k, v, p) \<in> set (occupied (bs ! unat (home2 hash hp k)))"
    using o by metis
next
  have "unat (home1 hash hp k) < length bs" "unat (home2 hash hp k) < length bs"
    using assms(1) by (simp_all add: shape_def unat_index_less)
  then show "(k, v, p) \<in> set (occupied (bs ! unat (home1 hash hp k))) \<or> (k, v, p) \<in> set (occupied (bs ! unat (home2 hash hp k))) \<Longrightarrow> (k, v, p) \<in> set (entries bs)"
    by (auto simp: set_entries)
qed


subsection \<open>The table of twice the size\<close>

text \<open>An entry of bucket \<open>i\<close> either stays in bucket \<open>i\<close> or goes \<open>2 ^ hp\<close> buckets further.\<close>

definition goes_up :: "('k \<Rightarrow> u64) \<Rightarrow> nat \<Rightarrow> u64 \<Rightarrow> ('k, 'v) entry \<Rightarrow> bool" where
  "goes_up hash hp i e = (case e of (k, v, p) \<Rightarrow>
     i = home1 hash hp k \<and> home1 hash (Suc hp) k = i + hashsize hp \<or>
     i = home2 hash hp k \<and> home2 hash (Suc hp) k = i + hashsize hp)"

definition low_bucket :: "('k \<Rightarrow> u64) \<Rightarrow> nat \<Rightarrow> u64 \<Rightarrow> ('k, 'v) bucket \<Rightarrow> ('k, 'v) bucket" where
  "low_bucket hash hp i b = map (\<lambda>s. case s of None \<Rightarrow> None | Some e \<Rightarrow> if goes_up hash hp i e then None else s) b"

definition high_entries :: "('k \<Rightarrow> u64) \<Rightarrow> nat \<Rightarrow> u64 \<Rightarrow> ('k, 'v) bucket \<Rightarrow> ('k, 'v) entry list" where
  "high_entries hash hp i b = filter (goes_up hash hp i) (occupied b)"

definition high_bucket :: "('k \<Rightarrow> u64) \<Rightarrow> nat \<Rightarrow> u64 \<Rightarrow> ('k, 'v) bucket \<Rightarrow> ('k, 'v) bucket" where
  "high_bucket hash hp i b = map Some (high_entries hash hp i b) @ replicate (length b - length (high_entries hash hp i b)) None"

definition double_buckets :: "('k \<Rightarrow> u64) \<Rightarrow> nat \<Rightarrow> ('k, 'v) bucket list \<Rightarrow> ('k, 'v) bucket list" where
  "double_buckets hash hp bs =
     map (\<lambda>i. low_bucket hash hp (of_nat i) (bs ! i)) [0..<length bs] @
     map (\<lambda>i. high_bucket hash hp (of_nat i) (bs ! i)) [0..<length bs]"

lemma high_entries_le: "length (high_entries hash hp i b) \<le> length b"
  unfolding high_entries_def by (rule order.trans [OF length_filter_le occupied_le])

lemma occupied_low: "occupied (low_bucket hash hp i b) = filter (\<lambda>e. \<not> goes_up hash hp i e) (occupied b)"
  unfolding low_bucket_def by (induction b rule: occupied.induct) simp_all

lemma occupied_high: "occupied (high_bucket hash hp i b) = high_entries hash hp i b"
  by (simp add: high_bucket_def)

lemma split_length [simp]:
  "length (low_bucket hash hp i b) = length b" "length (high_bucket hash hp i b) = length b"
  using high_entries_le [of hash hp i b] by (simp_all add: low_bucket_def high_bucket_def)

lemma entry_stays_or_goes:
  assumes "entry_ok hash hp i e"
  shows "if goes_up hash hp i e then entry_ok hash (Suc hp) (i + hashsize hp) e else entry_ok hash (Suc hp) i e"
proof -
  obtain k v p where e: "e = (k, v, p)" by (cases e)
  note grow = grow_cases [of hp "home1 hash (Suc hp) k"] grow_cases [of hp "home2 hash (Suc hp) k"]
  show ?thesis using assms grow by (auto simp: e entry_ok_def goes_up_def home1_grow home2_grow)
qed

lemma occupied_split:
  "mset (occupied b) = mset (occupied (low_bucket hash hp i b)) + mset (occupied (high_bucket hash hp i b))"
  using multiset_partition [of "mset (occupied b)" "goes_up hash hp i"]
  by (simp add: occupied_low occupied_high high_entries_def)

lemma entries_double: "mset (entries (double_buckets hash hp bs)) = mset (entries bs)"
proof -
  have "mset (entries (map (\<lambda>i. low_bucket hash hp (of_nat i) (bs ! i)) is)) +
        mset (entries (map (\<lambda>i. high_bucket hash hp (of_nat i) (bs ! i)) is)) =
        mset (entries (map (nth bs) is))" for "is"
  proof (induction "is")
    case (Cons j "is")
    then show ?case by (simp add: occupied_split [of "bs ! j" hash hp "of_nat j"] ac_simps flip: Cons)
  qed simp
  then show ?thesis using map_nth [of bs] by (simp add: double_buckets_def)
qed

lemma shape_double:
  assumes "shape hp bs" "Suc hp < 64"
  shows "shape (Suc hp) (double_buckets hash hp bs)"
  using assms by (auto simp: shape_def double_buckets_def)

lemma placed_double:
  assumes "shape hp bs" "Suc hp < 64" "placed hash hp bs"
  shows "placed hash (Suc hp) (double_buckets hash hp bs)"
  unfolding placed_def
proof (intro allI impI ballI)
  fix i e assume i: "i < length (double_buckets hash hp bs)" and e: "e \<in> set (occupied (double_buckets hash hp bs ! i))"
  have len: "length bs = 2 ^ hp" using assms(1) by (simp add: shape_def)
  have ok: "e \<in> set (occupied (bs ! j)) \<Longrightarrow> j < length bs \<Longrightarrow> entry_ok hash hp (of_nat j) e" for j
    using assms(3) by (auto simp: placed_def)
  show "entry_ok hash (Suc hp) (of_nat i) e"
  proof (cases "i < length bs")
    case True
    then have "e \<in> set (occupied (bs ! i))" "\<not> goes_up hash hp (of_nat i) e"
      using e by (auto simp: double_buckets_def nth_append occupied_low)
    then show ?thesis using entry_stays_or_goes [OF ok] True by fastforce
  next
    case False
    define j where "j = i - length bs"
    have j: "j < length bs" "i = j + 2 ^ hp" using i False len by (auto simp: j_def double_buckets_def)
    then have "e \<in> set (occupied (bs ! j))" "goes_up hash hp (of_nat j) e"
      using e len by (auto simp: double_buckets_def nth_append occupied_high high_entries_def)
    moreover have "(of_nat i :: u64) = of_nat j + hashsize hp" by (simp add: j hashsize_def push_bit_eq_mult)
    ultimately show ?thesis using entry_stays_or_goes [OF ok] j by fastforce
  qed
qed

lemma flat_inv_double:
  assumes "flat_inv hash hp bs" "Suc hp < 64"
  shows "flat_inv hash (Suc hp) (double_buckets hash hp bs)"
  using assms shape_double placed_double distinct_keys_mset [OF entries_double] unfolding flat_inv_def by blast

end
