(* ===== verification/Cuckoo_Lazy.thy ===== *)
theory Cuckoo_Lazy
  imports Cuckoo_Flat
begin

text \<open>
  The buckets that still have to be moved after a doubling. The view of a table is the list of its
  buckets as they are once all are moved; taking a lock moves the buckets below it and does not change
  the view.
\<close>

subsection \<open>Moving one bucket\<close>

lemma double_nth:
  "i < length bs \<Longrightarrow> double_buckets hash hp bs ! i = low_bucket hash hp (of_nat i) (bs ! i)"
  "i < length bs \<Longrightarrow> double_buckets hash hp bs ! (i + length bs) = high_bucket hash hp (of_nat i) (bs ! i)"
  by (simp_all add: double_buckets_def nth_append)

lemma low_bucket_snoc:
  "low_bucket hash hp i (b @ [s]) = low_bucket hash hp i b @
     [case s of None \<Rightarrow> None | Some e \<Rightarrow> if goes_up hash hp i e then None else s]"
  by (simp add: low_bucket_def)

lemma high_entries_snoc:
  "high_entries hash hp i (b @ [s]) = high_entries hash hp i b @
     (case s of None \<Rightarrow> [] | Some e \<Rightarrow> if goes_up hash hp i e then [e] else [])"
  by (auto simp: high_entries_def split: option.split)

lemma get_bucket_nth: "unat i < length (bucket_arr c) \<Longrightarrow> get_bucket c i = Some (bucket_arr c ! unat i)"
  by (simp add: get_bucket_def)

text \<open>One slot in \<open>move_bucket\<close>.\<close>

lemma move_slots_up:
  assumes "goes_up hash hp i (k, v, p)" "setKV (i + hashsize hp) n p k v c = Some c'"
  shows "move_slots hash hp (Suc hp) i (i + hashsize hp) j (Some (k, v, p) # rest) n c =
    move_slots hash hp (Suc hp) i (i + hashsize hp) (Suc j) rest (Suc n) c'"
  using assms by (simp add: goes_up_def home1_def home2_def)

lemma move_slots_stay:
  assumes "entry_ok hash hp i (k, v, p)" "\<not> goes_up hash hp i (k, v, p)" "setKV i j p k v c = Some c'"
  shows "move_slots hash hp (Suc hp) i (i + hashsize hp) j (Some (k, v, p) # rest) n c =
    move_slots hash hp (Suc hp) i (i + hashsize hp) (Suc j) rest n c'"
proof -
  have "i = home1 hash hp k \<and> home1 hash (Suc hp) k = home1 hash hp k \<or> i = home2 hash hp k \<and> home2 hash (Suc hp) k = home2 hash hp k"
    using assms(1,2) grow_cases [of hp "home1 hash (Suc hp) k"] grow_cases [of hp "home2 hash (Suc hp) k"]
    by (auto simp: entry_ok_def goes_up_def home1_grow home2_grow)
  then show ?thesis using assms(2,3) by (auto simp: goes_up_def Let_def simp flip: home1_def home2_def)
qed

text \<open>The loop of \<open>move_bucket\<close> after the slots \<open>pre\<close>.\<close>

lemma move_slots_split:
  assumes "\<And>e. e \<in> set (occupied rest) \<Longrightarrow> entry_ok hash hp i e"
    and "unat i < length (bucket_arr c)" "unat (i + hashsize hp) < length (bucket_arr c)" "i \<noteq> i + hashsize hp"
    and "bucket_arr c ! unat i = low_bucket hash hp i pre @ replicate (length rest) None"
    and "bucket_arr c ! unat (i + hashsize hp) = map Some (high_entries hash hp i pre) @
           replicate (length pre + length rest - length (high_entries hash hp i pre)) None"
  shows "move_slots hash hp (Suc hp) i (i + hashsize hp) (length pre) rest (length (high_entries hash hp i pre)) c =
    Some (c\<lparr>bucket_arr := (bucket_arr c)[unat i := low_bucket hash hp i (pre @ rest),
            unat (i + hashsize hp) := high_bucket hash hp i (pre @ rest)]\<rparr>)"
  using assms
proof (induction rest arbitrary: pre c)
  case Nil
  have "(bucket_arr c)[unat i := bucket_arr c ! unat i, unat (i + hashsize hp) := bucket_arr c ! unat (i + hashsize hp)] = bucket_arr c"
    by simp
  then show ?case using Nil by (simp add: high_bucket_def)
next
  case (Cons s rest)
  let ?up = "i + hashsize hp" and ?n = "length (high_entries hash hp i pre)"
  have le: "?n \<le> length pre" by (rule high_entries_le)
  then have free: "length pre + length (s # rest) - ?n = Suc (length pre + length rest - ?n)" by simp
  have ne: "unat i \<noteq> unat ?up" using Cons.prems(4) by (metis word_unat_eq_iff)
  note snoc = low_bucket_snoc high_entries_snoc list_update_append
  show ?case
  proof (cases s)
    case None
    show ?thesis using Cons.prems None Cons.IH [of c "pre @ [None]"] by (auto simp: snoc)
  next
    case (Some e)
    obtain k v p where e: "e = (k, v, p)" by (cases e)
    have ok: "entry_ok hash hp i (k, v, p)" using Cons.prems(1) Some by (simp add: e)
    show ?thesis
    proof (cases "goes_up hash hp i (k, v, p)")
      case True
      let ?c = "c\<lparr>bucket_arr := (bucket_arr c)[unat ?up := (bucket_arr c ! unat ?up)[?n := Some e]]\<rparr>"
      have "setKV ?up ?n p k v c = Some ?c"
        using Cons.prems(3,6) le by (simp add: setKV_def get_bucket_nth nth_append e)
      then show ?thesis using True Cons.IH [of ?c "pre @ [s]"] Cons.prems Some ne free
        by (simp add: e snoc list_update_swap move_slots_up [OF True] del: move_slots.simps)
    next
      case False
      let ?c = "c\<lparr>bucket_arr := (bucket_arr c)[unat i := (bucket_arr c ! unat i)[length pre := Some e]]\<rparr>"
      have "setKV i (length pre) p k v c = Some ?c"
        using Cons.prems(2,5) by (simp add: setKV_def get_bucket_nth nth_append e)
      then show ?thesis using False Cons.IH [of ?c "pre @ [s]"] Cons.prems Some ne
        by (simp add: e snoc move_slots_stay [OF ok False] del: move_slots.simps)
    qed
  qed
qed

lemma move_bucket_split:
  assumes "shape hp (bucket_arr old)" "placed hash hp (bucket_arr old)" "hashpower old = hp"
    and "shape (Suc hp) (bucket_arr new)" "hashpower new = Suc hp" "i < 2 ^ hp"
    and "bucket_arr new ! i = empty_bucket" "bucket_arr new ! (i + 2 ^ hp) = empty_bucket"
  shows "move_bucket hash old (of_nat i) new = Some (new\<lparr>bucket_arr := (bucket_arr new)
    [i := double_buckets hash hp (bucket_arr old) ! i, i + 2 ^ hp := double_buckets hash hp (bucket_arr old) ! (i + 2 ^ hp)]\<rparr>)"
proof -
  have hp: "Suc hp < 64" and len: "length (bucket_arr old) = 2 ^ hp" "length (bucket_arr new) = 2 ^ Suc hp"
    using assms by (simp_all add: shape_def)
  have i: "unat (of_nat i :: u64) = i" using assms(6) hp by (simp add: unat_of_index)
  then have up: "unat (of_nat i + hashsize hp :: u64) = i + 2 ^ hp" using unat_upper_half [of hp "of_nat i"] assms(6) hp by simp
  then have ne: "of_nat i \<noteq> (of_nat i + hashsize hp :: u64)" using i by (metis add_cancel_right_right power_eq_0_iff zero_neq_numeral)
  have "length (bucket_arr old ! i) = SLOT_PER_BUCKET" using assms(1,6) by (rule shape_nth)
  moreover have "entry_ok hash hp (of_nat i) e" if "e \<in> set (occupied (bucket_arr old ! i))" for e
    using that assms(2,6) len by (auto simp: placed_def)
  ultimately show ?thesis
    using move_slots_split [of "bucket_arr old ! i" hash hp "of_nat i" new "[]"] assms len i up ne double_nth [of i "bucket_arr old"]
    by (simp add: move_bucket_def get_bucket_nth empty_bucket_def high_entries_def low_bucket_def)
qed

text \<open>All buckets below a lock: the old bucket \<open>i\<close> and every \<open>kMaxNumLocks\<close>-th after it.\<close>

lemma next_below:
  assumes "j mod kMaxNumLocks = i mod kMaxNumLocks" "16 \<le> hp" "j < 2 ^ Suc hp" "i < 2 ^ hp" "i \<le> j mod 2 ^ hp"
  shows "j = i \<or> j = i + 2 ^ hp \<or> i + kMaxNumLocks \<le> j mod 2 ^ hp"
proof -
  have "kMaxNumLocks dvd 2 ^ hp" using assms(2) unfolding kMaxNumLocks_def by (rule le_imp_power_dvd)
  then have "(j mod 2 ^ hp) mod kMaxNumLocks = i mod kMaxNumLocks" using assms(1) by (simp add: mod_mod_cancel)
  then obtain q where q: "j mod 2 ^ hp = i + kMaxNumLocks * q" using assms(5) by (metis mod_eq_nat2E)
  have "j = j mod 2 ^ hp \<or> j = j mod 2 ^ hp + 2 ^ hp"
    using assms(3) by (cases "j < 2 ^ hp") (auto simp: le_mod_geq)
  then show ?thesis using q by (cases q) auto
qed

lemma move_below_double:
  assumes "shape hp (bucket_arr old)" "placed hash hp (bucket_arr old)" "hashpower old = hp" "16 \<le> hp"
    and "shape (Suc hp) (bucket_arr new)" "hashpower new = Suc hp"
    and "\<forall>j < 2 ^ Suc hp. j mod kMaxNumLocks = i mod kMaxNumLocks \<and> i \<le> j mod 2 ^ hp \<longrightarrow> bucket_arr new ! j = empty_bucket"
  shows "\<exists>arr. move_below hash old i new = Some (new\<lparr>bucket_arr := arr\<rparr>) \<and> shape (Suc hp) arr \<and>
    (\<forall>j < 2 ^ Suc hp. arr ! j = (if j mod kMaxNumLocks = i mod kMaxNumLocks \<and> i \<le> j mod 2 ^ hp
       then double_buckets hash hp (bucket_arr old) ! j else bucket_arr new ! j))"
  using assms
proof (induction hash old i new rule: move_below.induct)
  case (1 hash old i new)
  let ?D = "double_buckets hash hp (bucket_arr old)"
  show ?case
  proof (cases "i < 2 ^ hp")
    case False
    then have "\<not> i \<le> j mod 2 ^ hp" for j using mod_less_divisor [of "2 ^ hp" j] by (simp del: mod_less_divisor)
    then show ?thesis using 1 False by (subst move_below.simps) (auto intro!: exI [of _ "bucket_arr new"])
  next
    case True
    let ?new = "new\<lparr>bucket_arr := (bucket_arr new)[i := ?D ! i, i + 2 ^ hp := ?D ! (i + 2 ^ hp)]\<rparr>"
    have D: "shape (Suc hp) ?D" using 1 by (intro shape_double) (simp_all add: shape_def)
    have below: "(i + 2 ^ hp) mod kMaxNumLocks = i mod kMaxNumLocks" "(i + 2 ^ hp) mod 2 ^ hp = i" "i mod 2 ^ hp = i"
      using True 1(5) le_imp_power_dvd [of 16 hp "2 :: nat"] by (auto simp: kMaxNumLocks_def mod_add_right_eq dvd_imp_mod_0 simp flip: mod_add_eq)
    then have move: "move_bucket hash old (of_nat i) new = Some ?new" using 1 True by (intro move_bucket_split) auto
    have "length (?D ! i) = SLOT_PER_BUCKET" "length (?D ! (i + 2 ^ hp)) = SLOT_PER_BUCKET" using D True by (auto intro: shape_nth)
    then have "shape (Suc hp) (bucket_arr ?new)" using 1 by (auto intro!: shape_update)
    moreover have "bucket_arr ?new ! j = empty_bucket"
      if "j < 2 ^ Suc hp" "j mod kMaxNumLocks = (i + kMaxNumLocks) mod kMaxNumLocks" "i + kMaxNumLocks \<le> j mod 2 ^ hp" for j
    proof -
      have "j \<noteq> i" "j \<noteq> i + 2 ^ hp" using that(3) below(2,3) by (auto simp: kMaxNumLocks_def)
      then show ?thesis using that 1(8) by simp
    qed
    ultimately obtain arr where arr: "move_below hash old (i + kMaxNumLocks) ?new = Some (?new\<lparr>bucket_arr := arr\<rparr>)" "shape (Suc hp) arr"
      "\<forall>j < 2 ^ Suc hp. arr ! j = (if j mod kMaxNumLocks = (i + kMaxNumLocks) mod kMaxNumLocks \<and> i + kMaxNumLocks \<le> j mod 2 ^ hp
       then ?D ! j else bucket_arr ?new ! j)"
      using 1(1) [OF _ move] 1 True by auto
    have len: "length (bucket_arr new) = 2 ^ Suc hp" using 1 by (simp add: shape_def)
    have "arr ! j = (if j mod kMaxNumLocks = i mod kMaxNumLocks \<and> i \<le> j mod 2 ^ hp then ?D ! j else bucket_arr new ! j)"
      if j: "j < 2 ^ Suc hp" for j
      using arr(3) [rule_format, OF j] next_below [of j i hp] j True below len 1(5)
      by (cases "j = i \<or> j = i + 2 ^ hp") (auto simp: nth_list_update)
    then show ?thesis using arr(1,2) move True 1(4) by (subst move_below.simps) auto
  qed
qed

subsection \<open>The view of a table\<close>

definition migrated :: "('k, 'v) cuckoo \<Rightarrow> nat \<Rightarrow> bool" where
  "migrated t l = is_migrated (tbl_locks t ! l)"

definition bucket_view :: "('k \<Rightarrow> u64) \<Rightarrow> ('k, 'v) cuckoo \<Rightarrow> nat \<Rightarrow> ('k, 'v) bucket" where
  "bucket_view hash t j =
     (if migrated t (j mod kMaxNumLocks) then bucket_arr (tbl_buckets t) ! j
      else double_buckets hash (hashpower (tbl_old t)) (bucket_arr (tbl_old t)) ! j)"

definition view :: "('k \<Rightarrow> u64) \<Rightarrow> ('k, 'v) cuckoo \<Rightarrow> ('k, 'v) bucket list" where
  "view hash t = map (bucket_view hash t) [0..<2 ^ table_hp t]"

text \<open>Locks and old buckets, while buckets remain to be moved.\<close>

definition old_ok :: "('k \<Rightarrow> u64) \<Rightarrow> ('k, 'v) cuckoo \<Rightarrow> bool" where
  "old_ok hash t \<longleftrightarrow> hashpower (tbl_old t) + 1 = table_hp t \<and> 16 \<le> hashpower (tbl_old t) \<and>
     shape (hashpower (tbl_old t)) (bucket_arr (tbl_old t)) \<and> placed hash (hashpower (tbl_old t)) (bucket_arr (tbl_old t))"

definition lazy_inv :: "('k \<Rightarrow> u64) \<Rightarrow> ('k, 'v) cuckoo \<Rightarrow> bool" where
  "lazy_inv hash t \<longleftrightarrow> shape (table_hp t) (bucket_arr (tbl_buckets t)) \<and>
     length (tbl_locks t) = min (2 ^ table_hp t) kMaxNumLocks \<and>
     (\<forall>l < length (tbl_locks t). \<not> migrated t l \<longrightarrow> old_ok hash t) \<and>
     (\<forall>j < 2 ^ table_hp t. \<not> migrated t (j mod kMaxNumLocks) \<longrightarrow> bucket_arr (tbl_buckets t) ! j = empty_bucket)"

definition lazy_count :: "('k, 'v) cuckoo \<Rightarrow> bool" where
  "lazy_count t \<longleftrightarrow> tbl_lazy t = length (filter (\<lambda>l. \<not> is_migrated l) (tbl_locks t))"

text \<open>One step of moving buckets: everything but the migrated marks and the place of the entries stays.\<close>

definition settles :: "('k \<Rightarrow> u64) \<Rightarrow> ('k, 'v) cuckoo \<Rightarrow> ('k, 'v) cuckoo \<Rightarrow> bool" where
  "settles hash t t' \<longleftrightarrow> lazy_inv hash t' \<and> view hash t' = view hash t \<and> table_hp t' = table_hp t \<and>
     (\<forall>l. migrated t l \<longrightarrow> migrated t' l) \<and> cuckoo_size t' = cuckoo_size t \<and>
     length (tbl_locks t') = length (tbl_locks t)"

lemma settles_refl: "lazy_inv hash t \<Longrightarrow> settles hash t t"
  by (simp add: settles_def)

lemma settles_trans: "settles hash t t' \<Longrightarrow> settles hash t' t'' \<Longrightarrow> settles hash t t''"
  by (auto simp: settles_def)

lemma view_length [simp]: "length (view hash t) = 2 ^ table_hp t"
  by (simp add: view_def)

lemma view_nth: "j < 2 ^ table_hp t \<Longrightarrow> view hash t ! j = bucket_view hash t j"
  by (simp add: view_def)

lemma lock_of_bucket:
  assumes "lazy_inv hash t" "j < 2 ^ table_hp t"
  shows "j mod kMaxNumLocks < length (tbl_locks t)"
proof -
  have "j mod kMaxNumLocks < kMaxNumLocks" by (simp add: kMaxNumLocks_def)
  moreover have "j mod kMaxNumLocks < 2 ^ table_hp t" using assms(2) mod_less_eq_dividend by (rule le_less_trans [rotated])
  ultimately show ?thesis using assms by (simp add: lazy_inv_def)
qed

lemma shape_view:
  assumes "lazy_inv hash t"
  shows "shape (table_hp t) (view hash t)"
proof -
  have "length (bucket_view hash t j) = SLOT_PER_BUCKET" if j: "j < 2 ^ table_hp t" for j
  proof (cases "migrated t (j mod kMaxNumLocks)")
    case True
    then show ?thesis using j assms shape_nth by (auto simp: bucket_view_def lazy_inv_def)
  next
    case False
    then have "old_ok hash t" using assms lock_of_bucket [OF assms j] by (auto simp: lazy_inv_def)
    moreover have "table_hp t < 64" using assms by (simp add: lazy_inv_def shape_def)
    ultimately have "shape (table_hp t) (double_buckets hash (hashpower (tbl_old t)) (bucket_arr (tbl_old t)))"
      using shape_double [of "hashpower (tbl_old t)"] by (auto simp: old_ok_def)
    then show ?thesis using False j by (simp add: bucket_view_def shape_nth)
  qed
  then show ?thesis using assms by (auto simp: shape_def view_def lazy_inv_def)
qed

lemma cuckoo_size_mark:
  assumes "l < length (tbl_locks t)"
  shows "cuckoo_size (t\<lparr>tbl_buckets := c, tbl_locks := (tbl_locks t)[l := (tbl_locks t ! l)\<lparr>is_migrated := b\<rparr>]\<rparr>) = cuckoo_size t"
proof -
  have "map elem_counter ((tbl_locks t)[l := (tbl_locks t ! l)\<lparr>is_migrated := b\<rparr>]) = map elem_counter (tbl_locks t)"
    using assms list_update_id [of "map elem_counter (tbl_locks t)" l] by (simp add: map_update)
  then show ?thesis by (simp add: cuckoo_size_def)
qed

subsection \<open>Taking locks\<close>

lemma filter_mark:
  "l < length xs \<Longrightarrow> P (xs ! l) \<Longrightarrow> \<not> P y \<Longrightarrow> length (filter P xs) = Suc (length (filter P (xs[l := y])))"
proof (induction xs arbitrary: l)
  case (Cons x xs)
  then show ?case by (cases l) auto
qed simp

lemma decrement_settles:
  assumes "lazy_inv hash t" "tbl_lazy t = Suc (length (filter (\<lambda>l. \<not> is_migrated l) (tbl_locks t)))"
  shows "\<exists>t'. decrement_lazy t = Some t' \<and> settles hash t t' \<and> lazy_count t' \<and> tbl_locks t' = tbl_locks t"
proof -
  let ?t = "t\<lparr>tbl_lazy := tbl_lazy t - 1, tbl_old := if tbl_lazy t = 1 then clear_and_deallocate (tbl_old t) else tbl_old t\<rparr>"
  have all: "migrated t l" if "tbl_lazy t = 1" "l < length (tbl_locks t)" for l
    using that assms(2) by (simp add: filter_empty_conv migrated_def)
  have "migrated ?t = migrated t" by (simp add: migrated_def fun_eq_iff)
  moreover have "view hash ?t = view hash t"
    using lock_of_bucket [OF assms(1)] all by (auto simp: view_def bucket_view_def migrated_def)
  moreover have "lazy_inv hash ?t" using assms(1) all by (auto simp: lazy_inv_def migrated_def old_ok_def)
  ultimately have "settles hash t ?t" by (simp add: settles_def cuckoo_size_def)
  moreover have "decrement_lazy t = Some ?t" "lazy_count ?t" using assms(2) by (simp_all add: decrement_lazy_def lazy_count_def)
  ultimately show ?thesis by auto
qed

lemma mark_settles:
  assumes inv: "lazy_inv hash t" and l: "l < length (tbl_locks t)" "\<not> migrated t l"
  shows "\<exists>c. move_below hash (tbl_old t) l (tbl_buckets t) = Some c \<and>
    settles hash t (t\<lparr>tbl_buckets := c, tbl_locks := (tbl_locks t)[l := (tbl_locks t ! l)\<lparr>is_migrated := True\<rparr>]\<rparr>)"
proof -
  let ?hp = "hashpower (tbl_old t)" and ?D = "double_buckets hash (hashpower (tbl_old t)) (bucket_arr (tbl_old t))"
  have old: "old_ok hash t" using inv l by (auto simp: lazy_inv_def)
  then have hp: "table_hp t = Suc ?hp" "16 \<le> ?hp" by (simp_all add: old_ok_def)
  have "l < kMaxNumLocks" using inv l by (simp add: lazy_inv_def)
  then have lk: "l mod kMaxNumLocks = l" by simp
  have le: "l \<le> j mod 2 ^ ?hp" if "j mod kMaxNumLocks = l" for j
  proof -
    have "kMaxNumLocks dvd 2 ^ ?hp" using hp(2) unfolding kMaxNumLocks_def by (rule le_imp_power_dvd)
    then have "(j mod 2 ^ ?hp) mod kMaxNumLocks = l" using that by (simp add: mod_mod_cancel)
    then show ?thesis using mod_less_eq_dividend by metis
  qed
  obtain arr where arr: "move_below hash (tbl_old t) l (tbl_buckets t) = Some ((tbl_buckets t)\<lparr>bucket_arr := arr\<rparr>)" "shape (Suc ?hp) arr"
    "\<forall>j < 2 ^ Suc ?hp. arr ! j = (if j mod kMaxNumLocks = l then ?D ! j else bucket_arr (tbl_buckets t) ! j)"
    using move_below_double [of ?hp "tbl_old t" hash "tbl_buckets t" l] old inv hp l le
    by (auto simp: old_ok_def lazy_inv_def lk)
  let ?t = "t\<lparr>tbl_buckets := (tbl_buckets t)\<lparr>bucket_arr := arr\<rparr>, tbl_locks := (tbl_locks t)[l := (tbl_locks t ! l)\<lparr>is_migrated := True\<rparr>]\<rparr>"
  have mig: "migrated ?t m \<longleftrightarrow> m = l \<or> migrated t m" for m
    using l(1) by (cases "m = l") (simp_all add: migrated_def)
  have "bucket_view hash ?t j = bucket_view hash t j" if "j < 2 ^ table_hp t" for j
    using that lock_of_bucket [OF inv that] arr(3) l(2) by (auto simp: bucket_view_def mig hp)
  then have "view hash ?t = view hash t" by (simp add: view_def)
  moreover have "lazy_inv hash ?t"
    using inv arr(2,3) hp lock_of_bucket [OF inv] by (auto simp: lazy_inv_def mig old_ok_def)
  ultimately show ?thesis using arr(1) mig l(1) by (auto simp: settles_def cuckoo_size_mark)
qed

lemma rehash_lock_settles:
  assumes "lazy_inv hash t" "l < length (tbl_locks t)" "is_lazy \<Longrightarrow> lazy_count t"
  shows "\<exists>t'. rehash_lock hash is_lazy l t = Some t' \<and> settles hash t t' \<and> migrated t' l \<and> (is_lazy \<longrightarrow> lazy_count t')"
proof (cases "migrated t l")
  case True
  then show ?thesis using assms settles_refl by (auto simp: rehash_lock_def migrated_def)
next
  case False
  have old: "old_ok hash t" using assms False by (auto simp: lazy_inv_def)
  obtain c where c: "move_below hash (tbl_old t) l (tbl_buckets t) = Some c"
    and s: "settles hash t (t\<lparr>tbl_buckets := c, tbl_locks := (tbl_locks t)[l := (tbl_locks t ! l)\<lparr>is_migrated := True\<rparr>]\<rparr>)" (is "settles hash t ?t")
    using mark_settles [OF assms(1,2) False] by blast
  have "kMaxNumLocks \<le> 2 ^ hashpower (tbl_old t)" using old unfolding old_ok_def kMaxNumLocks_def by (intro power_increasing) simp_all
  moreover have "2 ^ hashpower (tbl_old t) \<le> (2 :: nat) ^ table_hp t" using old by (intro power_increasing) (auto simp: old_ok_def)
  then have "length (tbl_locks t) = kMaxNumLocks" using assms(1) calculation unfolding lazy_inv_def by linarith
  ultimately have run: "rehash_lock hash is_lazy l t = (if is_lazy then decrement_lazy ?t else Some ?t)"
    using False c assms(2) old by (simp add: rehash_lock_def migrated_def old_ok_def)
  have mig: "migrated ?t l" using assms(2) by (simp add: migrated_def)
  show ?thesis
  proof (cases is_lazy)
    case True
    have "tbl_lazy ?t = Suc (length (filter (\<lambda>l. \<not> is_migrated l) (tbl_locks ?t)))"
      using assms(2,3) True False filter_mark [of l "tbl_locks t" "\<lambda>l. \<not> is_migrated l"] by (simp add: lazy_count_def migrated_def)
    then obtain t' where "decrement_lazy ?t = Some t'" "settles hash ?t t'" "lazy_count t'" "tbl_locks t' = tbl_locks ?t"
      using decrement_settles [of hash ?t] s by (auto simp: settles_def)
    then show ?thesis using run True mig settles_trans [OF s] by (auto simp: migrated_def)
  qed (use run s mig in auto)
qed

text \<open>The state after the locks \<open>ls\<close> were taken.\<close>

definition taken :: "('k \<Rightarrow> u64) \<Rightarrow> ('k, 'v) cuckoo \<Rightarrow> nat set \<Rightarrow> ('k, 'v) cuckoo \<Rightarrow> bool" where
  "taken hash t ls t' \<longleftrightarrow> settles hash t t' \<and> lazy_count t' \<and> (\<forall>l \<in> ls. migrated t' l)"

definition lazy_ok :: "('k \<Rightarrow> u64) \<Rightarrow> ('k, 'v) cuckoo \<Rightarrow> bool" where
  "lazy_ok hash t \<longleftrightarrow> lazy_inv hash t \<and> lazy_count t"

abbreviation lock_of :: "u64 \<Rightarrow> nat" where
  "lock_of i \<equiv> unat (lock_ind i)"

lemma takenD:
  assumes "taken hash t ls t'"
  shows "lazy_ok hash t'" "view hash t' = view hash t" "table_hp t' = table_hp t" "cuckoo_size t' = cuckoo_size t"
  using assms by (simp_all add: taken_def lazy_ok_def settles_def)

lemma taken_empty: "lazy_ok hash t \<Longrightarrow> taken hash t {} t"
  by (simp add: taken_def lazy_ok_def settles_refl)

lemma taken_trans: "taken hash t ls t' \<Longrightarrow> taken hash t' ls' t'' \<Longrightarrow> taken hash t (ls \<union> ls') t''"
  unfolding taken_def by (metis Un_iff settles_def settles_trans)

lemma taken_subset: "taken hash t ls t' \<Longrightarrow> ls' \<subseteq> ls \<Longrightarrow> taken hash t ls' t'"
  by (auto simp: taken_def)

lemma lock_bound:
  assumes "lazy_ok hash t" "unat i < 2 ^ table_hp t"
  shows "lock_of i < length (tbl_locks t)"
  using lock_of_bucket [of hash t "unat i"] assms by (simp add: unat_lock_ind lazy_ok_def)

lemma rehash_lock_taken:
  assumes "lazy_ok hash t" "l < length (tbl_locks t)"
  shows "\<exists>t'. rehash_lock hash True l t = Some t' \<and> taken hash t {l} t' \<and> length (tbl_locks t') = length (tbl_locks t)"
  using rehash_lock_settles [of hash t l True] assms by (auto simp: lazy_ok_def taken_def settles_def)

lemma lock_one_taken:
  assumes "lazy_ok hash t" "unat i < 2 ^ table_hp t"
  shows "\<exists>t'. lock_one hash i t = Some t' \<and> taken hash t {lock_of i} t'"
  using rehash_lock_taken [OF assms(1) lock_bound [OF assms]] by (auto simp: lock_one_def)

lemma rehash_two_taken:
  assumes "lazy_ok hash t" "l1 < length (tbl_locks t)" "l2 < length (tbl_locks t)"
  shows "\<exists>t'. do { t \<leftarrow> rehash_lock hash True l1 t; rehash_lock hash True l2 t } = Some t' \<and> taken hash t {l1, l2} t' \<and>
    length (tbl_locks t') = length (tbl_locks t)"
proof -
  obtain t1 where t1: "rehash_lock hash True l1 t = Some t1" "taken hash t {l1} t1" "length (tbl_locks t1) = length (tbl_locks t)"
    using rehash_lock_taken [OF assms(1,2)] by blast
  obtain t2 where t2: "rehash_lock hash True l2 t1 = Some t2" "taken hash t1 {l2} t2" "length (tbl_locks t2) = length (tbl_locks t1)"
    using rehash_lock_taken [OF takenD(1) [OF t1(2)], of l2] assms(3) t1(3) by auto
  show ?thesis using t1 t2 taken_trans [OF t1(2) t2(2)] by (simp add: insert_commute)
qed

lemma lock_two_taken:
  assumes "lazy_ok hash t" "unat i1 < 2 ^ table_hp t" "unat i2 < 2 ^ table_hp t"
  shows "\<exists>t'. lock_two hash i1 i2 t = Some t' \<and> taken hash t {lock_of i1, lock_of i2} t'"
proof -
  note bounds = lock_bound [OF assms(1,2)] lock_bound [OF assms(1,3)]
  show ?thesis
    using rehash_two_taken [OF assms(1) bounds] rehash_two_taken [OF assms(1) bounds(2,1)]
    by (auto simp: lock_two_def Let_def insert_commute)
qed

lemma sort_three_set: "sort_three a b c = (x, y, z) \<Longrightarrow> {x, y, z} = {a, b, c}"
  unfolding sort_three_def by (cases "c < b"; cases "b < a"; cases "c < a") (auto simp: Let_def split: if_splits)

lemma lock_three_taken:
  assumes "lazy_ok hash t" "unat i1 < 2 ^ table_hp t" "unat i2 < 2 ^ table_hp t" "unat i3 < 2 ^ table_hp t"
  shows "\<exists>t'. lock_three hash i1 i2 i3 t = Some t' \<and> taken hash t {lock_of i1, lock_of i2, lock_of i3} t'"
proof -
  obtain x y z where sort: "sort_three (lock_of i1) (lock_of i2) (lock_of i3) = (x, y, z)" by (metis prod_cases3)
  have eq: "{x, y, z} = {lock_of i1, lock_of i2, lock_of i3}" using sort by (rule sort_three_set)
  have "l < length (tbl_locks t)" if "l \<in> {x, y, z}" for l
    using that assms(2-4) lock_bound [OF assms(1)] unfolding eq by auto
  then have bounds: "x < length (tbl_locks t)" "y < length (tbl_locks t)" "z < length (tbl_locks t)" by simp_all
  obtain t1 where t1: "rehash_lock hash True x t = Some t1" "taken hash t {x} t1" "length (tbl_locks t1) = length (tbl_locks t)"
    using rehash_lock_taken [OF assms(1) bounds(1)] by blast
  obtain t2 where t2: "do { t \<leftarrow> rehash_lock hash True y t1; rehash_lock hash True z t } = Some t2" "taken hash t1 {y, z} t2"
    using rehash_two_taken [OF takenD(1) [OF t1(2)], of y z] bounds t1(3) by auto
  have "taken hash t {x, y, z} t2" using taken_trans [OF t1(2) t2(2)] by (rule taken_subset) simp
  then show ?thesis unfolding eq lock_three_def sort using t1(1) t2(1) by simp
qed

text \<open>A bucket below a lock that was taken is the bucket of the view, and can be replaced there.\<close>

lemma view_bucket:
  assumes "unat i < 2 ^ table_hp t" "lazy_inv hash t" "migrated t (unat (lock_ind i))"
  shows "get_bucket (tbl_buckets t) i = Some (view hash t ! unat i)"
  using assms by (simp add: get_bucket_def lazy_inv_def shape_def view_nth bucket_view_def unat_lock_ind)

lemma taken_bucket:
  assumes "taken hash t ls t'" "lock_of i \<in> ls" "unat i < 2 ^ table_hp t"
  shows "get_bucket (tbl_buckets t') i = Some (view hash t ! unat i)"
proof -
  have "get_bucket (tbl_buckets t') i = Some (view hash t' ! unat i)"
    using assms by (intro view_bucket) (auto simp: taken_def settles_def)
  then show ?thesis using assms(1) by (simp add: taken_def settles_def)
qed

definition put_bucket :: "nat \<Rightarrow> ('k, 'v) bucket \<Rightarrow> ('k, 'v) cuckoo \<Rightarrow> ('k, 'v) cuckoo" where
  "put_bucket i b t = t\<lparr>tbl_buckets := (tbl_buckets t)\<lparr>bucket_arr := (bucket_arr (tbl_buckets t))[i := b]\<rparr>\<rparr>"

lemma put_bucket_simps [simp]:
  "table_hp (put_bucket i b t) = table_hp t" "tbl_locks (put_bucket i b t) = tbl_locks t"
  "migrated (put_bucket i b t) = migrated t" "cuckoo_size (put_bucket i b t) = cuckoo_size t"
  by (simp_all add: put_bucket_def migrated_def cuckoo_size_def fun_eq_iff)

lemma put_bucket_view:
  assumes "lazy_inv hash t" "migrated t (i mod kMaxNumLocks)" "i < 2 ^ table_hp t"
  shows "view hash (put_bucket i b t) = (view hash t)[i := b]"
proof (rule nth_equalityI)
  fix j assume "j < length (view hash (put_bucket i b t))"
  then have j: "j < 2 ^ table_hp t" by simp
  have "length (bucket_arr (tbl_buckets t)) = 2 ^ table_hp t" using assms(1) by (simp add: lazy_inv_def shape_def)
  then show "view hash (put_bucket i b t) ! j = (view hash t)[i := b] ! j"
    using assms(2,3) j by (auto simp: view_nth nth_list_update bucket_view_def) (simp_all add: put_bucket_def)
qed simp

lemma put_bucket_ok:
  assumes "lazy_ok hash t" "migrated t (i mod kMaxNumLocks)" "length b = SLOT_PER_BUCKET"
  shows "lazy_ok hash (put_bucket i b t)"
proof -
  have "bucket_arr (tbl_buckets (put_bucket i b t)) ! j = bucket_arr (tbl_buckets t) ! j" if "\<not> migrated t (j mod kMaxNumLocks)" for j
    using that assms(2) by (cases "j = i") (simp_all add: put_bucket_def)
  moreover have "shape (table_hp t) (bucket_arr (tbl_buckets (put_bucket i b t)))"
    using assms(1,3) by (auto simp: put_bucket_def lazy_ok_def lazy_inv_def intro: shape_update)
  ultimately show ?thesis using assms(1) by (simp add: lazy_ok_def lazy_inv_def lazy_count_def) (simp add: put_bucket_def old_ok_def)
qed

end
