(* ===== verification/Cuckoo_Search.thy ===== *)
theory Cuckoo_Search
  imports Cuckoo_Lazy
begin

text \<open>
  The breadth-first search for a cuckoo path, over the view \<open>bs\<close> of the table: the buckets reached
  with \<open>n\<close> displacements, and what \<open>slot_search\<close> finds.
\<close>

subsection \<open>Walks over the buckets\<close>

text \<open>The bucket reached from \<open>b\<close> by displacing the entries in the slots \<open>ss\<close>, one after the other.\<close>

fun walk :: "nat \<Rightarrow> ('k, 'v) bucket list \<Rightarrow> u64 \<Rightarrow> nat list \<Rightarrow> u64 option" where
  "walk hp bs b [] = Some b"
| "walk hp bs b (s # ss) = (case bs ! unat b ! s of None \<Rightarrow> None | Some (k, v, p) \<Rightarrow> walk hp bs (alt_index hp p b) ss)"

fun level :: "nat \<Rightarrow> ('k, 'v) bucket list \<Rightarrow> u64 \<Rightarrow> u64 \<Rightarrow> nat \<Rightarrow> u64 set" where
  "level hp bs i1 i2 0 = {i1, i2}"
| "level hp bs i1 i2 (Suc n) =
     {alt_index hp p b | b s k v p. b \<in> level hp bs i1 i2 n \<and> s < SLOT_PER_BUCKET \<and> bs ! unat b ! s = Some (k, v, p)}"

definition full :: "('k, 'v) bucket \<Rightarrow> bool" where
  "full b \<longleftrightarrow> (\<forall>s < SLOT_PER_BUCKET. b ! s \<noteq> None)"

lemma walk_append: "walk hp bs b (ss @ ss') = Option.bind (walk hp bs b ss) (\<lambda>c. walk hp bs c ss')"
  by (induction ss arbitrary: b) (auto split: option.split)

lemma level_SucI:
  "b \<in> level hp bs i1 i2 n \<Longrightarrow> s < SLOT_PER_BUCKET \<Longrightarrow> bs ! unat b ! s = Some (k, v, p) \<Longrightarrow> alt_index hp p b \<in> level hp bs i1 i2 (Suc n)"
  by (simp only: level.simps mem_Collect_eq) blast

lemma walk_level:
  "walk hp bs b ss = Some c \<Longrightarrow> b \<in> level hp bs i1 i2 n \<Longrightarrow> set ss \<subseteq> {..<SLOT_PER_BUCKET} \<Longrightarrow> c \<in> level hp bs i1 i2 (n + length ss)"
proof (induction ss arbitrary: b n)
  case (Cons s ss)
  then obtain k v p where e: "bs ! unat b ! s = Some (k, v, p)" and w: "walk hp bs (alt_index hp p b) ss = Some c"
    by (auto split: option.splits)
  have "alt_index hp p b \<in> level hp bs i1 i2 (Suc n)" using Cons.prems e by (intro level_SucI) auto
  then show ?case using Cons.IH [OF w, of "Suc n"] Cons.prems(3) by (simp del: level.simps)
qed simp

lemma walk_bound: "walk hp bs b ss = Some c \<Longrightarrow> take_bit hp b = b \<Longrightarrow> take_bit hp c = c"
  by (induction ss arbitrary: b) (auto split: option.splits)

lemma level_empty: "level hp bs i1 i2 n = {} \<Longrightarrow> level hp bs i1 i2 (n + m) = {}"
  by (induction m) auto

subsection \<open>Path codes\<close>

definition path_code :: "nat \<Rightarrow> nat list \<Rightarrow> nat" where
  "path_code c ss = foldl (\<lambda>c s. c * SLOT_PER_BUCKET + s) c ss"

lemma path_code_simps [simp]: "path_code c [] = c" "path_code c (ss @ [s]) = path_code c ss * SLOT_PER_BUCKET + s"
  by (simp_all add: path_code_def)

lemma path_code_bound:
  "set ss \<subseteq> {..<SLOT_PER_BUCKET} \<Longrightarrow> c < 2 \<Longrightarrow> path_code c ss < 2 * SLOT_PER_BUCKET ^ length ss"
proof (induction ss rule: rev_induct)
  case (snoc s ss)
  then show ?case by (simp add: SLOT_PER_BUCKET_def)
qed simp

text \<open>A path of at most five slots has a code of 16 bits.\<close>

lemma path_code_word:
  assumes "set ss \<subseteq> {..<SLOT_PER_BUCKET}" "c < 2" "length ss \<le> MAX_BFS_PATH_LEN"
  shows "unat (of_nat (path_code c ss) :: 16 word) = path_code c ss"
proof -
  have "path_code c ss < 2 * SLOT_PER_BUCKET ^ length ss" using assms(1,2) by (rule path_code_bound)
  also have "\<dots> \<le> 2 * SLOT_PER_BUCKET ^ MAX_BFS_PATH_LEN"
    using assms(3) by (intro mult_left_mono power_increasing) (simp_all add: SLOT_PER_BUCKET_def)
  finally show ?thesis by (simp add: c_consts unat_of_nat take_bit_nat_eq_self)
qed

lemma path_slots_code:
  assumes "set ss \<subseteq> {..<SLOT_PER_BUCKET}" "c < 2" "length ss \<le> MAX_BFS_PATH_LEN"
  shows "path_slots (length ss) (of_nat (path_code c ss)) acc = (ss @ acc, of_nat c)"
  using assms
proof (induction ss arbitrary: acc rule: rev_induct)
  case (snoc s ss)
  let ?w = "of_nat (path_code c (ss @ [s])) :: 16 word"
  have w: "unat ?w = path_code c ss * SLOT_PER_BUCKET + s" using path_code_word [OF snoc.prems] by simp
  have s: "s < 4" using snoc.prems by (simp add: SLOT_PER_BUCKET_def)
  have "unat (?w mod 4) = s" using w s by (simp add: unat_mod SLOT_PER_BUCKET_def)
  moreover have "?w div 4 = of_nat (path_code c ss)"
    using w s by (intro word_unat_eq_iff [THEN iffD2]) (use snoc.prems in \<open>simp add: unat_div path_code_word SLOT_PER_BUCKET_def\<close>)
  ultimately show ?case using snoc by (simp add: SLOT_PER_BUCKET_def del: path_code_simps)
qed simp

subsection \<open>One bucket of the search\<close>

definition child :: "nat \<Rightarrow> b_slot \<Rightarrow> u8 \<Rightarrow> nat \<Rightarrow> b_slot" where
  "child hp x p s = \<lparr>bs_bucket = alt_index hp p (bs_bucket x),
     bs_pathcode = bs_pathcode x * of_nat SLOT_PER_BUCKET + of_nat s, bs_depth = bs_depth x + 1\<rparr>"

lemma expand_slots_None: "fst (expand_slots hp x b l) = None \<longleftrightarrow> (\<forall>s \<in> set l. b ! s \<noteq> None)"
  by (induction l) (auto split: option.split prod.split)

lemma expand_slots_Some:
  "fst (expand_slots hp x b l) = Some y \<Longrightarrow>
   \<exists>s \<in> set l. b ! s = None \<and> y = x\<lparr>bs_pathcode := bs_pathcode x * of_nat SLOT_PER_BUCKET + of_nat s\<rparr>"
  by (induction l) (auto split: option.splits prod.splits)

lemma expand_slots_children:
  "y \<in> set (snd (expand_slots hp x b l)) \<Longrightarrow>
   bs_depth x < int MAX_BFS_PATH_LEN - 1 \<and> (\<exists>s \<in> set l. \<exists>k v p. b ! s = Some (k, v, p) \<and> y = child hp x p s)"
  by (induction l) (auto simp: child_def split: option.splits prod.splits if_splits)

lemma expand_slots_all:
  "\<forall>s \<in> set l. b ! s \<noteq> None \<Longrightarrow> bs_depth x < int MAX_BFS_PATH_LEN - 1 \<Longrightarrow> s \<in> set l \<Longrightarrow> b ! s = Some (k, v, p) \<Longrightarrow>
   child hp x p s \<in> set (snd (expand_slots hp x b l))"
  by (induction l) (auto simp: child_def split: option.splits prod.splits)

lemma expand_slots_length: "length (snd (expand_slots hp x b l)) \<le> (if bs_depth x < int MAX_BFS_PATH_LEN - 1 then length l else 0)"
  by (induction l) (auto split: option.splits prod.splits)

lemma rotated_slots: "set (map (\<lambda>i. (c mod SLOT_PER_BUCKET + i) mod SLOT_PER_BUCKET) [0..<SLOT_PER_BUCKET]) = {..<SLOT_PER_BUCKET}"
proof -
  have "s \<in> (\<lambda>i. (c mod 4 + i) mod 4) ` {0..<4}" if "s < 4" for s :: nat
  proof (rule image_eqI)
    show "s = (c mod 4 + (s + 4 - c mod 4) mod 4) mod 4" using that by (simp add: mod_add_right_eq)
  qed simp
  then show ?thesis by (auto simp: SLOT_PER_BUCKET_def)
qed

lemma expand_None: "fst (expand hp x b) = None \<longleftrightarrow> full b"
  unfolding expand_def expand_slots_None rotated_slots by (auto simp: full_def)

lemma expand_Some:
  assumes "fst (expand hp x b) = Some y"
  shows "\<exists>s < SLOT_PER_BUCKET. b ! s = None \<and> y = x\<lparr>bs_pathcode := bs_pathcode x * of_nat SLOT_PER_BUCKET + of_nat s\<rparr>"
  using expand_slots_Some [OF assms [unfolded expand_def]] unfolding rotated_slots by auto

lemma expand_children:
  assumes "y \<in> set (snd (expand hp x b))"
  shows "bs_depth x < int MAX_BFS_PATH_LEN - 1 \<and> (\<exists>s < SLOT_PER_BUCKET. \<exists>k v p. b ! s = Some (k, v, p) \<and> y = child hp x p s)"
  using expand_slots_children [OF assms [unfolded expand_def]] unfolding rotated_slots by auto

lemma expand_all:
  assumes "full b" "bs_depth x < int MAX_BFS_PATH_LEN - 1" "s < SLOT_PER_BUCKET" "b ! s = Some (k, v, p)"
  shows "child hp x p s \<in> set (snd (expand hp x b))"
  unfolding expand_def by (rule expand_slots_all, unfold rotated_slots) (use assms in \<open>auto simp: full_def\<close>)

lemma expand_length: "length (snd (expand hp x b)) \<le> (if bs_depth x < int MAX_BFS_PATH_LEN - 1 then SLOT_PER_BUCKET else 0)"
  unfolding expand_def by (rule order.trans [OF expand_slots_length]) simp

subsection \<open>The search\<close>

text \<open>The entries an entry of the queue can bring in, directly or not.\<close>

primrec descendants :: "nat \<Rightarrow> nat" where
  "descendants 0 = 0"
| "descendants (Suc n) = SLOT_PER_BUCKET * (1 + descendants n)"

definition queue_bound :: "b_slot list \<Rightarrow> nat" where
  "queue_bound q = (\<Sum>x \<leftarrow> q. descendants (nat (int MAX_BFS_PATH_LEN - 1 - bs_depth x)))"

lemma expand_bound:
  "length (snd (expand hp x b)) + queue_bound (snd (expand hp x b)) \<le> descendants (nat (int MAX_BFS_PATH_LEN - 1 - bs_depth x))"
proof (cases "bs_depth x < int MAX_BFS_PATH_LEN - 1")
  case True
  let ?ys = "snd (expand hp x b)" and ?n = "nat (int MAX_BFS_PATH_LEN - 1 - (bs_depth x + 1))"
  have "bs_depth y = bs_depth x + 1" if "y \<in> set ?ys" for y using expand_children [OF that] by (auto simp: child_def)
  then have "queue_bound ?ys = (\<Sum>y \<leftarrow> ?ys. descendants ?n)" unfolding queue_bound_def by (intro arg_cong [of _ _ sum_list] map_cong) simp_all
  then have "length ?ys + queue_bound ?ys = length ?ys * (1 + descendants ?n)" by (simp add: sum_list_triv)
  also have "\<dots> \<le> SLOT_PER_BUCKET * (1 + descendants ?n)" using expand_length [of hp x b] True by (intro mult_right_mono) simp_all
  also have "\<dots> = descendants (nat (int MAX_BFS_PATH_LEN - 1 - bs_depth x))"
  proof -
    have "nat (int MAX_BFS_PATH_LEN - 1 - bs_depth x) = Suc ?n" using True by linarith
    then show ?thesis by simp
  qed
  finally show ?thesis .
next
  case False
  then have "snd (expand hp x b) = []" using expand_length [of hp x b] by simp
  then show ?thesis by (simp add: queue_bound_def)
qed

definition node_ok :: "nat \<Rightarrow> ('k, 'v) bucket list \<Rightarrow> u64 \<Rightarrow> u64 \<Rightarrow> b_slot \<Rightarrow> bool" where
  "node_ok hp bs i1 i2 x \<longleftrightarrow> 0 \<le> bs_depth x \<and> bs_depth x < int MAX_BFS_PATH_LEN \<and>
     (\<exists>c ss. c < 2 \<and> length ss = nat (bs_depth x) \<and> set ss \<subseteq> {..<SLOT_PER_BUCKET} \<and>
        walk hp bs (if c = 0 then i1 else i2) ss = Some (bs_bucket x) \<and> bs_pathcode x = of_nat (path_code c ss))"

text \<open>What the search finds: a walk to a bucket with a free slot, and no shorter walk ends at a bucket that is not full.\<close>

definition found_ok :: "nat \<Rightarrow> ('k, 'v) bucket list \<Rightarrow> u64 \<Rightarrow> u64 \<Rightarrow> b_slot \<Rightarrow> bool" where
  "found_ok hp bs i1 i2 y \<longleftrightarrow> 0 \<le> bs_depth y \<and> bs_depth y < int MAX_BFS_PATH_LEN \<and>
     (\<exists>c ss s b. c < 2 \<and> length ss = nat (bs_depth y) \<and> set ss \<subseteq> {..<SLOT_PER_BUCKET} \<and> s < SLOT_PER_BUCKET \<and>
        walk hp bs (if c = 0 then i1 else i2) ss = Some b \<and> bs ! unat b ! s = None \<and>
        bs_pathcode y = of_nat (path_code c (ss @ [s])) \<and> (\<forall>n < length ss. \<forall>b \<in> level hp bs i1 i2 n. full (bs ! unat b)))"

text \<open>The search at depth \<open>d\<close>: \<open>xs\<close> is left of this depth, \<open>ys\<close> is already there of the next.\<close>

definition frontier :: "nat \<Rightarrow> ('k, 'v) bucket list \<Rightarrow> u64 \<Rightarrow> u64 \<Rightarrow> nat \<Rightarrow> b_slot list \<Rightarrow> b_slot list \<Rightarrow> bool" where
  "frontier hp bs i1 i2 d xs ys \<longleftrightarrow>
     (\<forall>x \<in> set xs. bs_depth x = int d) \<and> (\<forall>y \<in> set ys. bs_depth y = int d + 1) \<and>
     (\<forall>n < d. \<forall>b \<in> level hp bs i1 i2 n. full (bs ! unat b)) \<and>
     (\<forall>b \<in> level hp bs i1 i2 d. full (bs ! unat b) \<or> b \<in> bs_bucket ` set xs) \<and>
     (Suc d < MAX_BFS_PATH_LEN \<longrightarrow> (\<forall>b \<in> level hp bs i1 i2 d. \<forall>s < SLOT_PER_BUCKET. \<forall>k v p.
        bs ! unat b ! s = Some (k, v, p) \<longrightarrow> alt_index hp p b \<in> bs_bucket ` set ys \<or> b \<in> bs_bucket ` set xs))"

lemma frontierD:
  assumes "frontier hp bs i1 i2 d xs ys"
  shows "x \<in> set xs \<Longrightarrow> bs_depth x = int d" "y \<in> set ys \<Longrightarrow> bs_depth y = int d + 1"
    and "n < d \<Longrightarrow> b \<in> level hp bs i1 i2 n \<Longrightarrow> full (bs ! unat b)"
    and "b \<in> level hp bs i1 i2 d \<Longrightarrow> b \<notin> bs_bucket ` set xs \<Longrightarrow> full (bs ! unat b)"
    and "Suc d < MAX_BFS_PATH_LEN \<Longrightarrow> b \<in> level hp bs i1 i2 d \<Longrightarrow> b \<notin> bs_bucket ` set xs \<Longrightarrow> s < SLOT_PER_BUCKET \<Longrightarrow>
      bs ! unat b ! s = Some (k, v, p) \<Longrightarrow> alt_index hp p b \<in> bs_bucket ` set ys"
  using assms unfolding frontier_def by blast+

lemma frontier_next:
  assumes "frontier hp bs i1 i2 d [] ys" "Suc d < MAX_BFS_PATH_LEN"
  shows "frontier hp bs i1 i2 (Suc d) ys []"
  unfolding frontier_def
proof (intro conjI ballI allI impI)
  fix n b assume "n < Suc d" "b \<in> level hp bs i1 i2 n"
  then show "full (bs ! unat b)" using frontierD(3,4) [OF assms(1)] by (auto simp: less_Suc_eq)
next
  fix b assume "b \<in> level hp bs i1 i2 (Suc d)"
  then show "full (bs ! unat b) \<or> b \<in> bs_bucket ` set ys" using frontierD(5) [OF assms] by auto
next
  fix b s k v p assume "b \<in> level hp bs i1 i2 (Suc d)"
  then show "alt_index hp p b \<in> bs_bucket ` set [] \<or> b \<in> bs_bucket ` set ys" using frontierD(5) [OF assms] by auto
qed (use frontierD(2) [OF assms(1)] in auto)

lemma frontier_expand:
  assumes "frontier hp bs i1 i2 d (x # xs) ys" "full (bs ! unat (bs_bucket x))"
  shows "frontier hp bs i1 i2 d xs (ys @ snd (expand hp x (bs ! unat (bs_bucket x))))" (is "frontier _ _ _ _ _ _ (_ @ ?zs)")
  unfolding frontier_def
proof (intro conjI ballI allI impI)
  have d: "bs_depth x = int d" using assms(1) by (simp add: frontier_def)
  fix b assume b: "b \<in> level hp bs i1 i2 d"
  show "full (bs ! unat b) \<or> b \<in> bs_bucket ` set xs" using frontierD(4) [OF assms(1) b] assms(2) by auto
  fix s k v p assume s: "Suc d < MAX_BFS_PATH_LEN" "s < SLOT_PER_BUCKET" "bs ! unat b ! s = Some (k, v, p)"
  have "alt_index hp p b \<in> bs_bucket ` set ?zs" if "b = bs_bucket x"
  proof (rule image_eqI)
    show "child hp x p s \<in> set ?zs" using s that assms(2) d by (intro expand_all) simp_all
  qed (simp add: child_def that)
  then show "alt_index hp p b \<in> bs_bucket ` set (ys @ ?zs) \<or> b \<in> bs_bucket ` set xs"
    using frontierD(5) [OF assms(1) s(1) b _ s(2,3)] by auto
next
  fix y assume "y \<in> set (ys @ ?zs)"
  then show "bs_depth y = int d + 1"
    using frontierD(1,2) [OF assms(1)] expand_children [of y hp x "bs ! unat (bs_bucket x)"] by (auto simp: child_def)
qed (use frontierD(1,3) [OF assms(1)] in auto)

lemma frontier_end:
  assumes "frontier hp bs i1 i2 d [] []" "n < MAX_BFS_PATH_LEN" "b \<in> level hp bs i1 i2 n"
  shows "full (bs ! unat b)"
proof (cases "n \<le> d")
  case True
  then show ?thesis using assms by (auto simp: frontier_def le_less)
next
  case False
  then have "Suc d < MAX_BFS_PATH_LEN" using assms(2) by simp
  then have "level hp bs i1 i2 (Suc d) = {}" using frontierD(5) [OF assms(1)] by auto
  then have "level hp bs i1 i2 (Suc d + (n - Suc d)) = {}" by (rule level_empty)
  then show ?thesis using assms(3) False by simp
qed

lemma node_child:
  assumes "node_ok hp bs i1 i2 x" "bs_depth x < int MAX_BFS_PATH_LEN - 1" "s < SLOT_PER_BUCKET" "bs ! unat (bs_bucket x) ! s = Some (k, v, p)"
  shows "node_ok hp bs i1 i2 (child hp x p s)"
proof -
  obtain c ss where c: "c < 2" "length ss = nat (bs_depth x)" "set ss \<subseteq> {..<SLOT_PER_BUCKET}"
    "walk hp bs (if c = 0 then i1 else i2) ss = Some (bs_bucket x)" "bs_pathcode x = of_nat (path_code c ss)"
    using assms(1) by (auto simp: node_ok_def)
  then show ?thesis unfolding node_ok_def
    using assms by (intro conjI exI [of _ c] exI [of _ "ss @ [s]"]) (auto simp: child_def walk_append node_ok_def)
qed

lemma node_bound:
  assumes "node_ok hp bs i1 i2 x" "take_bit hp i1 = i1" "take_bit hp i2 = i2" "hp < 64"
  shows "unat (bs_bucket x) < 2 ^ hp"
proof -
  obtain c :: nat and ss where "walk hp bs (if c = 0 then i1 else i2) ss = Some (bs_bucket x)" using assms(1) by (auto simp: node_ok_def)
  then have "take_bit hp (bs_bucket x) = bs_bucket x" using assms(2,3) by (auto dest!: walk_bound split: if_splits)
  then show ?thesis using assms(4) by (intro unat_index_less)
qed

lemma node_found:
  assumes "node_ok hp bs i1 i2 x" "frontier hp bs i1 i2 d (x # xs) ys" "s < SLOT_PER_BUCKET" "bs ! unat (bs_bucket x) ! s = None"
  shows "found_ok hp bs i1 i2 (x\<lparr>bs_pathcode := bs_pathcode x * of_nat SLOT_PER_BUCKET + of_nat s\<rparr>)"
proof -
  obtain c ss where c: "c < 2" "length ss = nat (bs_depth x)" "set ss \<subseteq> {..<SLOT_PER_BUCKET}"
    "walk hp bs (if c = 0 then i1 else i2) ss = Some (bs_bucket x)" "bs_pathcode x = of_nat (path_code c ss)"
    using assms(1) by (auto simp: node_ok_def)
  then have "length ss = d" using frontierD(1) [OF assms(2), of x] by simp
  then have "\<forall>n < length ss. \<forall>b \<in> level hp bs i1 i2 n. full (bs ! unat b)" using frontierD(3) [OF assms(2)] by blast
  then show ?thesis unfolding found_ok_def
    using assms c by (intro conjI exI [of _ c] exI [of _ ss] exI [of _ s] exI [of _ "bs_bucket x"]) (auto simp: node_ok_def)
qed

definition search_ok :: "nat \<Rightarrow> ('k, 'v) bucket list \<Rightarrow> u64 \<Rightarrow> u64 \<Rightarrow> b_slot \<Rightarrow> bool" where
  "search_ok hp bs i1 i2 y \<longleftrightarrow>
     (if bs_depth y = -1 then \<forall>n < MAX_BFS_PATH_LEN. \<forall>b \<in> level hp bs i1 i2 n. full (bs ! unat b) else found_ok hp bs i1 i2 y)"

lemma search_loop_ok:
  assumes "lazy_ok hash t" "view hash t = bs" "table_hp t = hp" "take_bit hp i1 = i1" "take_bit hp i2 = i2" "hp < 64"
    and "\<forall>x \<in> set q. node_ok hp bs i1 i2 x" "q = xs @ ys" "frontier hp bs i1 i2 d xs ys" "put + queue_bound q \<le> MAX_CUCKOO_COUNT"
  shows "\<exists>y t'. search_loop hash hp q put t = Some (y, t') \<and> taken hash t {} t' \<and> search_ok hp bs i1 i2 y"
  using assms
proof (induction hash hp q put t arbitrary: xs ys d rule: search_loop.induct)
  case (1 hash hp put t)
  then show ?case using taken_empty frontier_end by (fastforce simp: search_ok_def)
next
  case (2 hash hp x q put t)
  have x: "node_ok hp bs i1 i2 x" using 2(8) by simp
  then have xb: "unat (bs_bucket x) < 2 ^ table_hp t" using 2(4-7) by (simp add: node_bound)
  obtain d xs ys where q: "q = xs @ ys" and front: "frontier hp bs i1 i2 d (x # xs) ys"
  proof (cases "\<exists>xs'. xs = x # xs'")
    case False
    then have "xs = []" "ys = x # q" using 2(9) by (cases xs; simp)+
    moreover have "Suc d < MAX_BFS_PATH_LEN" using frontierD(2) [OF 2(10), of x] calculation x by (simp add: node_ok_def)
    ultimately show ?thesis using that [of q "[]" "Suc d"] frontier_next [of hp bs i1 i2 d "x # q"] 2(10) by simp
  qed (use 2(9,10) that in auto)
  let ?b = "bs ! unat (bs_bucket x)" and ?zs = "snd (expand hp x (bs ! unat (bs_bucket x)))"
  obtain t1 where t1: "lock_one hash (bs_bucket x) t = Some t1" "taken hash t {lock_of (bs_bucket x)} t1"
    using lock_one_taken [OF 2(2) xb] by blast
  have b: "get_bucket (tbl_buckets t1) (bs_bucket x) = Some ?b" using taken_bucket [OF t1(2) _ xb] 2(3) by simp
  have room: "put + length ?zs + queue_bound (q @ ?zs) \<le> MAX_CUCKOO_COUNT"
    using 2(11) expand_bound [of hp x ?b] by (simp add: queue_bound_def)
  then have g: "guard (put + length ?zs \<le> MAX_CUCKOO_COUNT) = Some ()" by simp
  show ?case
  proof (cases "fst (expand hp x ?b)")
    case (Some y)
    then obtain s where "s < SLOT_PER_BUCKET" "?b ! s = None" and y: "y = x\<lparr>bs_pathcode := bs_pathcode x * of_nat SLOT_PER_BUCKET + of_nat s\<rparr>"
      using expand_Some by blast
    then have "found_ok hp bs i1 i2 y" using node_found [OF x front] by simp
    then have "search_ok hp bs i1 i2 y" by (auto simp: search_ok_def found_ok_def)
    then show ?thesis using t1 b g Some taken_subset [OF t1(2), of "{}"] by auto
  next
    case None
    then have full: "full ?b" by (simp add: expand_None)
    have "node_ok hp bs i1 i2 y" if "y \<in> set ?zs" for y using expand_children [OF that] node_child [OF x] by blast
    then have nodes: "\<forall>y \<in> set (q @ ?zs). node_ok hp bs i1 i2 y" using 2(8) by auto
    have "\<exists>y t'. search_loop hash hp (q @ ?zs) (put + length ?zs) t1 = Some (y, t') \<and> taken hash t1 {} t' \<and> search_ok hp bs i1 i2 y"
      using 2(1) [OF t1(1) b g None, of xs "ys @ ?zs" d] takenD [OF t1(2)] 2(3-7) nodes q frontier_expand [OF front full] room by simp
    then obtain y t' where "search_loop hash hp (q @ ?zs) (put + length ?zs) t1 = Some (y, t')" "taken hash t1 {} t'" "search_ok hp bs i1 i2 y"
      by blast
    then show ?thesis using t1 b g None taken_subset [OF taken_trans [OF t1(2)], of "{}" t' "{}"] by auto
  qed
qed

text \<open>The search runs to its end within the queue, and is complete for paths of at most five slots.\<close>

lemma slot_search_ok:
  assumes "lazy_ok hash t" "take_bit (table_hp t) i1 = i1" "take_bit (table_hp t) i2 = i2"
  shows "\<exists>y t'. slot_search hash (table_hp t) i1 i2 t = Some (y, t') \<and> taken hash t {} t' \<and> search_ok (table_hp t) (view hash t) i1 i2 y"
proof -
  let ?q = "[\<lparr>bs_bucket = i1, bs_pathcode = 0, bs_depth = 0\<rparr>, \<lparr>bs_bucket = i2, bs_pathcode = 1, bs_depth = 0\<rparr>]"
  have "node_ok (table_hp t) (view hash t) i1 i2 \<lparr>bs_bucket = if c = 0 then i1 else i2, bs_pathcode = of_nat c, bs_depth = 0\<rparr>" if "c < 2" for c
    unfolding node_ok_def using that by (intro conjI exI [of _ c] exI [of _ "[]"]) (simp_all add: c_consts)
  from this [of 0] this [of 1] have "\<forall>x \<in> set ?q. node_ok (table_hp t) (view hash t) i1 i2 x" by simp
  moreover have "frontier (table_hp t) (view hash t) i1 i2 0 ?q []" by (auto simp: frontier_def)
  moreover have "descendants 4 = 340" by code_simp
  then have "2 + queue_bound ?q \<le> MAX_CUCKOO_COUNT" by (simp add: queue_bound_def c_consts)
  moreover have "table_hp t < 64" using assms(1) by (simp add: lazy_ok_def lazy_inv_def shape_def)
  ultimately show ?thesis unfolding slot_search_def
    using assms by (intro search_loop_ok [where xs = ?q and ys = "[]" and d = 0]) simp_all
qed

end
