(* ===== verification/Cuckoo_Path.thy ===== *)
theory Cuckoo_Path
  imports Cuckoo_Search
begin

text \<open>
  Moving entries along the cuckoo path that the search found. The buckets on the path are distinct,
  since the search finds a shortest path; so every move of the path succeeds, and \<open>run_cuckoo\<close> needs
  one round.
\<close>

subsection \<open>Steps that keep the entries\<close>

definition cuckoo_inv :: "('k \<Rightarrow> u64) \<Rightarrow> ('k, 'v) cuckoo \<Rightarrow> bool" where
  "cuckoo_inv hash t \<longleftrightarrow> lazy_ok hash t \<and> flat_inv hash (table_hp t) (view hash t) \<and>
     cuckoo_size t = int (length (entries (view hash t)))"

definition moves :: "('k \<Rightarrow> u64) \<Rightarrow> ('k, 'v) cuckoo \<Rightarrow> ('k, 'v) cuckoo \<Rightarrow> bool" where
  "moves hash t t' \<longleftrightarrow> cuckoo_inv hash t' \<and> table_hp t' = table_hp t \<and>
     mset (entries (view hash t')) = mset (entries (view hash t)) \<and> (\<forall>l. migrated t l \<longrightarrow> migrated t' l)"

lemma cuckoo_invD:
  assumes "cuckoo_inv hash t"
  shows "lazy_ok hash t" "lazy_inv hash t" "shape (table_hp t) (view hash t)" "placed hash (table_hp t) (view hash t)"
    and "distinct_keys (entries (view hash t))" "table_hp t < 64" "cuckoo_size t = int (length (entries (view hash t)))"
  using assms by (auto simp: cuckoo_inv_def flat_inv_def shape_def lazy_ok_def)

lemma moves_trans: "moves hash t t' \<Longrightarrow> moves hash t' t'' \<Longrightarrow> moves hash t t''"
  by (simp add: moves_def)

lemma taken_moves:
  assumes "cuckoo_inv hash t" "taken hash t ls t'"
  shows "moves hash t t'"
proof -
  have "\<forall>l. migrated t l \<longrightarrow> migrated t' l" using assms(2) by (simp add: taken_def settles_def)
  then show ?thesis using assms(1) by (simp add: moves_def cuckoo_inv_def takenD [OF assms(2)])
qed

text \<open>An entry of a bucket of the view is in its place.\<close>

lemma view_entry_ok:
  assumes "cuckoo_inv hash t" "unat b < 2 ^ table_hp t" "s < SLOT_PER_BUCKET" "view hash t ! unat b ! s = Some e"
  shows "entry_ok hash (table_hp t) b e"
proof -
  have "length (view hash t ! unat b) = SLOT_PER_BUCKET" using cuckoo_invD(3) [OF assms(1)] assms(2) by (rule shape_nth)
  then have "e \<in> set (occupied (view hash t ! unat b))" using assms(3,4) by (auto simp: set_occupied)
  then show ?thesis using cuckoo_invD(4) [OF assms(1)] assms(2) by (fastforce simp: placed_def)
qed

subsection \<open>Writing slots\<close>

lemma setKV_put:
  assumes "lazy_ok hash t" "unat i < 2 ^ table_hp t" "migrated t (lock_of i)" "s < SLOT_PER_BUCKET" "view hash t ! unat i ! s = None"
  shows "\<exists>c. setKV i s p k v (tbl_buckets t) = Some c \<and>
    t\<lparr>tbl_buckets := c\<rparr> = put_bucket (unat i) ((view hash t ! unat i)[s := Some (k, v, p)]) t"
proof -
  have "get_bucket (tbl_buckets t) i = Some (view hash t ! unat i)" using assms by (intro view_bucket) (simp_all add: lazy_ok_def)
  moreover have "length (view hash t ! unat i) = SLOT_PER_BUCKET" using assms by (intro shape_nth [OF shape_view]) (simp_all add: lazy_ok_def)
  ultimately show ?thesis using assms(4,5) by (simp add: setKV_def put_bucket_def)
qed

lemma eraseKV_put:
  assumes "lazy_ok hash t" "unat i < 2 ^ table_hp t" "migrated t (lock_of i)" "s < SLOT_PER_BUCKET" "view hash t ! unat i ! s \<noteq> None"
  shows "\<exists>c. eraseKV i s (tbl_buckets t) = Some c \<and> t\<lparr>tbl_buckets := c\<rparr> = put_bucket (unat i) ((view hash t ! unat i)[s := None]) t"
proof -
  have "get_bucket (tbl_buckets t) i = Some (view hash t ! unat i)" using assms by (intro view_bucket) (simp_all add: lazy_ok_def)
  moreover have "length (view hash t ! unat i) = SLOT_PER_BUCKET" using assms by (intro shape_nth [OF shape_view]) (simp_all add: lazy_ok_def)
  ultimately show ?thesis using assms(4,5) by (simp add: eraseKV_def put_bucket_def)
qed

lemma put_slot:
  assumes "lazy_ok hash t" "unat i < 2 ^ table_hp t" "migrated t (lock_of i)"
    and "t' = put_bucket (unat i) ((view hash t ! unat i)[s := x]) t"
  shows "lazy_ok hash t'" "view hash t' = (view hash t)[unat i := (view hash t ! unat i)[s := x]]"
    and "table_hp t' = table_hp t" "migrated t' = migrated t" "cuckoo_size t' = cuckoo_size t"
proof -
  have inv: "lazy_inv hash t" "migrated t (unat i mod kMaxNumLocks)" using assms(1,3) by (simp_all add: lazy_ok_def unat_lock_ind)
  then have "length (view hash t ! unat i) = SLOT_PER_BUCKET" using assms(2) by (intro shape_nth [OF shape_view])
  then show "lazy_ok hash t'" unfolding assms(4) using assms(1) inv(2) by (intro put_bucket_ok) simp_all
  show "view hash t' = (view hash t)[unat i := (view hash t ! unat i)[s := x]]"
    unfolding assms(4) using inv assms(2) by (rule put_bucket_view)
qed (simp_all add: assms(4))

text \<open>A slot filled with an entry that belongs there, or freed.\<close>

lemma set_occupied_update: "e \<in> set (occupied (b[s := x])) \<Longrightarrow> e \<in> set (occupied b) \<or> x = Some e"
  by (auto simp: set_occupied_Some dest!: set_update_subset_insert [THEN subsetD])

lemma flat_update:
  assumes "shape hp bs" "placed hash hp bs" "unat i < 2 ^ hp" "\<And>e. x = Some e \<Longrightarrow> entry_ok hash hp i e"
  shows "shape hp (bs[unat i := (bs ! unat i)[s := x]])" "placed hash hp (bs[unat i := (bs ! unat i)[s := x]])"
proof -
  show "shape hp (bs[unat i := (bs ! unat i)[s := x]])" using assms(1,3) by (intro shape_update) (simp_all add: shape_nth)
  have "unat i < length bs" using assms(1,3) by (simp add: shape_def)
  then show "placed hash hp (bs[unat i := (bs ! unat i)[s := x]])"
    using assms(2,4) by (intro placed_update) (fastforce simp: placed_def dest: set_occupied_update)+
qed

text \<open>One move of a path: an entry goes to a free slot of its other bucket.\<close>

lemma move_entry:
  assumes inv: "cuckoo_inv hash t" and src: "unat f < 2 ^ table_hp t" "fs < SLOT_PER_BUCKET" "view hash t ! unat f ! fs = Some (k, v, p)"
    and to: "g = alt_index (table_hp t) p f" "ts < SLOT_PER_BUCKET" "view hash t ! unat g ! ts = None" "f \<noteq> g"
    and locks: "migrated t (lock_of f)" "migrated t (lock_of g)"
  shows "\<exists>c c'. setKV g ts p k v (tbl_buckets t) = Some c \<and> eraseKV f fs c = Some c' \<and> moves hash t (t\<lparr>tbl_buckets := c'\<rparr>) \<and>
    view hash (t\<lparr>tbl_buckets := c'\<rparr>) = (view hash t)[unat g := (view hash t ! unat g)[ts := Some (k, v, p)], unat f := (view hash t ! unat f)[fs := None]]"
proof -
  let ?bs = "view hash t" and ?hp = "table_hp t"
  note D = cuckoo_invD [OF inv]
  have g: "unat g < 2 ^ ?hp" using to(1) D(6) by (simp add: unat_index_less)
  have ok: "entry_ok hash ?hp g (k, v, p)" using view_entry_ok [OF inv src] unfolding to(1) by (rule entry_ok_alt)
  have len: "length (?bs ! unat f) = SLOT_PER_BUCKET" "length (?bs ! unat g) = SLOT_PER_BUCKET" using src g D(3) by (simp_all add: shape_nth)
  have ne: "unat f \<noteq> unat g" using to(4) by (metis word_unat_eq_iff)
  obtain c where c: "setKV g ts p k v (tbl_buckets t) = Some c" and
    tc: "t\<lparr>tbl_buckets := c\<rparr> = put_bucket (unat g) ((?bs ! unat g)[ts := Some (k, v, p)]) t"
    using setKV_put [OF D(1) g locks(2) to(2,3)] by blast
  note T = put_slot [OF D(1) g locks(2) tc]
  let ?bs1 = "?bs[unat g := (?bs ! unat g)[ts := Some (k, v, p)]]"
  obtain c' where c': "eraseKV f fs c = Some c'" and
    tc': "t\<lparr>tbl_buckets := c'\<rparr> = put_bucket (unat f) ((?bs1 ! unat f)[fs := None]) (t\<lparr>tbl_buckets := c\<rparr>)"
    using eraseKV_put [OF T(1), of f fs] src locks(1) ne T by auto
  note T' = put_slot [OF T(1) _ _ tc' [folded T(2)], unfolded T]
  have view: "view hash (t\<lparr>tbl_buckets := c'\<rparr>) = ?bs1[unat f := (?bs ! unat f)[fs := None]]" using T'(2) src(1) locks(1) ne by simp
  have "mset (entries ?bs1) = add_mset (k, v, p) (mset (entries ?bs))" using g to(2,3) len by (intro entries_fill) simp_all
  moreover have "mset (entries ?bs1) = add_mset (k, v, p) (mset (entries (?bs1[unat f := (?bs ! unat f)[fs := None]])))"
    using entries_free [of "unat f" ?bs1 fs "(k, v, p)"] src len ne by simp
  ultimately have ent: "mset (entries (?bs1[unat f := (?bs ! unat f)[fs := None]])) = mset (entries ?bs)" by simp
  have "shape ?hp ?bs1" "placed hash ?hp ?bs1" using flat_update [OF D(3,4) g, of "Some (k, v, p)" ts] ok by simp_all
  then have "shape ?hp (?bs1[unat f := (?bs ! unat f)[fs := None]])" "placed hash ?hp (?bs1[unat f := (?bs ! unat f)[fs := None]])"
    using flat_update [of ?hp ?bs1 hash f None fs] src(1) ne by simp_all
  then have "moves hash t (t\<lparr>tbl_buckets := c'\<rparr>)"
    unfolding moves_def cuckoo_inv_def flat_inv_def view
    using T' src(1) locks(1) ent D(5,7) distinct_keys_mset [OF ent] mset_eq_length [OF ent] by simp
  then show ?thesis using c c' view by blast
qed

subsection \<open>The path of a walk\<close>

text \<open>The buckets, slots and hashes of the entries that a walk displaces.\<close>

fun trail :: "('k \<Rightarrow> u64) \<Rightarrow> nat \<Rightarrow> ('k, 'v) bucket list \<Rightarrow> u64 \<Rightarrow> nat list \<Rightarrow> (u64 \<times> nat \<times> u64) list" where
  "trail hash hp bs b [] = []"
| "trail hash hp bs b (s # ss) =
     (case bs ! unat b ! s of None \<Rightarrow> [] | Some (k, v, p) \<Rightarrow> (b, s, hash k) # trail hash hp bs (alt_index hp p b) ss)"

lemma trail_append:
  "walk hp bs b ss = Some c \<Longrightarrow> trail hash hp bs b (ss @ ss') = trail hash hp bs b ss @ trail hash hp bs c ss'"
  by (induction ss arbitrary: b) (auto split: option.splits)

lemma trail_length: "walk hp bs b ss = Some c \<Longrightarrow> length (trail hash hp bs b ss) = length ss"
  by (induction ss arbitrary: b) (auto split: option.splits)

lemma trail_nth:
  "walk hp bs b ss = Some c \<Longrightarrow> i \<le> length ss \<Longrightarrow> walk hp bs b (take i ss) = Some ((map fst (trail hash hp bs b ss) @ [c]) ! i)"
proof (induction ss arbitrary: b i)
  case (Cons s ss)
  then show ?case by (cases i) (auto split: option.splits)
qed simp

lemma trail_cong:
  "walk hp bs b ss = Some c \<Longrightarrow> \<forall>x \<in> fst ` set (trail hash hp bs b ss). bs' ! unat x = bs ! unat x \<Longrightarrow>
   walk hp bs' b ss = Some c \<and> trail hash hp bs' b ss = trail hash hp bs b ss"
proof (induction ss arbitrary: b)
  case (Cons s ss)
  obtain k v p where e: "bs ! unat b ! s = Some (k, v, p)" "walk hp bs (alt_index hp p b) ss = Some c"
    using Cons.prems(1) by (auto split: option.splits)
  moreover have "bs' ! unat b = bs ! unat b" using Cons.prems(2) e by simp
  ultimately show ?case using Cons.IH [of "alt_index hp p b"] Cons.prems(2) by simp
qed simp

text \<open>On a shortest walk no bucket comes twice.\<close>

lemma shortest_walk_distinct:
  assumes w: "walk hp bs b ss = Some c" and b: "b = i1 \<or> b = i2" and ss: "set ss \<subseteq> {..<SLOT_PER_BUCKET}"
    and free: "\<not> full (bs ! unat c)" and short: "\<forall>n < length ss. \<forall>b \<in> level hp bs i1 i2 n. full (bs ! unat b)"
  shows "distinct (map fst (trail hash hp bs b ss) @ [c])"
proof -
  let ?xs = "map fst (trail hash hp bs b ss) @ [c]"
  have False if ij: "i < j" "j \<le> length ss" and eq: "?xs ! i = ?xs ! j" for i j
  proof -
    have "walk hp bs b (take i ss) = walk hp bs b (take j ss)" using trail_nth [OF w, of i hash] trail_nth [OF w, of j hash] ij eq by simp
    then have "walk hp bs b (take i ss @ drop j ss) = walk hp bs b (take j ss @ drop j ss)" by (simp only: walk_append)
    then have "walk hp bs b (take i ss @ drop j ss) = Some c" using w by simp
    moreover have "b \<in> level hp bs i1 i2 0" using b by auto
    moreover have "set (take i ss @ drop j ss) \<subseteq> {..<SLOT_PER_BUCKET}" using ss by (auto dest: in_set_takeD in_set_dropD)
    ultimately have "c \<in> level hp bs i1 i2 (0 + length (take i ss @ drop j ss))" by (rule walk_level)
    moreover have "length (take i ss @ drop j ss) < length ss" using ij by simp
    ultimately show False using short free by (metis add_0)
  qed
  moreover have "length ?xs = Suc (length ss)" using trail_length [OF w] by simp
  ultimately show ?thesis unfolding distinct_conv_nth by (metis less_Suc_eq_le nat_neq_iff)
qed

lemma path_fill_trail:
  assumes "cuckoo_inv hash t" "take_bit (table_hp t) b = b" "set ss \<subseteq> {..<SLOT_PER_BUCKET}" "s < SLOT_PER_BUCKET"
    and "walk (table_hp t) (view hash t) b ss = Some c" "view hash t ! unat c ! s = None"
  shows "\<exists>t'. path_fill hash (table_hp t) b (ss @ [s]) t = Some ((trail hash (table_hp t) (view hash t) b ss, (c, s)), t') \<and> taken hash t {} t'"
  using assms
proof (induction ss arbitrary: b t)
  case Nil
  note D = cuckoo_invD [OF Nil(1)]
  have b: "unat b < 2 ^ table_hp t" using Nil(2) D(6) by (simp add: unat_index_less)
  obtain t1 where t1: "lock_one hash b t = Some t1" "taken hash t {lock_of b} t1" using lock_one_taken [OF D(1) b] by blast
  have "get_bucket (tbl_buckets t1) b = Some (view hash t ! unat b)" using taken_bucket [OF t1(2) _ b] by simp
  moreover have "length (view hash t ! unat b) = SLOT_PER_BUCKET" using D(3) b by (rule shape_nth)
  ultimately show ?case using Nil t1 taken_subset [OF t1(2), of "{}"] by simp
next
  case (Cons r ss)
  note D = cuckoo_invD [OF Cons(2)]
  obtain k v p where e: "view hash t ! unat b ! r = Some (k, v, p)" and w: "walk (table_hp t) (view hash t) (alt_index (table_hp t) p b) ss = Some c"
    using Cons(6) by (auto split: option.splits)
  have b: "unat b < 2 ^ table_hp t" using Cons(3) D(6) by (simp add: unat_index_less)
  obtain t1 where t1: "lock_one hash b t = Some t1" "taken hash t {lock_of b} t1" using lock_one_taken [OF D(1) b] by blast
  note T = takenD [OF t1(2)]
  have "get_bucket (tbl_buckets t1) b = Some (view hash t ! unat b)" using taken_bucket [OF t1(2) _ b] by simp
  moreover have "length (view hash t ! unat b) = SLOT_PER_BUCKET" using D(3) b by (rule shape_nth)
  moreover have "entry_ok hash (table_hp t) b (k, v, p)" using view_entry_ok [OF Cons(2) b _ e] Cons(4) by simp
  moreover have "cuckoo_inv hash t1" using taken_moves [OF Cons(2) t1(2)] by (simp add: moves_def)
  then obtain t2 where "path_fill hash (table_hp t) (alt_index (table_hp t) p b) (ss @ [s]) t1 =
      Some ((trail hash (table_hp t) (view hash t) (alt_index (table_hp t) p b) ss, (c, s)), t2)" "taken hash t1 {} t2"
    using Cons.IH [of t1 "alt_index (table_hp t) p b"] Cons(4,5,7) w T by auto
  ultimately show ?case
    using Cons(4) e t1 taken_subset [OF taken_trans [OF t1(2)], of "{}" t2 "{}"] by (auto simp: entry_ok_def home1_def home2_def Let_def)
qed

text \<open>The locks of one move: those of both buckets, and of the two buckets of the key in the last move.\<close>

lemma move_lock:
  assumes "lazy_ok hash t" "unat f < 2 ^ table_hp t" "unat g < 2 ^ table_hp t" "unat i1 < 2 ^ table_hp t" "unat i2 < 2 ^ table_hp t"
    and "final \<Longrightarrow> f = i1 \<or> f = i2"
  shows "\<exists>t' ls. (if final then lock_three hash i1 i2 g t else lock_two hash f g t) = Some t' \<and> taken hash t ls t' \<and> lock_of f \<in> ls \<and> lock_of g \<in> ls"
proof (cases final)
  case True
  obtain t' where t': "lock_three hash i1 i2 g t = Some t'" "taken hash t {lock_of i1, lock_of i2, lock_of g} t'"
    using lock_three_taken [OF assms(1,4,5,3)] by blast
  have "lock_of f \<in> {lock_of i1, lock_of i2, lock_of g}" using assms(6) True by auto
  then show ?thesis using True t' by (intro exI [of _ t'] exI [of _ "{lock_of i1, lock_of i2, lock_of g}"]) simp
next
  case False
  obtain t' where "lock_two hash f g t = Some t'" "taken hash t {lock_of f, lock_of g} t'" using lock_two_taken [OF assms(1-3)] by blast
  then show ?thesis using False by (intro exI [of _ t'] exI [of _ "{lock_of f, lock_of g}"]) simp
qed

lemma move_path_trail:
  assumes "cuckoo_inv hash t" "take_bit (table_hp t) i1 = i1" "take_bit (table_hp t) i2 = i2" "b = i1 \<or> b = i2"
    and "set ss \<subseteq> {..<SLOT_PER_BUCKET}" "s < SLOT_PER_BUCKET" "walk (table_hp t) (view hash t) b ss = Some c" "view hash t ! unat c ! s = None"
    and "distinct (map fst (trail hash (table_hp t) (view hash t) b ss) @ [c])"
  shows "\<exists>t'. move_path hash i1 i2 (rev (trail hash (table_hp t) (view hash t) b ss)) (c, s) t = Some (True, t') \<and>
    moves hash t t' \<and> view hash t' ! unat b ! hd (ss @ [s]) = None"
  using assms
proof (induction ss arbitrary: t c s rule: rev_induct)
  case Nil
  then show ?case by (auto simp: moves_def)
next
  case (snoc r ss)
  let ?hp = "table_hp t" and ?bs = "view hash t"
  note D = cuckoo_invD [OF snoc(2)]
  obtain f k v p where w: "walk ?hp ?bs b ss = Some f" and e: "?bs ! unat f ! r = Some (k, v, p)" and c: "c = alt_index ?hp p f"
    using snoc(8) by (auto simp: walk_append split: option.splits bind_splits)
  have tr: "trail hash ?hp ?bs b (ss @ [r]) = trail hash ?hp ?bs b ss @ [(f, r, hash k)]" using trail_append [OF w] e by simp
  have dist: "f \<noteq> c" "distinct (map fst (trail hash ?hp ?bs b ss) @ [f])"
    "f \<notin> fst ` set (trail hash ?hp ?bs b ss)" "c \<notin> fst ` set (trail hash ?hp ?bs b ss)" using snoc(10) by (auto simp: tr)
  have "take_bit ?hp b = b" using snoc(3-5) by auto
  then have fc: "unat f < 2 ^ ?hp" "unat c < 2 ^ ?hp" "unat i1 < 2 ^ ?hp" "unat i2 < 2 ^ ?hp"
    using walk_bound [OF w] D(6) snoc(3,4) c by (simp_all add: unat_index_less)
  have rest: "rev (trail hash ?hp ?bs b ss) = [] \<Longrightarrow> f = b" using w trail_length [OF w, of hash] by simp
  obtain t1 ls where lock: "(if rev (trail hash ?hp ?bs b ss) = [] then lock_three hash i1 i2 c t else lock_two hash f c t) = Some t1"
    and t1: "taken hash t ls t1" and ls: "lock_of f \<in> ls" "lock_of c \<in> ls"
    using move_lock [OF D(1) fc(1,2,3,4), of "rev (trail hash ?hp ?bs b ss) = []"] rest snoc(5) by auto
  note T = takenD [OF t1]
  have get: "get_bucket (tbl_buckets t1) f = Some (?bs ! unat f)" "get_bucket (tbl_buckets t1) c = Some (?bs ! unat c)"
    using taken_bucket [OF t1] ls fc(1,2) by simp_all
  have len: "length (?bs ! unat f) = SLOT_PER_BUCKET" "length (?bs ! unat c) = SLOT_PER_BUCKET" using fc D(3) by (simp_all add: shape_nth)
  have m1: "moves hash t t1" using taken_moves [OF snoc(2) t1] .
  obtain x x' where x: "setKV c s p k v (tbl_buckets t1) = Some x" "eraseKV f r x = Some x'" and m2: "moves hash t1 (t1\<lparr>tbl_buckets := x'\<rparr>)"
    and view: "view hash (t1\<lparr>tbl_buckets := x'\<rparr>) = ?bs[unat c := (?bs ! unat c)[s := Some (k, v, p)], unat f := (?bs ! unat f)[r := None]]"
    using move_entry [of hash t1 f r k v p c s] m1 T e c fc snoc(6,7,9) dist(1) ls t1 by (auto simp: moves_def taken_def)
  let ?t = "t1\<lparr>tbl_buckets := x'\<rparr>"
  have hp: "table_hp ?t = ?hp" using m2 T by (simp add: moves_def)
  have "view hash ?t ! unat y = ?bs ! unat y" if "y \<noteq> f" "y \<noteq> c" for y
    using that unfolding view by (metis nth_list_update_neq word_unat_eq_iff)
  then have same: "walk ?hp (view hash ?t) b ss = Some f" "trail hash ?hp (view hash ?t) b ss = trail hash ?hp ?bs b ss"
    using trail_cong [OF w, of hash "view hash ?t"] dist(3,4) by fastforce+
  have "view hash ?t ! unat f ! r = None" unfolding view using fc(1) len(1) snoc(6) by simp
  then obtain t' where "move_path hash i1 i2 (rev (trail hash ?hp ?bs b ss)) (f, r) ?t = Some (True, t')" "moves hash ?t t'"
    "view hash t' ! unat b ! hd (ss @ [r]) = None"
    using snoc.IH [of ?t r f] m2 hp same dist(2) snoc(3-6) by (auto simp: moves_def)
  then show ?case using snoc(6,7,9) e lock get len x m1 m2 moves_trans by (auto simp: tr hd_append split: if_splits intro!: moves_trans [OF m1 moves_trans [OF m2]])
qed

subsection \<open>The rounds of \<open>run_cuckoo\<close>\<close>

definition path_ok :: "('k \<Rightarrow> u64) \<Rightarrow> nat \<Rightarrow> ('k, 'v) bucket list \<Rightarrow> u64 \<Rightarrow> u64 \<Rightarrow> cuckoo_path \<Rightarrow> bool" where
  "path_ok hash hp bs i1 i2 path \<longleftrightarrow> (\<exists>b ss c s. path = (trail hash hp bs b ss, (c, s)) \<and> (b = i1 \<or> b = i2) \<and>
     set ss \<subseteq> {..<SLOT_PER_BUCKET} \<and> s < SLOT_PER_BUCKET \<and> walk hp bs b ss = Some c \<and> bs ! unat c ! s = None \<and>
     distinct (map fst (trail hash hp bs b ss) @ [c]))"

lemma cuckoopath_search_ok:
  assumes inv: "cuckoo_inv hash t" and i: "take_bit (table_hp t) i1 = i1" "take_bit (table_hp t) i2 = i2"
  shows "\<exists>r t'. cuckoopath_search hash (table_hp t) i1 i2 t = Some (r, t') \<and> taken hash t {} t' \<and>
    (case r of None \<Rightarrow> \<forall>n < MAX_BFS_PATH_LEN. \<forall>b \<in> level (table_hp t) (view hash t) i1 i2 n. full (view hash t ! unat b)
     | Some path \<Rightarrow> path_ok hash (table_hp t) (view hash t) i1 i2 path)"
proof -
  let ?hp = "table_hp t" and ?bs = "view hash t"
  obtain y t1 where y: "slot_search hash ?hp i1 i2 t = Some (y, t1)" and t1: "taken hash t {} t1" and ok: "search_ok ?hp ?bs i1 i2 y"
    using slot_search_ok [OF cuckoo_invD(1) [OF inv] i] by blast
  show ?thesis
  proof (cases "bs_depth y = -1")
    case True
    then show ?thesis using y t1 ok by (auto simp: cuckoopath_search_def search_ok_def)
  next
    case False
    then obtain c :: nat and ss s b where c: "c < 2" and d: "0 \<le> bs_depth y" "bs_depth y < int MAX_BFS_PATH_LEN" "length ss = nat (bs_depth y)"
      and ss: "set ss \<subseteq> {..<SLOT_PER_BUCKET}" "s < SLOT_PER_BUCKET"
      and w: "walk ?hp ?bs (if c = 0 then i1 else i2) ss = Some b" and free: "?bs ! unat b ! s = None"
      and code: "bs_pathcode y = of_nat (path_code c (ss @ [s]))"
      and short: "\<forall>n < length ss. \<forall>b \<in> level ?hp ?bs i1 i2 n. full (?bs ! unat b)"
      using ok by (auto simp: search_ok_def found_ok_def)
    have slots: "path_slots (nat (bs_depth y + 1)) (bs_pathcode y) [] = (ss @ [s], of_nat c)"
      using path_slots_code [of "ss @ [s]" c "[]"] ss c d by (simp add: code nat_add_distrib)
    have start: "(if of_nat c = (0 :: 16 word) then i1 else i2) = (if c = 0 then i1 else i2)" "of_nat c = (0 :: 16 word) \<or> of_nat c = (1 :: 16 word)"
      using c by (auto simp: less_2_cases_iff)
    note T = takenD [OF t1]
    have inv1: "cuckoo_inv hash t1" using taken_moves [OF inv t1] by (simp add: moves_def)
    have "take_bit ?hp (if c = 0 then i1 else i2) = (if c = 0 then i1 else i2)" using i by simp
    then obtain t2 where t2: "path_fill hash ?hp (if c = 0 then i1 else i2) (ss @ [s]) t1 = Some ((trail hash ?hp ?bs (if c = 0 then i1 else i2) ss, (b, s)), t2)"
      "taken hash t1 {} t2"
      using path_fill_trail [OF inv1, of "if c = 0 then i1 else i2" ss s b] T ss w free by auto
    have "\<not> full (?bs ! unat b)" using free ss(2) by (auto simp: full_def)
    then have "distinct (map fst (trail hash ?hp ?bs (if c = 0 then i1 else i2) ss) @ [b])"
      using shortest_walk_distinct [OF w _ ss(1) _ short] by simp
    then have "path_ok hash ?hp ?bs i1 i2 (trail hash ?hp ?bs (if c = 0 then i1 else i2) ss, (b, s))"
      unfolding path_ok_def using ss w free by (intro exI conjI) auto
    moreover have "taken hash t {} t2" using taken_trans [OF t1 t2(2)] by simp
    ultimately show ?thesis using y False slots start t2(1) by (auto simp: cuckoopath_search_def)
  qed
qed

lemma cuckoopath_move_ok:
  assumes inv: "cuckoo_inv hash t" and i: "take_bit (table_hp t) i1 = i1" "take_bit (table_hp t) i2 = i2"
    and path: "path_ok hash (table_hp t) (view hash t) i1 i2 path"
  shows "\<exists>t' i s. cuckoopath_move hash i1 i2 path t = Some (True, t') \<and> moves hash t t' \<and> path_start path = (i, s) \<and>
    (i = i1 \<or> i = i2) \<and> s < SLOT_PER_BUCKET \<and> view hash t' ! unat i ! s = None"
proof -
  let ?hp = "table_hp t" and ?bs = "view hash t"
  note D = cuckoo_invD [OF inv]
  obtain b ss c s where p: "path = (trail hash ?hp ?bs b ss, (c, s))" "b = i1 \<or> b = i2" "set ss \<subseteq> {..<SLOT_PER_BUCKET}" "s < SLOT_PER_BUCKET"
    "walk ?hp ?bs b ss = Some c" "?bs ! unat c ! s = None" "distinct (map fst (trail hash ?hp ?bs b ss) @ [c])"
    using path by (auto simp: path_ok_def)
  have i': "unat i1 < 2 ^ ?hp" "unat i2 < 2 ^ ?hp" using i D(6) by (simp_all add: unat_index_less)
  show ?thesis
  proof (cases ss)
    case Nil
    obtain t1 where t1: "lock_two hash i1 i2 t = Some t1" "taken hash t {lock_of i1, lock_of i2} t1" using lock_two_taken [OF D(1) i'] by blast
    have "get_bucket (tbl_buckets t1) b = Some (?bs ! unat b)" "length (?bs ! unat b) = SLOT_PER_BUCKET"
      using taken_bucket [OF t1(2)] i' p(2) shape_nth [OF D(3)] by auto
    then show ?thesis using t1 p Nil taken_moves [OF inv t1(2)] takenD [OF t1(2)] by (auto simp: cuckoopath_move_def path_start_def)
  next
    case (Cons r ss')
    obtain k v q where e: "?bs ! unat b ! r = Some (k, v, q)" using p(5) Cons by (auto split: option.splits)
    obtain t' where "move_path hash i1 i2 (rev (trail hash ?hp ?bs b ss)) (c, s) t = Some (True, t')" "moves hash t t'" "view hash t' ! unat b ! r = None"
      using move_path_trail [OF inv i p(2-7)] Cons by auto
    then show ?thesis using p(1-3) Cons e by (auto simp: cuckoopath_move_def path_start_def)
  qed
qed

text \<open>The first path found can be moved, so one round is enough; without a path every bucket in reach is full.\<close>

definition free_slot :: "('k \<Rightarrow> u64) \<Rightarrow> u64 \<Rightarrow> u64 \<Rightarrow> ('k, 'v) cuckoo \<Rightarrow> u64 \<times> nat \<Rightarrow> bool" where
  "free_slot hash i1 i2 t pos = (case pos of (i, s) \<Rightarrow> (i = i1 \<or> i = i2) \<and> s < SLOT_PER_BUCKET \<and> view hash t ! unat i ! s = None)"

lemma run_cuckoo_ok:
  assumes inv: "cuckoo_inv hash t" and i: "take_bit (table_hp t) i1 = i1" "take_bit (table_hp t) i2 = i2"
    and locks: "migrated t (lock_of i1)" "migrated t (lock_of i2)"
  shows "\<exists>r t'. run_cuckoo (Suc n) hash i1 i2 t = Some (r, t') \<and> moves hash t t' \<and>
    (case r of None \<Rightarrow> \<forall>n < MAX_BFS_PATH_LEN. \<forall>b \<in> level (table_hp t) (view hash t) i1 i2 n. full (view hash t ! unat b)
     | Some pos \<Rightarrow> free_slot hash i1 i2 t' pos)"
proof -
  obtain r t1 where r: "cuckoopath_search hash (table_hp t) i1 i2 t = Some (r, t1)" and t1: "taken hash t {} t1" and
    ok: "case r of None \<Rightarrow> \<forall>n < MAX_BFS_PATH_LEN. \<forall>b \<in> level (table_hp t) (view hash t) i1 i2 n. full (view hash t ! unat b)
     | Some path \<Rightarrow> path_ok hash (table_hp t) (view hash t) i1 i2 path"
    using cuckoopath_search_ok [OF inv i] by blast
  note m1 = taken_moves [OF inv t1] and T = takenD [OF t1]
  show ?thesis
  proof (cases r)
    case None
    then show ?thesis using r m1 ok by simp
  next
    case (Some path)
    obtain t2 b s where t2: "cuckoopath_move hash i1 i2 path t1 = Some (True, t2)" and m2: "moves hash t1 t2"
      and s: "path_start path = (b, s)" "b = i1 \<or> b = i2" "s < SLOT_PER_BUCKET" "view hash t2 ! unat b ! s = None"
      using cuckoopath_move_ok [of hash t1 i1 i2 path] m1 T i ok Some by (auto simp: moves_def)
    have m: "moves hash t t2" using moves_trans [OF m1 m2] .
    then have D: "lazy_inv hash t2" "table_hp t2 < 64" "shape (table_hp t2) (view hash t2)" "table_hp t2 = table_hp t"
      using cuckoo_invD [of hash t2] by (auto simp: moves_def)
    have b: "unat b < 2 ^ table_hp t2" using s(2) i D by (auto simp: unat_index_less)
    have "migrated t2 (lock_of b)" using m locks s(2) by (auto simp: moves_def)
    then have "get_bucket (tbl_buckets t2) b = Some (view hash t2 ! unat b)" using b D(1) by (intro view_bucket)
    then show ?thesis using r Some t2 m s shape_nth [OF D(3) b] by (auto simp: free_slot_def)
  qed
qed

declare run_cuckoo.simps [simp del]

end
