(* ===== verification/Cuckoo_Grow.thy ===== *)
theory Cuckoo_Grow
  imports Cuckoo_Path
begin

text \<open>
  Doubling the table (\<open>cuckoo_fast_double\<close>), and the lookup and insertion into the two buckets of a
  key, over the view of the table.
\<close>

subsection \<open>Doubling\<close>

lemma rehash_all_settles:
  assumes "lazy_inv hash t" "\<forall>l \<in> set ls. l < length (tbl_locks t)"
  shows "\<exists>t'. rehash_all hash ls t = Some t' \<and> settles hash t t' \<and> (\<forall>l \<in> set ls. migrated t' l)"
  using assms
proof (induction ls arbitrary: t)
  case Nil
  then show ?case by (simp add: settles_refl)
next
  case (Cons l ls)
  obtain t1 where t1: "rehash_lock hash False l t = Some t1" "settles hash t t1" "migrated t1 l"
    using rehash_lock_settles [of hash t l False] Cons.prems by auto
  obtain t2 where t2: "rehash_all hash ls t1 = Some t2" "settles hash t1 t2" "\<forall>l \<in> set ls. migrated t2 l"
    using Cons.IH [of t1] t1(2) Cons.prems by (auto simp: settles_def)
  show ?case using t1(1,3) t2(1,3) t2(2) settles_trans [OF t1(2) t2(2)] by (auto simp: settles_def)
qed

lemma view_all_migrated:
  assumes "lazy_inv hash t" "\<forall>l < length (tbl_locks t). migrated t l"
  shows "view hash t = bucket_arr (tbl_buckets t)"
proof (rule nth_equalityI)
  show "length (view hash t) = length (bucket_arr (tbl_buckets t))" using assms(1) by (simp add: lazy_inv_def shape_def)
  fix j assume "j < length (view hash t)"
  then show "view hash t ! j = bucket_arr (tbl_buckets t) ! j"
    using assms(2) lock_of_bucket [OF assms(1), of j] by (simp add: view_nth bucket_view_def)
qed

lemma move_all_append: "move_all hash old (is @ js) new = Option.bind (move_all hash old is new) (move_all hash old js)"
  by (induction "is" arbitrary: new) (auto simp: Option.bind_assoc intro!: Option.bind_cong)

lemma shape_new: "hp < 64 \<Longrightarrow> shape hp (bucket_arr (new_container hp))"
  by (auto simp: shape_def new_container_def empty_bucket_def)

lemma move_all_double:
  assumes "shape hp (bucket_arr old)" "placed hash hp (bucket_arr old)" "hashpower old = hp" "Suc hp < 64" "m \<le> 2 ^ hp"
  shows "\<exists>arr. move_all hash old [0..<m] (new_container (Suc hp)) = Some \<lparr>hashpower = Suc hp, bucket_arr = arr\<rparr> \<and> shape (Suc hp) arr \<and>
    (\<forall>j < 2 ^ Suc hp. arr ! j = (if j mod 2 ^ hp < m then double_buckets hash hp (bucket_arr old) ! j else empty_bucket))"
  using assms(5)
proof (induction m)
  case 0
  then show ?case using shape_new [OF assms(4)] by (simp add: new_container_def)
next
  case (Suc m)
  let ?D = "double_buckets hash hp (bucket_arr old)"
  obtain arr where run: "move_all hash old [0..<m] (new_container (Suc hp)) = Some \<lparr>hashpower = Suc hp, bucket_arr = arr\<rparr>" and arr: "shape (Suc hp) arr"
    and nth: "\<forall>j < 2 ^ Suc hp. arr ! j = (if j mod 2 ^ hp < m then ?D ! j else empty_bucket)"
    using Suc by auto
  let ?arr = "arr[m := ?D ! m, m + 2 ^ hp := ?D ! (m + 2 ^ hp)]"
  have m: "m < 2 ^ hp" using Suc.prems by simp
  have D: "shape (Suc hp) ?D" using assms by (intro shape_double)
  have "move_bucket hash old (of_nat m) \<lparr>hashpower = Suc hp, bucket_arr = arr\<rparr> = Some \<lparr>hashpower = Suc hp, bucket_arr = ?arr\<rparr>"
    using move_bucket_split [of hp old hash "\<lparr>hashpower = Suc hp, bucket_arr = arr\<rparr>" m] assms arr nth m by simp
  then have "move_all hash old [0..<Suc m] (new_container (Suc hp)) = Some \<lparr>hashpower = Suc hp, bucket_arr = ?arr\<rparr>"
    using run by (simp add: move_all_append)
  moreover have "shape (Suc hp) ?arr" using arr D m by (auto intro!: shape_update intro: shape_nth)
  moreover have "?arr ! j = (if j mod 2 ^ hp < Suc m then ?D ! j else empty_bucket)" if j: "j < 2 ^ Suc hp" for j
  proof -
    have len: "length arr = 2 ^ Suc hp" using arr by (simp add: shape_def)
    have "j mod 2 ^ hp = m \<longleftrightarrow> j = m \<or> j = m + 2 ^ hp" using j m by (cases "j < 2 ^ hp") (auto simp: le_mod_geq)
    then show ?thesis using nth j m len by (auto simp: nth_list_update less_Suc_eq)
  qed
  ultimately show ?case by blast
qed

lemma resize_locks:
  assumes "length (tbl_locks t) = min (2 ^ hp) kMaxNumLocks"
  shows "length (tbl_locks (maybe_resize_locks (2 ^ Suc hp) t)) = min (2 ^ Suc hp) kMaxNumLocks"
    and "cuckoo_size (maybe_resize_locks (2 ^ Suc hp) t) = cuckoo_size t"
    and "\<forall>l < length (tbl_locks t). migrated t l \<Longrightarrow> \<forall>l < length (tbl_locks (maybe_resize_locks (2 ^ Suc hp) t)). migrated (maybe_resize_locks (2 ^ Suc hp) t) l"
    and "tbl_buckets (maybe_resize_locks (2 ^ Suc hp) t) = tbl_buckets t"
  using assms by (auto simp: maybe_resize_locks_def cuckoo_size_def migrated_def nth_append new_lock_def sum_list_replicate min_def)

lemma doubled_at_once:
  assumes "shape (Suc hp) arr" "table_hp t = Suc hp" "bucket_arr (tbl_buckets t) = arr"
    and "length (tbl_locks t) = min (2 ^ Suc hp) kMaxNumLocks" "\<forall>l < length (tbl_locks t). migrated t l" "tbl_lazy t = 0"
  shows "lazy_ok hash t" "view hash t = arr"
proof -
  have inv: "lazy_inv hash t" unfolding lazy_inv_def
  proof (intro conjI allI impI)
    fix j :: nat assume "j < 2 ^ table_hp t" and nm: "\<not> migrated t (j mod kMaxNumLocks)"
    then have "j mod kMaxNumLocks < 2 ^ Suc hp" using le_less_trans [OF mod_less_eq_dividend] assms(2) by metis
    then have "j mod kMaxNumLocks < length (tbl_locks t)" using assms(4) by (simp add: kMaxNumLocks_def)
    then show "bucket_arr (tbl_buckets t) ! j = empty_bucket" using nm assms(5) by simp
  qed (use assms in auto)
  moreover have "lazy_count t" using assms(5,6) by (simp add: lazy_count_def filter_empty_conv all_set_conv_all_nth migrated_def)
  ultimately show "lazy_ok hash t" by (simp add: lazy_ok_def)
  show "view hash t = arr" using view_all_migrated [OF inv assms(5)] assms(3) by simp
qed

lemma doubled_lazily:
  assumes "shape hp (bucket_arr old)" "placed hash hp (bucket_arr old)" "hashpower old = hp" "16 \<le> hp" "Suc hp < 64"
    and "tbl_old t = old" "tbl_buckets t = new_container (Suc hp)" "length (tbl_locks t) = min (2 ^ Suc hp) kMaxNumLocks"
    and "\<forall>l < length (tbl_locks t). \<not> migrated t l" "tbl_lazy t = length (tbl_locks t)"
  shows "lazy_ok hash t" "view hash t = double_buckets hash hp (bucket_arr old)"
proof -
  have hp: "table_hp t = Suc hp" using assms(7) by (simp add: new_container_def)
  have inv: "lazy_inv hash t"
    using assms shape_new [OF assms(5)] by (auto simp: lazy_inv_def hp old_ok_def new_container_def)
  have "filter (\<lambda>l. \<not> is_migrated l) (tbl_locks t) = tbl_locks t" using assms(9) by (auto simp: filter_id_conv migrated_def in_set_conv_nth)
  then show "lazy_ok hash t" using inv assms(10) by (simp add: lazy_ok_def lazy_count_def)
  have "length (double_buckets hash hp (bucket_arr old)) = 2 ^ Suc hp" using assms(1) by (simp add: double_buckets_def shape_def)
  then show "view hash t = double_buckets hash hp (bucket_arr old)"
    using assms(3,6,9) lock_of_bucket [OF inv] by (intro nth_equalityI) (auto simp: hp view_nth bucket_view_def)
qed

lemma cuckoo_fast_double_ok:
  assumes inv: "cuckoo_inv hash t" and load: "\<not> load_factor_too_low t" and hp: "Suc (table_hp t) < 64"
  shows "\<exists>t'. cuckoo_fast_double hash t = Some (Done t') \<and> lazy_ok hash t' \<and> table_hp t' = Suc (table_hp t) \<and>
    view hash t' = double_buckets hash (table_hp t) (view hash t) \<and> cuckoo_size t' = cuckoo_size t"
proof -
  let ?hp = "table_hp t" and ?bs = "view hash t"
  note D = cuckoo_invD [OF inv]
  have size: "0 \<le> cuckoo_size t" using D(7) by simp
  obtain t1 where t1: "rehash_all hash [0..<length (tbl_locks t)] t = Some t1" and s: "settles hash t t1"
    and "\<forall>l \<in> set [0..<length (tbl_locks t)]. migrated t1 l"
    using rehash_all_settles [OF D(2), of "[0..<length (tbl_locks t)]"] by auto
  then have mig: "\<forall>l < length (tbl_locks t1). migrated t1 l" by (auto simp: settles_def)
  have S: "lazy_inv hash t1" "table_hp t1 = ?hp" "cuckoo_size t1 = cuckoo_size t" "view hash t1 = ?bs" using s by (simp_all add: settles_def)
  have bs: "bucket_arr (tbl_buckets t1) = ?bs" using view_all_migrated [OF S(1) mig] S(4) by simp
  have locks: "length (tbl_locks (set_lazy 0 t1)) = min (2 ^ ?hp) kMaxNumLocks" using S(1,2) by (simp add: lazy_inv_def set_lazy_def)
  let ?t2 = "maybe_resize_locks (2 ^ Suc ?hp) (set_lazy 0 t1)"
  note R = resize_locks [OF locks]
  have R3: "\<forall>l < length (tbl_locks ?t2). migrated ?t2 l" using mig by (intro R(3)) (simp add: set_lazy_def migrated_def)
  have R': "tbl_buckets ?t2 = tbl_buckets t1" "cuckoo_size ?t2 = cuckoo_size t" using R(2,4) S(3) by (simp_all add: set_lazy_def cuckoo_size_def)
  show ?thesis
  proof (cases "2 ^ ?hp < kMaxNumLocks")
    case True
    obtain arr where run: "move_all hash (tbl_buckets t1) [0..<2 ^ ?hp] (new_container (Suc ?hp)) = Some \<lparr>hashpower = Suc ?hp, bucket_arr = arr\<rparr>"
      and arr: "shape (Suc ?hp) arr" "\<forall>j < 2 ^ Suc ?hp. arr ! j = double_buckets hash ?hp ?bs ! j"
      using move_all_double [of ?hp "tbl_buckets t1" hash "2 ^ ?hp"] D(3,4) hp S(2) bs by auto
    have eq: "arr = double_buckets hash ?hp ?bs"
      using arr D(3) by (intro nth_equalityI) (auto simp: shape_def double_buckets_def)
    let ?t = "set_lazy 0 (?t2\<lparr>tbl_old := tbl_buckets t1, tbl_buckets := \<lparr>hashpower = Suc ?hp, bucket_arr = arr\<rparr>\<rparr>)"
    have "lazy_ok hash ?t" "view hash ?t = arr"
      using doubled_at_once [OF arr(1), of ?t hash] R(1) R3 by (simp_all add: set_lazy_def migrated_def)
    moreover have "cuckoo_fast_double hash t = Some (Done ?t)"
      using load hp size t1 R' S(2) True run by (simp add: cuckoo_fast_double_def)
    moreover have "cuckoo_size ?t = cuckoo_size t" using R'(2) by (simp add: cuckoo_size_def set_lazy_def)
    ultimately show ?thesis using eq by (auto simp: set_lazy_def)
  next
    case False
    then have "16 \<le> ?hp" using power_strict_increasing [of ?hp 16 "2 :: nat"] unfolding kMaxNumLocks_def by linarith
    let ?t = "set_lazy (length (tbl_locks ?t2)) (?t2\<lparr>tbl_old := tbl_buckets t1, tbl_buckets := new_container (Suc ?hp),
      tbl_locks := map (\<lambda>l. l\<lparr>is_migrated := False\<rparr>) (tbl_locks ?t2)\<rparr>)"
    have "lazy_ok hash ?t" "view hash ?t = double_buckets hash ?hp ?bs"
      using doubled_lazily [of ?hp "tbl_buckets t1" hash ?t] D(3,4) bs S(2) \<open>16 \<le> ?hp\<close> hp R(1) by (simp_all add: set_lazy_def migrated_def)
    moreover have "cuckoo_fast_double hash t = Some (Done ?t)"
      using load hp size t1 R' S(2) False by (simp add: cuckoo_fast_double_def Let_def)
    moreover have "cuckoo_size ?t = cuckoo_size t" using R'(2) by (simp add: cuckoo_size_def set_lazy_def comp_def)
    ultimately show ?thesis by (auto simp: set_lazy_def new_container_def)
  qed
qed

subsection \<open>Reading a bucket\<close>

lemma read_slots_Some:
  "read_slots b i p key = Some j \<Longrightarrow> i \<le> j \<and> j < i + length b \<and> (\<exists>v. b ! (j - i) = Some (key, v, p))"
proof (induction b arbitrary: i)
  case (Cons x b)
  show ?case using Cons.prems Cons.IH [of "Suc i"] by (auto simp: nth_Cons' split: option.splits prod.splits if_splits)
qed simp

lemma read_slots_None: "read_slots b i p key = None \<longleftrightarrow> (\<forall>v. (key, v, p) \<notin> set (occupied b))"
  by (induction b arbitrary: i) (auto split: option.splits)

lemma find_slots_Inl:
  "find_slots b i p key slot = Inl j \<Longrightarrow> i \<le> j \<and> j < i + length b \<and> (\<exists>v. b ! (j - i) = Some (key, v, p))"
proof (induction b arbitrary: i slot)
  case (Cons x b)
  show ?case using Cons.prems Cons.IH [of "Suc i" slot] Cons.IH [of "Suc i" "Some i"] by (auto simp: nth_Cons' split: option.splits prod.splits if_splits)
qed simp

lemma find_slots_Inr:
  "find_slots b i p key slot = Inr r \<Longrightarrow> (\<forall>v. (key, v, p) \<notin> set (occupied b)) \<and>
     (case r of None \<Rightarrow> slot = None \<and> None \<notin> set b | Some j \<Rightarrow> slot = Some j \<or> (i \<le> j \<and> j < i + length b \<and> b ! (j - i) = None))"
proof (induction b arbitrary: i slot)
  case (Cons x b)
  show ?case using Cons.prems Cons.IH [of "Suc i" slot] Cons.IH [of "Suc i" "Some i"] by (auto simp: nth_Cons' split: option.splits prod.splits if_splits)
qed (auto split: option.splits)

lemma try_read_Some: "try_read_from_bucket b p key = Some j \<Longrightarrow> j < length b \<and> (\<exists>v. b ! j = Some (key, v, p))"
  unfolding try_read_from_bucket_def by (drule read_slots_Some) simp

lemma try_read_None: "try_read_from_bucket b p key = None \<longleftrightarrow> (\<forall>v. (key, v, p) \<notin> set (occupied b))"
  by (simp add: try_read_from_bucket_def read_slots_None)

lemma try_find_Inl: "try_find_insert_bucket b p key = Inl j \<Longrightarrow> j < length b \<and> (\<exists>v. b ! j = Some (key, v, p))"
  unfolding try_find_insert_bucket_def by (drule find_slots_Inl) simp

lemma try_find_Inr:
  "try_find_insert_bucket b p key = Inr r \<Longrightarrow> (\<forall>v. (key, v, p) \<notin> set (occupied b)) \<and>
     (case r of None \<Rightarrow> None \<notin> set b | Some j \<Rightarrow> j < length b \<and> b ! j = None)"
  unfolding try_find_insert_bucket_def by (drule find_slots_Inr) (simp split: option.splits)

text \<open>A key is in the table if one of its two buckets has it, with its partial key.\<close>

lemma key_in_table:
  assumes "cuckoo_inv hash t"
  shows "key \<in> fst ` set (entries (view hash t)) \<longleftrightarrow>
    (\<exists>v. (key, v, partial_key (hash key)) \<in> set (occupied (view hash t ! unat (home1 hash (table_hp t) key))) \<or>
         (key, v, partial_key (hash key)) \<in> set (occupied (view hash t ! unat (home2 hash (table_hp t) key))))"
proof -
  note D = cuckoo_invD [OF assms]
  have "p = partial_key (hash key)" if "(key, v, p) \<in> set (entries (view hash t))" for v p
    using that D(4) by (fastforce simp: set_entries placed_def entry_ok_def)
  then have "key \<in> fst ` set (entries (view hash t)) \<longleftrightarrow> (\<exists>v. (key, v, partial_key (hash key)) \<in> set (entries (view hash t)))"
    by force
  then show ?thesis unfolding entries_in_homes [OF D(3,4)] .
qed

definition homes_locked :: "('k \<Rightarrow> u64) \<Rightarrow> 'k \<Rightarrow> ('k, 'v) cuckoo \<Rightarrow> bool" where
  "homes_locked hash key t \<longleftrightarrow> migrated t (lock_of (home1 hash (table_hp t) key)) \<and> migrated t (lock_of (home2 hash (table_hp t) key))"

lemma home_bucket:
  assumes "cuckoo_inv hash t" "homes_locked hash key t" "i = home1 hash (table_hp t) key \<or> i = home2 hash (table_hp t) key"
  shows "unat i < 2 ^ table_hp t" "get_bucket (tbl_buckets t) i = Some (view hash t ! unat i)" "length (view hash t ! unat i) = SLOT_PER_BUCKET"
    and "migrated t (lock_of i)"
proof -
  note D = cuckoo_invD [OF assms(1)]
  show i: "unat i < 2 ^ table_hp t" using assms(3) D(6) by (auto simp: unat_index_less)
  show m: "migrated t (lock_of i)" using assms(2,3) by (auto simp: homes_locked_def)
  show "get_bucket (tbl_buckets t) i = Some (view hash t ! unat i)" using i D(2) m by (rule view_bucket)
  show "length (view hash t ! unat i) = SLOT_PER_BUCKET" using D(3) i by (rule shape_nth)
qed

text \<open>A position of a key in its table.\<close>

definition at_key :: "('k \<Rightarrow> u64) \<Rightarrow> 'k \<Rightarrow> ('k, 'v) cuckoo \<Rightarrow> u64 \<Rightarrow> nat \<Rightarrow> bool" where
  "at_key hash key t i s \<longleftrightarrow> (i = home1 hash (table_hp t) key \<or> i = home2 hash (table_hp t) key) \<and> s < SLOT_PER_BUCKET \<and>
     (\<exists>v. view hash t ! unat i ! s = Some (key, v, partial_key (hash key)))"

lemma cuckoo_find_ok:
  assumes inv: "cuckoo_inv hash t" and locks: "homes_locked hash key t"
  shows "\<exists>r. cuckoo_find key (partial_key (hash key)) (home1 hash (table_hp t) key) (home2 hash (table_hp t) key) t = Some r \<and>
    (case r of None \<Rightarrow> key \<notin> fst ` set (entries (view hash t)) | Some (i, s) \<Rightarrow> at_key hash key t i s)"
proof -
  let ?b1 = "view hash t ! unat (home1 hash (table_hp t) key)" and ?b2 = "view hash t ! unat (home2 hash (table_hp t) key)"
  note B1 = home_bucket [OF inv locks, of "home1 hash (table_hp t) key", simplified]
    and B2 = home_bucket [OF inv locks, of "home2 hash (table_hp t) key", simplified]
  show ?thesis
  proof (cases "try_read_from_bucket ?b1 (partial_key (hash key)) key")
    case (Some s)
    then show ?thesis using B1 try_read_Some [OF Some] by (auto simp: cuckoo_find_def at_key_def)
  next
    case N1: None
    show ?thesis
    proof (cases "try_read_from_bucket ?b2 (partial_key (hash key)) key")
      case (Some s)
      then show ?thesis using N1 B1 B2 try_read_Some [OF Some] by (auto simp: cuckoo_find_def at_key_def)
    next
      case None
      moreover have "key \<notin> fst ` set (entries (view hash t))"
        using None N1 unfolding key_in_table [OF inv] try_read_None by blast
      ultimately show ?thesis using N1 B1 B2 by (simp add: cuckoo_find_def)
    qed
  qed
qed

lemma at_key_entry:
  assumes "cuckoo_inv hash t" "at_key hash key t i s"
  obtains v where "view hash t ! unat i ! s = Some (key, v, partial_key (hash key))" "unat i < 2 ^ table_hp t" "s < length (view hash t ! unat i)"
    "(key, v, partial_key (hash key)) \<in> set (entries (view hash t))"
proof -
  note D = cuckoo_invD [OF assms(1)]
  obtain v where v: "view hash t ! unat i ! s = Some (key, v, partial_key (hash key))" "s < SLOT_PER_BUCKET" using assms(2) by (auto simp: at_key_def)
  have i: "unat i < 2 ^ table_hp t" using assms(2) D(6) by (auto simp: at_key_def unat_index_less)
  have s: "s < length (view hash t ! unat i)" using v(2) shape_nth [OF D(3) i] by simp
  then have "(key, v, partial_key (hash key)) \<in> set (entries (view hash t))" using v(1) i by (auto simp: set_entries set_occupied)
  then show ?thesis using that v(1) i s by blast
qed

lemma cuckoo_find_new:
  assumes "cuckoo_inv hash t" "homes_locked hash key t" "key \<notin> fst ` set (entries (view hash t))"
  shows "cuckoo_find key (partial_key (hash key)) (home1 hash (table_hp t) key) (home2 hash (table_hp t) key) t = Some None"
proof -
  have "\<not> at_key hash key t i s" for i s
  proof
    assume "at_key hash key t i s"
    then obtain v where "(key, v, partial_key (hash key)) \<in> set (entries (view hash t))" using at_key_entry [OF assms(1)] by blast
    then show False using assms(3) by (metis fst_conv image_eqI)
  qed
  then show ?thesis using cuckoo_find_ok [OF assms(1,2)] by (auto split: option.splits)
qed

end
