(* ===== verification/Cuckoo_Insert.thy ===== *)
theory Cuckoo_Insert
  imports Cuckoo_Grow
begin

text \<open>
  The place for a key: \<open>cuckoo_insert\<close> and its loop with the doubling of the table, and the changes of
  one slot that the operations make there.
\<close>

subsection \<open>The place for a key\<close>

definition pos_ok :: "('k \<Rightarrow> u64) \<Rightarrow> 'k \<Rightarrow> ('k, 'v) cuckoo \<Rightarrow> position \<Rightarrow> bool" where
  "pos_ok hash key t pos = (case pos of
     Free i s \<Rightarrow> (i = home1 hash (table_hp t) key \<or> i = home2 hash (table_hp t) key) \<and> s < SLOT_PER_BUCKET \<and>
       view hash t ! unat i ! s = None \<and> key \<notin> fst ` set (entries (view hash t))
   | Duplicated i s \<Rightarrow> at_key hash key t i s
   | TableFull \<Rightarrow> key \<notin> fst ` set (entries (view hash t)))"

lemma moves_keys: "moves hash t t' \<Longrightarrow> fst ` set (entries (view hash t')) = fst ` set (entries (view hash t))"
  unfolding moves_def using mset_eq_setD by metis

lemma moves_locked: "moves hash t t' \<Longrightarrow> homes_locked hash key t \<Longrightarrow> homes_locked hash key t'"
  by (simp add: moves_def homes_locked_def)

lemma moves_refl: "cuckoo_inv hash t \<Longrightarrow> moves hash t t"
  by (simp add: moves_def)

lemma cuckoo_insert_ok:
  assumes inv: "cuckoo_inv hash t" and locks: "homes_locked hash key t"
  shows "\<exists>pos t'. cuckoo_insert (Suc n) hash key (home1 hash (table_hp t) key) (home2 hash (table_hp t) key) t = Some (pos, t') \<and>
    moves hash t t' \<and> pos_ok hash key t' pos"
proof -
  let ?i1 = "home1 hash (table_hp t) key" and ?i2 = "home2 hash (table_hp t) key" and ?p = "partial_key (hash key)"
  let ?b1 = "view hash t ! unat ?i1" and ?b2 = "view hash t ! unat ?i2"
  note B1 = home_bucket [OF inv locks, of ?i1, simplified] and B2 = home_bucket [OF inv locks, of ?i2, simplified]
  note refl = moves_refl [OF inv]
  show ?thesis
  proof (cases "try_find_insert_bucket ?b1 ?p key")
    case (Inl s)
    then show ?thesis using B1 try_find_Inl [OF Inl] refl by (auto simp: cuckoo_insert_def pos_ok_def at_key_def)
  next
    case r1: (Inr res1)
    show ?thesis
    proof (cases "try_find_insert_bucket ?b2 ?p key")
      case (Inl s)
      then show ?thesis using r1 B1 B2 try_find_Inl [OF Inl] refl by (auto simp: cuckoo_insert_def pos_ok_def at_key_def)
    next
      case r2: (Inr res2)
      have new: "key \<notin> fst ` set (entries (view hash t))"
        unfolding key_in_table [OF inv] using try_find_Inr [OF r1] try_find_Inr [OF r2] by blast
      show ?thesis
      proof (cases "res1 = None \<and> res2 = None")
        case False
        then show ?thesis using r1 r2 B1 B2 try_find_Inr [OF r1] try_find_Inr [OF r2] refl new
          by (auto simp: cuckoo_insert_def pos_ok_def split: option.splits)
      next
        case True
        have "migrated t (lock_of ?i1)" "migrated t (lock_of ?i2)" using locks by (simp_all add: homes_locked_def)
        then obtain r t1 where run: "run_cuckoo (Suc n) hash ?i1 ?i2 t = Some (r, t1)" and m: "moves hash t t1" and
          r: "\<forall>pos. r = Some pos \<longrightarrow> free_slot hash ?i1 ?i2 t1 pos"
          using run_cuckoo_ok [OF inv, of ?i1 ?i2 n] by fastforce
        have M: "cuckoo_inv hash t1" "table_hp t1 = table_hp t" using m by (simp_all add: moves_def)
        have new1: "key \<notin> fst ` set (entries (view hash t1))" using new moves_keys [OF m] by simp
        show ?thesis
        proof (cases r)
          case None
          then show ?thesis using True r1 r2 B1 B2 run m new1 by (auto simp: cuckoo_insert_def pos_ok_def)
        next
          case (Some pos)
          have "cuckoo_find key ?p ?i1 ?i2 t1 = Some None"
            using cuckoo_find_new [OF M(1) moves_locked [OF m locks] new1] M(2) by simp
          moreover have "get_bucket (tbl_buckets t1) (fst pos) = Some (view hash t1 ! unat (fst pos)) \<and> length (view hash t1 ! unat (fst pos)) = SLOT_PER_BUCKET"
            using home_bucket(2,3) [OF M(1) moves_locked [OF m locks], of "fst pos"] r Some M(2) by (auto simp: free_slot_def)
          ultimately show ?thesis using True Some r1 r2 B1 B2 run m r new1 M
            by (cases pos) (auto simp: cuckoo_insert_def pos_ok_def free_slot_def Let_def simp flip: home1_def home2_def)
        qed
      qed
    qed
  qed
qed

subsection \<open>The loop with the doubling\<close>

text \<open>The table may also grow.\<close>

definition same_entries :: "('k \<Rightarrow> u64) \<Rightarrow> ('k, 'v) cuckoo \<Rightarrow> ('k, 'v) cuckoo \<Rightarrow> bool" where
  "same_entries hash t t' \<longleftrightarrow> cuckoo_inv hash t' \<and> mset (entries (view hash t')) = mset (entries (view hash t))"

lemma same_entriesD:
  assumes "same_entries hash t t'"
  shows "cuckoo_inv hash t'" "fst ` set (entries (view hash t')) = fst ` set (entries (view hash t))"
    and "length (entries (view hash t')) = length (entries (view hash t))"
  using assms mset_eq_setD mset_eq_length unfolding same_entries_def by (blast, metis, blast)

lemma same_entries_trans: "same_entries hash t t' \<Longrightarrow> same_entries hash t' t'' \<Longrightarrow> same_entries hash t t''"
  by (simp add: same_entries_def)

lemma moves_same_entries: "moves hash t t' \<Longrightarrow> same_entries hash t t'"
  by (simp add: moves_def same_entries_def)

text \<open>A table that is loaded enough to grow has a hashpower of at most 61, with at most \<open>2 ^ 53\<close> entries.\<close>

lemma load_bound:
  assumes "\<not> load_factor_too_low t" "cuckoo_size t \<le> 2 ^ 53"
  shows "Suc (table_hp t) < 64"
proof -
  have "3602879701896397 * int (capacity t) \<le> cuckoo_size t * 2 ^ 56" using assms(1) by (simp add: load_factor_too_low_def)
  also have "\<dots> \<le> 2 ^ 53 * 2 ^ 56" using assms(2) by (intro mult_right_mono) simp_all
  finally have "3602879701896397 * 4 * (2 :: int) ^ table_hp t \<le> 2 ^ 109" by (simp add: capacity_def SLOT_PER_BUCKET_def)
  then have "2 ^ 53 * (2 :: int) ^ table_hp t < 2 ^ 109" by (auto intro: less_le_trans [rotated])
  then have "(2 :: int) ^ (53 + table_hp t) < 2 ^ 109" by (simp only: power_add)
  then have "53 + table_hp t < 109" by (rule power_less_imp_less_exp [rotated]) simp
  then show ?thesis by simp
qed

lemma double_same_entries:
  assumes inv: "cuckoo_inv hash t" and load: "\<not> load_factor_too_low t" and size: "cuckoo_size t \<le> 2 ^ 53"
  shows "\<exists>t'. cuckoo_fast_double hash t = Some (Done t') \<and> same_entries hash t t' \<and> table_hp t' = Suc (table_hp t)"
proof -
  have hp: "Suc (table_hp t) < 64" using load_bound [OF load size] .
  obtain t' where t': "cuckoo_fast_double hash t = Some (Done t')" "lazy_ok hash t'" "table_hp t' = Suc (table_hp t)"
    "view hash t' = double_buckets hash (table_hp t) (view hash t)" "cuckoo_size t' = cuckoo_size t"
    using cuckoo_fast_double_ok [OF inv load hp] by blast
  have "flat_inv hash (table_hp t') (view hash t')" unfolding t'(3,4) using inv hp by (intro flat_inv_double) (simp_all add: cuckoo_inv_def)
  moreover have "mset (entries (view hash t')) = mset (entries (view hash t))" unfolding t'(4) by (rule entries_double)
  ultimately have "same_entries hash t t'" using t'(2,5) inv mset_eq_length by (fastforce simp: same_entries_def cuckoo_inv_def)
  then show ?thesis using t' by blast
qed

lemma snapshot_ok:
  assumes "cuckoo_inv hash t"
  shows "\<exists>t'. snapshot_and_lock_two hash (hash key) t = Some (home1 hash (table_hp t') key, home2 hash (table_hp t') key, t') \<and>
    taken hash t {} t' \<and> homes_locked hash key t'"
proof -
  note D = cuckoo_invD [OF assms]
  have "unat (home1 hash (table_hp t) key) < 2 ^ table_hp t" "unat (home2 hash (table_hp t) key) < 2 ^ table_hp t"
    using D(6) by (simp_all add: unat_index_less)
  then obtain t' where t': "lock_two hash (home1 hash (table_hp t) key) (home2 hash (table_hp t) key) t = Some t'"
    "taken hash t {lock_of (home1 hash (table_hp t) key), lock_of (home2 hash (table_hp t) key)} t'"
    using lock_two_taken [OF D(1)] by blast
  have "homes_locked hash key t'" using t'(2) takenD(3) [OF t'(2)] by (simp add: homes_locked_def taken_def)
  then show ?thesis using t' takenD(3) [OF t'(2)] taken_subset [OF t'(2), of "{}"]
    by (auto simp: snapshot_and_lock_two_def Let_def home1_def home2_def intro!: exI [of _ t'])
qed

text \<open>The loop ends: each round but the last doubles the table.\<close>

lemma cuckoo_insert_loop_ok:
  assumes "cuckoo_inv hash t" "homes_locked hash key t" "cuckoo_size t \<le> 2 ^ 53" "64 \<le> n + table_hp t"
  shows "\<exists>r. cuckoo_insert_loop n hash key (home1 hash (table_hp t) key) (home2 hash (table_hp t) key) t = Some r \<and>
    (case r of LoadFactorTooLow \<Rightarrow> key \<notin> fst ` set (entries (view hash t))
     | Done (pos, t') \<Rightarrow> pos \<noteq> TableFull \<and> same_entries hash t t' \<and> homes_locked hash key t' \<and> pos_ok hash key t' pos)"
  using assms
proof (induction n arbitrary: t)
  case 0
  then show ?case using cuckoo_invD(6) [of hash t] by simp
next
  case (Suc n)
  obtain pos t1 where run: "cuckoo_insert (Suc n) hash key (home1 hash (table_hp t) key) (home2 hash (table_hp t) key) t = Some (pos, t1)"
    and m: "moves hash t t1" and pos: "pos_ok hash key t1 pos"
    using cuckoo_insert_ok [OF Suc.prems(1,2)] by blast
  note k1 = moves_same_entries [OF m] and l1 = moves_locked [OF m Suc.prems(2)]
  have M: "cuckoo_inv hash t1" "table_hp t1 = table_hp t" using m by (simp_all add: moves_def)
  show ?case
  proof (cases "pos = TableFull")
    case False
    then show ?thesis using run k1 l1 pos by (cases pos) auto
  next
    case full: True
    have size: "cuckoo_size t1 \<le> 2 ^ 53" using Suc.prems(1,3) M(1) same_entriesD(3) [OF k1] by (simp add: cuckoo_inv_def)
    show ?thesis
    proof (cases "load_factor_too_low t1")
      case True
      then show ?thesis using run full pos same_entriesD(2) [OF k1] cuckoo_invD(7) [OF M(1)] by (simp add: cuckoo_fast_double_def pos_ok_def)
    next
      case False
      obtain t2 where t2: "cuckoo_fast_double hash t1 = Some (Done t2)" "same_entries hash t1 t2" "table_hp t2 = Suc (table_hp t1)"
        using double_same_entries [OF M(1) False size] by blast
      obtain t3 where t3: "snapshot_and_lock_two hash (hash key) t2 = Some (home1 hash (table_hp t3) key, home2 hash (table_hp t3) key, t3)"
        "taken hash t2 {} t3" "homes_locked hash key t3" using snapshot_ok [OF same_entriesD(1) [OF t2(2)]] by blast
      have m3: "moves hash t2 t3" using taken_moves [OF same_entriesD(1) [OF t2(2)] t3(2)] .
      have k3: "same_entries hash t t3" using same_entries_trans [OF k1 same_entries_trans [OF t2(2) moves_same_entries [OF m3]]] .
      have "cuckoo_size t3 \<le> 2 ^ 53" using Suc.prems(1,3) same_entriesD [OF k3] by (simp add: cuckoo_inv_def)
      moreover have "64 \<le> n + table_hp t3" using Suc.prems(4) m3 t2(3) M(2) by (simp add: moves_def)
      ultimately obtain r where r: "cuckoo_insert_loop n hash key (home1 hash (table_hp t3) key) (home2 hash (table_hp t3) key) t3 = Some r"
        "case r of LoadFactorTooLow \<Rightarrow> key \<notin> fst ` set (entries (view hash t3))
         | Done (pos, t') \<Rightarrow> pos \<noteq> TableFull \<and> same_entries hash t3 t' \<and> homes_locked hash key t' \<and> pos_ok hash key t' pos"
        using Suc.IH [OF same_entriesD(1) [OF k3] t3(3)] by blast
      then show ?thesis using run full t2(1) t3(1) same_entriesD(2) [OF k3] same_entries_trans [OF k3] by (cases r) auto
    qed
  qed
qed

end
