(* ===== verification/Cuckoo_Map.thy ===== *)
theory Cuckoo_Map
  imports Cuckoo_Insert
begin

text \<open>
  The operations of libcuckoo on a table as operations on the map from keys to values that the table
  stands for.
\<close>

definition table_map :: "('k \<Rightarrow> u64) \<Rightarrow> ('k, 'v) cuckoo \<Rightarrow> 'k \<rightharpoonup> 'v" where
  "table_map hash t = kv_map (entries (view hash t))"

lemma table_map_None: "table_map hash t key = None \<longleftrightarrow> key \<notin> fst ` set (entries (view hash t))"
  unfolding table_map_def by (rule kv_map_None)

lemma same_entries_map: "cuckoo_inv hash t \<Longrightarrow> same_entries hash t t' \<Longrightarrow> table_map hash t' = table_map hash t"
  unfolding table_map_def same_entries_def using kv_map_mset cuckoo_invD(5) by metis

subsection \<open>Changing one slot\<close>

lemma sum_list_add:
  fixes xs :: "int list"
  shows "k < length xs \<Longrightarrow> sum_list (xs[k := xs ! k + d]) = sum_list xs + d"
proof (induction xs arbitrary: k)
  case (Cons x xs)
  then show ?case by (cases k) simp_all
qed simp

lemma count_at_ok:
  assumes "lazy_ok hash t" "unat i < 2 ^ table_hp t"
  shows "\<exists>t'. count_at d i t = Some t' \<and> lazy_ok hash t' \<and> view hash t' = view hash t \<and> table_hp t' = table_hp t \<and>
    migrated t' = migrated t \<and> cuckoo_size t' = cuckoo_size t + d"
proof -
  let ?l = "lock_of i"
  let ?locks = "(tbl_locks t)[?l := (tbl_locks t ! ?l)\<lparr>elem_counter := elem_counter (tbl_locks t ! ?l) + d\<rparr>]"
  let ?t = "t\<lparr>tbl_locks := ?locks\<rparr>"
  have l: "?l < length (tbl_locks t)" using lock_bound [OF assms] .
  have same: "map is_migrated ?locks = map is_migrated (tbl_locks t)"
    using list_update_id [of "map is_migrated (tbl_locks t)" ?l] l by (simp add: map_update)
  have mig: "migrated ?t = migrated t"
    using l by (auto simp: migrated_def fun_eq_iff nth_list_update)
  have "length (filter (Not \<circ> is_migrated) ?locks) = length (filter (Not \<circ> is_migrated) (tbl_locks t))"
    using arg_cong [OF same, of "\<lambda>xs. length (filter Not xs)"] by (simp only: filter_map length_map)
  then have "lazy_count ?t" using assms(1) by (simp add: lazy_ok_def lazy_count_def comp_def)
  moreover have "lazy_inv hash ?t" using assms(1) unfolding lazy_ok_def lazy_inv_def mig by (simp add: old_ok_def)
  moreover have "view hash ?t = view hash t" unfolding view_def bucket_view_def mig by simp
  moreover have "cuckoo_size ?t = cuckoo_size t + d"
    using l sum_list_add [of ?l "map elem_counter (tbl_locks t)" d] by (simp add: cuckoo_size_def map_update)
  moreover have "count_at d i t = Some ?t" using l by (simp add: count_at_def Let_def)
  ultimately show ?thesis using mig by (intro exI [of _ ?t]) (simp add: lazy_ok_def)
qed

lemma add_to_bucket_ok:
  assumes inv: "cuckoo_inv hash t" and locks: "homes_locked hash key t" and pos: "pos_ok hash key t (Free i s)"
  shows "\<exists>t'. add_to_bucket i s (partial_key (hash key)) key val t = Some t' \<and> cuckoo_inv hash t' \<and> table_map hash t' = (table_map hash t)(key \<mapsto> val)"
proof -
  let ?e = "(key, val, partial_key (hash key))" and ?bs = "view hash t"
  note D = cuckoo_invD [OF inv]
  have P: "i = home1 hash (table_hp t) key \<or> i = home2 hash (table_hp t) key" "s < SLOT_PER_BUCKET" "?bs ! unat i ! s = None" "key \<notin> fst ` set (entries ?bs)"
    using pos by (simp_all add: pos_ok_def)
  note B = home_bucket [OF inv locks P(1)]
  obtain c where c: "setKV i s (partial_key (hash key)) key val (tbl_buckets t) = Some c" and
    tc: "t\<lparr>tbl_buckets := c\<rparr> = put_bucket (unat i) ((?bs ! unat i)[s := Some ?e]) t"
    using setKV_put [OF D(1) B(1,4) P(2,3)] by blast
  note T = put_slot [OF D(1) B(1,4) tc]
  obtain t' where t': "count_at 1 i (t\<lparr>tbl_buckets := c\<rparr>) = Some t'" "lazy_ok hash t'" "view hash t' = view hash (t\<lparr>tbl_buckets := c\<rparr>)"
    "table_hp t' = table_hp t" "cuckoo_size t' = cuckoo_size t + 1"
    using count_at_ok [OF T(1), of i 1] B(1) T by auto
  have ent: "mset (entries (view hash t')) = add_mset ?e (mset (entries ?bs))" unfolding t'(3) T(2) using B P by (intro entries_fill) simp_all
  note K = kv_map_add [OF ent D(5) P(4)]
  have "entry_ok hash (table_hp t) i ?e" using P(1) by (simp add: entry_ok_def)
  then have "shape (table_hp t) (view hash t')" "placed hash (table_hp t) (view hash t')"
    unfolding t'(3) T(2) using flat_update [OF D(3,4) B(1), of "Some ?e" s] by simp_all
  then have "cuckoo_inv hash t'" using t' K D(7) by (simp add: cuckoo_inv_def flat_inv_def)
  then show ?thesis using c t'(1) K(2) by (simp add: add_to_bucket_def table_map_def)
qed

lemma at_key_map:
  assumes inv: "cuckoo_inv hash t" and locks: "homes_locked hash key t" and pos: "at_key hash key t i s"
  shows "\<exists>v. mapped i s t = Some v \<and> table_map hash t key = Some v"
proof -
  obtain v where v: "view hash t ! unat i ! s = Some (key, v, partial_key (hash key))" "s < length (view hash t ! unat i)"
    "(key, v, partial_key (hash key)) \<in> set (entries (view hash t))"
    using at_key_entry [OF inv pos] by blast
  have "table_map hash t key = Some v" unfolding table_map_def kv_map_Some [OF cuckoo_invD(5) [OF inv]] using v(3) by blast
  moreover have "get_bucket (tbl_buckets t) i = Some (view hash t ! unat i)" using home_bucket(2) [OF inv locks] pos by (simp add: at_key_def)
  ultimately show ?thesis using v by (simp add: mapped_def)
qed

text \<open>The entry of a key, and the table without it.\<close>

lemma at_key_removed:
  assumes inv: "cuckoo_inv hash t" and pos: "at_key hash key t i s"
  defines "bs \<equiv> (view hash t)[unat i := (view hash t ! unat i)[s := None]]"
  shows "shape (table_hp t) bs" "placed hash (table_hp t) bs" "distinct_keys (entries bs)" "key \<notin> fst ` set (entries bs)"
    and "kv_map (entries bs) = (table_map hash t)(key := None)" "length (entries (view hash t)) = Suc (length (entries bs))"
proof -
  note D = cuckoo_invD [OF inv]
  obtain v where v: "view hash t ! unat i ! s = Some (key, v, partial_key (hash key))" "unat i < 2 ^ table_hp t" "s < length (view hash t ! unat i)"
    using at_key_entry [OF inv pos] by blast
  have "mset (entries (view hash t)) = add_mset (key, v, partial_key (hash key)) (mset (entries bs))"
    unfolding bs_def using v by (intro entries_free) simp_all
  note K = kv_map_remove [OF this D(5)]
  show "distinct_keys (entries bs)" "key \<notin> fst ` set (entries bs)" "kv_map (entries bs) = (table_map hash t)(key := None)"
    "length (entries (view hash t)) = Suc (length (entries bs))" using K by (simp_all add: table_map_def)
  show "shape (table_hp t) bs" "placed hash (table_hp t) bs" unfolding bs_def using flat_update [OF D(3,4) v(2), of None s] by simp_all
qed

lemma del_from_bucket_ok:
  assumes inv: "cuckoo_inv hash t" and locks: "homes_locked hash key t" and pos: "at_key hash key t i s"
  shows "\<exists>t'. del_from_bucket i s t = Some t' \<and> cuckoo_inv hash t' \<and> table_map hash t' = (table_map hash t)(key := None)"
proof -
  let ?bs = "view hash t"
  note D = cuckoo_invD [OF inv] and R = at_key_removed [OF inv pos]
  have P: "i = home1 hash (table_hp t) key \<or> i = home2 hash (table_hp t) key" "s < SLOT_PER_BUCKET" "?bs ! unat i ! s \<noteq> None"
    using pos by (auto simp: at_key_def)
  note B = home_bucket [OF inv locks P(1)]
  obtain c where c: "eraseKV i s (tbl_buckets t) = Some c" and tc: "t\<lparr>tbl_buckets := c\<rparr> = put_bucket (unat i) ((?bs ! unat i)[s := None]) t"
    using eraseKV_put [OF D(1) B(1,4) P(2,3)] by blast
  note T = put_slot [OF D(1) B(1,4) tc]
  obtain t' where t': "count_at (-1) i (t\<lparr>tbl_buckets := c\<rparr>) = Some t'" "lazy_ok hash t'" "view hash t' = view hash (t\<lparr>tbl_buckets := c\<rparr>)"
    "table_hp t' = table_hp t" "cuckoo_size t' = cuckoo_size t - 1"
    using count_at_ok [OF T(1), of i "-1"] B(1) T by auto
  have "cuckoo_inv hash t'" using t' T(2) R D(7) by (simp add: cuckoo_inv_def flat_inv_def)
  then show ?thesis using c t'(1,3) T(2) R(5) by (simp add: del_from_bucket_def table_map_def)
qed

lemma set_mapped_ok:
  assumes inv: "cuckoo_inv hash t" and locks: "homes_locked hash key t" and pos: "at_key hash key t i s"
  shows "\<exists>t'. set_mapped i s val t = Some t' \<and> cuckoo_inv hash t' \<and> homes_locked hash key t' \<and> at_key hash key t' i s \<and>
    table_map hash t' = (table_map hash t)(key \<mapsto> val)"
proof -
  let ?bs = "view hash t" and ?e = "(key, val, partial_key (hash key))"
  let ?t = "put_bucket (unat i) ((?bs ! unat i)[s := Some ?e]) t" and ?rest = "?bs[unat i := (?bs ! unat i)[s := None]]"
  note D = cuckoo_invD [OF inv] and R = at_key_removed [OF inv pos]
  obtain v where v: "?bs ! unat i ! s = Some (key, v, partial_key (hash key))" "s < length (?bs ! unat i)"
    using at_key_entry [OF inv pos] by blast
  have P: "i = home1 hash (table_hp t) key \<or> i = home2 hash (table_hp t) key" using pos by (auto simp: at_key_def)
  note B = home_bucket [OF inv locks P] and T = put_slot [OF D(1) home_bucket(1,4) [OF inv locks P] refl, of s "Some ?e"]
  have run: "set_mapped i s val t = Some ?t" using v B by (simp add: set_mapped_def put_bucket_def)
  have "mset (entries (view hash ?t)) = add_mset ?e (mset (entries ?rest))"
    unfolding T(2) using entries_fill [of "unat i" ?rest s ?e] B v(2) by simp
  note K = kv_map_add [OF this R(3,4)]
  have "shape (table_hp t) (view hash ?t)" "placed hash (table_hp t) (view hash ?t)"
    unfolding T(2) using flat_update [OF D(3,4) B(1), of "Some ?e" s] P by (simp_all add: entry_ok_def)
  then have "cuckoo_inv hash ?t" using T K R(6) D(7) by (simp add: cuckoo_inv_def flat_inv_def)
  moreover have "table_map hash ?t = (table_map hash t)(key \<mapsto> val)" using K(2) R(5) by (simp add: table_map_def)
  moreover have "homes_locked hash key ?t" using locks by (simp add: homes_locked_def)
  moreover have "at_key hash key ?t i s" using pos v(2) B(1) T(2) by (auto simp: at_key_def)
  ultimately show ?thesis using run by blast
qed

subsection \<open>The operations\<close>

text \<open>\<open>find_fn\<close>, \<open>update_fn\<close> and \<open>erase_fn\<close> begin with the same search.\<close>

lemma locate_ok:
  assumes "cuckoo_inv hash t"
  shows "\<exists>pos t'. locate hash key t = Some (pos, t') \<and> cuckoo_inv hash t' \<and> table_map hash t' = table_map hash t \<and> homes_locked hash key t' \<and>
    (case pos of None \<Rightarrow> table_map hash t key = None | Some (i, s) \<Rightarrow> at_key hash key t' i s)"
proof -
  obtain t' where t': "snapshot_and_lock_two hash (hash key) t = Some (home1 hash (table_hp t') key, home2 hash (table_hp t') key, t')"
    "taken hash t {} t'" "homes_locked hash key t'" using snapshot_ok [OF assms] by blast
  have k: "same_entries hash t t'" using moves_same_entries [OF taken_moves [OF assms t'(2)]] .
  obtain r where r: "cuckoo_find key (partial_key (hash key)) (home1 hash (table_hp t') key) (home2 hash (table_hp t') key) t' = Some r"
    "case r of None \<Rightarrow> key \<notin> fst ` set (entries (view hash t')) | Some (i, s) \<Rightarrow> at_key hash key t' i s"
    using cuckoo_find_ok [OF same_entriesD(1) [OF k] t'(3)] by blast
  have "table_map hash t key = None \<longleftrightarrow> key \<notin> fst ` set (entries (view hash t'))" unfolding table_map_None same_entriesD(2) [OF k] ..
  then show ?thesis using t' r same_entries_map [OF assms k] same_entriesD(1) [OF k] by (cases r) (auto simp: locate_def)
qed

lemma find_fn_ok:
  assumes "cuckoo_inv hash t"
  shows "\<exists>t'. find_fn hash key t = Some (table_map hash t key, t') \<and> cuckoo_inv hash t' \<and> table_map hash t' = table_map hash t"
proof -
  obtain pos t' where p: "locate hash key t = Some (pos, t')" "cuckoo_inv hash t'" "table_map hash t' = table_map hash t" "homes_locked hash key t'"
    "case pos of None \<Rightarrow> table_map hash t key = None | Some (i, s) \<Rightarrow> at_key hash key t' i s"
    using locate_ok [OF assms] by blast
  then show ?thesis using at_key_map [OF p(2,4)] by (cases pos) (fastforce simp: find_fn_def)+
qed

lemma update_fn_ok:
  assumes "cuckoo_inv hash t"
  shows "\<exists>t'. update_fn hash key fn t = Some (table_map hash t key \<noteq> None, t') \<and> cuckoo_inv hash t' \<and>
    table_map hash t' = (table_map hash t)(key := map_option fn (table_map hash t key))"
proof -
  obtain pos t' where p: "locate hash key t = Some (pos, t')" "cuckoo_inv hash t'" "table_map hash t' = table_map hash t" "homes_locked hash key t'"
    "case pos of None \<Rightarrow> table_map hash t key = None | Some (i, s) \<Rightarrow> at_key hash key t' i s"
    using locate_ok [OF assms] by blast
  show ?thesis
  proof (cases pos)
    case None
    then show ?thesis using p by (auto simp: update_fn_def)
  next
    case (Some pos)
    then obtain i s where i: "pos = (i, s)" "at_key hash key t' i s" using p(5) by (cases pos) simp
    obtain v where "mapped i s t' = Some v" "table_map hash t key = Some v" using at_key_map [OF p(2,4) i(2)] p(3) by auto
    then show ?thesis using p(1,3) Some i(1) set_mapped_ok [OF p(2,4) i(2), of "fn v"] by (auto simp: update_fn_def)
  qed
qed

text \<open>The value after a function of \<open>erase_fn\<close> or \<open>uprase_fn\<close>.\<close>

definition erased :: "('v \<Rightarrow> bool \<times> 'v) \<Rightarrow> 'v \<Rightarrow> 'v option" where
  "erased fn v = (if fst (fn v) then None else Some (snd (fn v)))"

lemma apply_erase_ok:
  assumes "cuckoo_inv hash t" "homes_locked hash key t" "at_key hash key t i s"
  shows "\<exists>t' v. apply_erase fn i s t = Some t' \<and> cuckoo_inv hash t' \<and> table_map hash t key = Some v \<and>
    table_map hash t' = (table_map hash t)(key := erased fn v)"
proof -
  obtain v where v: "mapped i s t = Some v" "table_map hash t key = Some v" using at_key_map [OF assms] by blast
  obtain t1 where t1: "set_mapped i s (snd (fn v)) t = Some t1" "cuckoo_inv hash t1" "homes_locked hash key t1" "at_key hash key t1 i s"
    "table_map hash t1 = (table_map hash t)(key \<mapsto> snd (fn v))" using set_mapped_ok [OF assms] by blast
  then show ?thesis using v del_from_bucket_ok [OF t1(2-4)] by (auto simp: apply_erase_def erased_def)
qed

lemma erase_fn_ok:
  assumes "cuckoo_inv hash t"
  shows "\<exists>t'. erase_fn hash key fn t = Some (table_map hash t key \<noteq> None, t') \<and> cuckoo_inv hash t' \<and>
    table_map hash t' = (table_map hash t)(key := Option.bind (table_map hash t key) (erased fn))"
proof -
  obtain pos t' where p: "locate hash key t = Some (pos, t')" "cuckoo_inv hash t'" "table_map hash t' = table_map hash t" "homes_locked hash key t'"
    "case pos of None \<Rightarrow> table_map hash t key = None | Some (i, s) \<Rightarrow> at_key hash key t' i s"
    using locate_ok [OF assms] by blast
  show ?thesis
  proof (cases pos)
    case None
    then show ?thesis using p by (auto simp: erase_fn_def)
  next
    case (Some pos)
    then obtain i s where i: "pos = (i, s)" "at_key hash key t' i s" using p(5) by (cases pos) simp
    then show ?thesis using p(1,3) Some apply_erase_ok [OF p(2,4) i(2), of fn] by (auto simp: erase_fn_def)
  qed
qed

text \<open>
  Inserting, with at most \<open>2 ^ 53\<close> entries and enough fuel for 64 doublings. The exception
  \<open>libcuckoo_load_factor_too_low\<close> leaves the call only for a key that is not there.
\<close>

lemma uprase_fn_ok:
  assumes inv: "cuckoo_inv hash t" and size: "cuckoo_size t \<le> 2 ^ 53" and fuel: "64 \<le> n"
  shows "\<exists>r. uprase_fn n hash key fn val t = Some r \<and>
    (case r of LoadFactorTooLow \<Rightarrow> table_map hash t key = None
     | Done (new, t') \<Rightarrow> cuckoo_inv hash t' \<and> new = (table_map hash t key = None) \<and>
         table_map hash t' = (table_map hash t)(key := case table_map hash t key of None \<Rightarrow> Some val | Some v \<Rightarrow> erased fn v))"
proof -
  obtain t1 where t1: "snapshot_and_lock_two hash (hash key) t = Some (home1 hash (table_hp t1) key, home2 hash (table_hp t1) key, t1)"
    "taken hash t {} t1" "homes_locked hash key t1" using snapshot_ok [OF inv] by blast
  have k1: "same_entries hash t t1" using moves_same_entries [OF taken_moves [OF inv t1(2)]] .
  note m1 = same_entries_map [OF inv k1]
  have "cuckoo_size t1 \<le> 2 ^ 53" using size takenD(4) [OF t1(2)] by simp
  moreover have "64 \<le> n + table_hp t1" using fuel by simp
  ultimately obtain r where r: "cuckoo_insert_loop n hash key (home1 hash (table_hp t1) key) (home2 hash (table_hp t1) key) t1 = Some r"
    "case r of LoadFactorTooLow \<Rightarrow> key \<notin> fst ` set (entries (view hash t1))
     | Done (pos, t') \<Rightarrow> pos \<noteq> TableFull \<and> same_entries hash t1 t' \<and> homes_locked hash key t' \<and> pos_ok hash key t' pos"
    using cuckoo_insert_loop_ok [OF same_entriesD(1) [OF k1] t1(3)] by blast
  show ?thesis
  proof (cases r)
    case LoadFactorTooLow
    then have "table_map hash t key = None" using r(2) table_map_None [of hash t1 key] m1 by simp
    then show ?thesis using t1(1) r(1) LoadFactorTooLow by (simp add: uprase_fn_def)
  next
    case (Done a)
    then obtain pos t2 where a: "r = Done (pos, t2)" by (cases a) simp
    then have P: "pos \<noteq> TableFull" "same_entries hash t1 t2" "homes_locked hash key t2" "pos_ok hash key t2 pos" using r(2) by simp_all
    have m2: "table_map hash t2 = table_map hash t" using same_entries_map [OF same_entriesD(1) [OF k1] P(2)] m1 by simp
    note inv2 = same_entriesD(1) [OF P(2)]
    show ?thesis
    proof (cases pos)
      case (Free i s)
      then have "table_map hash t key = None" using P(4) table_map_None [of hash t2 key] m2 by (simp add: pos_ok_def)
      then show ?thesis using t1(1) r(1) a Free add_to_bucket_ok [OF inv2 P(3), of i s val] P(4) m2 by (auto simp: uprase_fn_def)
    next
      case (Duplicated i s)
      then show ?thesis using t1(1) r(1) a apply_erase_ok [OF inv2 P(3), of i s fn] P(4) m2 by (auto simp: uprase_fn_def pos_ok_def)
    qed (use P(1) in simp)
  qed
qed

end
