(* ===== verification/Hash_Table.thy ===== *)
theory Hash_Table
  imports Cuckoo_Map Client_State
begin

text \<open>
  The three tables of \<open>hash_table.cc\<close> over libcuckoo. The client's state has them as maps
  (\<open>Client_State\<close>); the interface \<open>string_table\<close> states what the functions of \<open>hash_table.cc\<close> rely
  on, and libcuckoo's tables of strings meet it.
\<close>

subsection \<open>New and cleared tables\<close>

lemma blog2_from_bound: "buckets \<le> 2 ^ k \<Longrightarrow> i \<le> k \<Longrightarrow> blog2_from buckets i \<le> k"
proof (induction buckets i rule: blog2_from.induct)
  case (1 buckets i)
  then show ?case
  proof (cases "2 ^ i < buckets")
    case True
    then have "i \<noteq> k" using 1(2) by auto
    then show ?thesis using 1 True by (simp add: blog2_from.simps [of buckets i])
  qed (simp add: blog2_from.simps [of buckets i])
qed

lemma blog2_from_enough: "buckets \<le> 2 ^ blog2_from buckets i"
  by (induction buckets i rule: blog2_from.induct) (subst blog2_from.simps, simp)

lemma blog2_from_least: "i \<le> j \<Longrightarrow> j < blog2_from buckets i \<Longrightarrow> 2 ^ j < buckets"
proof (induction buckets i rule: blog2_from.induct)
  case (1 buckets i)
  then show ?case by (cases "i = j") (auto simp: blog2_from.simps [of buckets i] blog2_from.simps [of buckets j] split: if_splits)
qed

lemma reserve_calc_bound:
  assumes "n \<le> 2 ^ 63"
  shows "reserve_calc n < 64"
proof -
  have "(n + SLOT_PER_BUCKET - 1) div SLOT_PER_BUCKET \<le> 2 ^ 63" using assms by (simp add: SLOT_PER_BUCKET_def)
  then have "reserve_calc n \<le> 63" unfolding reserve_calc_def by (rule blog2_from_bound) simp
  then show ?thesis by simp
qed

text \<open>A table whose buckets are all empty and whose locks are as new.\<close>

lemma empty_table_inv:
  assumes "table_hp t < 64" "bucket_arr (tbl_buckets t) = replicate (2 ^ table_hp t) empty_bucket"
    and "tbl_locks t = replicate (min (2 ^ table_hp t) kMaxNumLocks) new_lock" "tbl_lazy t = 0"
  shows "cuckoo_inv hash t" "table_map hash t = Map.empty" "cuckoo_size t = 0"
proof -
  have shape: "shape (table_hp t) (bucket_arr (tbl_buckets t))" using assms(1,2) by (auto simp: shape_def empty_bucket_def)
  have mig: "migrated t l" if "l < length (tbl_locks t)" for l using that by (simp add: assms(3) migrated_def new_lock_def)
  have inv: "lazy_inv hash t" using shape mig by (auto simp: lazy_inv_def assms(2,3))
  have count: "lazy_count t" by (simp add: lazy_count_def assms(3,4) new_lock_def)
  have view: "view hash t = bucket_arr (tbl_buckets t)" using view_all_migrated [OF inv] mig by blast
  have ent: "entries (view hash t) = []" unfolding view assms(2) empty_bucket_def by simp
  show size: "cuckoo_size t = 0" by (simp add: cuckoo_size_def assms(3) new_lock_def sum_list_replicate)
  have "placed hash (table_hp t) (view hash t)" unfolding view placed_def by (auto simp: assms(2) empty_bucket_def)
  then show "cuckoo_inv hash t" using inv count shape ent size by (simp add: cuckoo_inv_def lazy_ok_def flat_inv_def view)
  show "table_map hash t = Map.empty" by (simp add: table_map_def ent)
qed

lemma new_table_inv:
  assumes "n \<le> 2 ^ 63"
  shows "cuckoo_inv hash (cuckoohash_map n)" "table_map hash (cuckoohash_map n) = Map.empty" "cuckoo_size (cuckoohash_map n :: ('k, 'v) cuckoo) = 0"
  using reserve_calc_bound [OF assms] empty_table_inv [of "cuckoohash_map n"]
  by (simp_all add: cuckoohash_map_def new_container_def Let_def)

lemma clear_inv:
  assumes "cuckoo_inv hash t"
  shows "cuckoo_inv hash (cuckoo_clear t)" "table_map hash (cuckoo_clear t) = Map.empty" "cuckoo_size (cuckoo_clear t) = 0"
proof -
  have inv: "lazy_inv hash t" "table_hp t < 64" using cuckoo_invD [OF assms] by simp_all
  have "map (map (\<lambda>_. None)) (bucket_arr (tbl_buckets t)) = replicate (2 ^ table_hp t) empty_bucket"
    using inv(1) by (intro replicate_eqI) (auto simp: lazy_inv_def shape_def empty_bucket_def map_replicate_const)
  moreover have "length (tbl_locks t) = min (2 ^ table_hp t) kMaxNumLocks" using inv(1) by (simp add: lazy_inv_def)
  ultimately have c: "table_hp (cuckoo_clear t) < 64" "bucket_arr (tbl_buckets (cuckoo_clear t)) = replicate (2 ^ table_hp (cuckoo_clear t)) empty_bucket"
    "tbl_locks (cuckoo_clear t) = replicate (min (2 ^ table_hp (cuckoo_clear t)) kMaxNumLocks) new_lock" "tbl_lazy (cuckoo_clear t) = 0"
    using inv(2) by (simp_all add: cuckoo_clear_def set_lazy_def clear_buckets_def map_replicate_const)
  show "cuckoo_inv hash (cuckoo_clear t)" "table_map hash (cuckoo_clear t) = Map.empty" "cuckoo_size (cuckoo_clear t) = 0"
    using empty_table_inv [OF c] by simp_all
qed

lemma size_card:
  assumes "cuckoo_inv hash t"
  shows "cuckoo_size t = int (card (dom (table_map hash t)))"
proof -
  note D = cuckoo_invD [OF assms]
  have "dom (table_map hash t) = fst ` set (entries (view hash t))" unfolding dom_def table_map_None by simp
  moreover have "card (fst ` set (entries (view hash t))) = length (entries (view hash t))"
    using distinct_card [OF D(5)] by simp
  ultimately show ?thesis using D(7) by simp
qed

subsection \<open>The functions of \<open>hash_table.cc\<close>\<close>

text \<open>
  \<open>pdirht_put\<close>, \<open>pdirht_get\<close> and \<open>pdirht_clean\<close>; those of the other two tables are the same. An
  exception of libcuckoo leaves the function, which nothing catches.
\<close>

definition cuckoo_put :: "nat \<Rightarrow> (string \<Rightarrow> u64) \<Rightarrow> string \<Rightarrow> int \<Rightarrow> (string, int) cuckoo \<Rightarrow> (string, int) cuckoo outcome option" where
  "cuckoo_put n hash key val t = do {
     r \<leftarrow> insert_kv n hash key val t;
     Some (case r of LoadFactorTooLow \<Rightarrow> LoadFactorTooLow | Done (_, t) \<Rightarrow> Done t)
   }"

definition cuckoo_get :: "(string \<Rightarrow> u64) \<Rightarrow> string \<Rightarrow> (string, int) cuckoo \<Rightarrow> (int \<times> (string, int) cuckoo) option" where
  "cuckoo_get hash key t = do {
     (r, t) \<leftarrow> find_fn hash key t;
     Some (case r of Some ret \<Rightarrow> ret | None \<Rightarrow> -1, t)
   }"

text \<open>A sequence of calls on one table: the results, or the exception that ended it.\<close>

datatype table_call = Put string int | Get string | Clean

fun run_calls ::
  "(string \<Rightarrow> int \<Rightarrow> 't \<Rightarrow> 't outcome option) \<Rightarrow> (string \<Rightarrow> 't \<Rightarrow> (int \<times> 't) option) \<Rightarrow> ('t \<Rightarrow> 't) \<Rightarrow>
   table_call list \<Rightarrow> 't \<Rightarrow> (int list \<times> 't) outcome option" where
  "run_calls put get clean [] t = Some (Done ([], t))"
| "run_calls put get clean (Put k v # calls) t = do {
     r \<leftarrow> put k v t;
     (case r of LoadFactorTooLow \<Rightarrow> Some LoadFactorTooLow
      | Done t \<Rightarrow> do {
          r \<leftarrow> run_calls put get clean calls t;
          Some (case r of LoadFactorTooLow \<Rightarrow> LoadFactorTooLow | Done (rs, t) \<Rightarrow> Done (0 # rs, t))
        })
   }"
| "run_calls put get clean (Get k # calls) t = do {
     (ret, t) \<leftarrow> get k t;
     r \<leftarrow> run_calls put get clean calls t;
     Some (case r of LoadFactorTooLow \<Rightarrow> LoadFactorTooLow | Done (rs, t) \<Rightarrow> Done (ret # rs, t))
   }"
| "run_calls put get clean (Clean # calls) t = run_calls put get clean calls (clean t)"

text \<open>The same calls on a map, as the client's model makes them.\<close>

fun map_calls :: "table_call list \<Rightarrow> table \<Rightarrow> int list \<times> table" where
  "map_calls [] m = ([], m)"
| "map_calls (Put k v # calls) m = (let (rs, m') = map_calls calls (ht_insert m k v) in (0 # rs, m'))"
| "map_calls (Get k # calls) m = (let (rs, m') = map_calls calls m in (ht_get m k # rs, m'))"
| "map_calls (Clean # calls) m = map_calls calls Map.empty"

locale string_table =
  fixes ok :: "'t \<Rightarrow> bool" and abs_table :: "'t \<Rightarrow> table" and load :: "'t \<Rightarrow> nat" and limit :: nat
    and put :: "string \<Rightarrow> int \<Rightarrow> 't \<Rightarrow> 't outcome option" and get :: "string \<Rightarrow> 't \<Rightarrow> (int \<times> 't) option" and clean :: "'t \<Rightarrow> 't"
  assumes put_law: "ok t \<Longrightarrow> load t \<le> limit \<Longrightarrow> put k v t = Some LoadFactorTooLow \<or>
      (\<exists>t'. put k v t = Some (Done t') \<and> ok t' \<and> abs_table t' = ht_insert (abs_table t) k v \<and> load t' \<le> Suc (load t))"
    and get_law: "ok t \<Longrightarrow> \<exists>t'. get k t = Some (ht_get (abs_table t) k, t') \<and> ok t' \<and> abs_table t' = abs_table t \<and> load t' = load t"
    and clean_law: "ok t \<Longrightarrow> ok (clean t) \<and> abs_table (clean t) = Map.empty \<and> load (clean t) = 0"
begin

lemma run_calls_refines:
  "ok t \<Longrightarrow> load t + length calls \<le> limit \<Longrightarrow>
   run_calls put get clean calls t = Some LoadFactorTooLow \<or>
   (\<exists>t'. run_calls put get clean calls t = Some (Done (fst (map_calls calls (abs_table t)), t')) \<and> ok t' \<and>
      abs_table t' = snd (map_calls calls (abs_table t)))"
proof (induction calls arbitrary: t)
  case (Cons call calls)
  show ?case
  proof (cases call)
    case (Put k v)
    show ?thesis
    proof (cases "put k v t = Some LoadFactorTooLow")
      case False
      then obtain t' where t': "put k v t = Some (Done t')" "ok t'" "abs_table t' = ht_insert (abs_table t) k v" "load t' \<le> Suc (load t)"
        using put_law [of t k v] Cons.prems by auto
      have "load t' + length calls \<le> limit" using t'(4) Cons.prems(2) by simp
      from Cons.IH [OF t'(2) this] show ?thesis by (elim disjE exE conjE) (simp_all add: Put t' case_prod_unfold Let_def)
    qed (simp add: Put)
  next
    case (Get k)
    obtain t' where t': "get k t = Some (ht_get (abs_table t) k, t')" "ok t'" "abs_table t' = abs_table t" "load t' = load t"
      using get_law Cons.prems(1) by blast
    have "load t' + length calls \<le> limit" using t'(4) Cons.prems(2) by simp
    from Cons.IH [OF t'(2) this] show ?thesis by (elim disjE exE conjE) (simp_all add: Get t' case_prod_unfold Let_def)
  next
    case Clean
    then show ?thesis using Cons.IH [of "clean t"] Cons.prems clean_law by simp
  qed
qed simp

end

interpretation libcuckoo: string_table "cuckoo_inv hash" "table_map hash" "\<lambda>t. card (dom (table_map hash t))" "2 ^ 53"
  "cuckoo_put 64 hash" "cuckoo_get hash" cuckoo_clear for hash
proof
  fix t :: "(string, int) cuckoo" and k v assume inv: "cuckoo_inv hash t" and load: "card (dom (table_map hash t)) \<le> 2 ^ 53"
  have "cuckoo_size t \<le> int (2 ^ 53)" unfolding size_card [OF inv] using load by (simp only: of_nat_le_iff)
  then have size: "cuckoo_size t \<le> 2 ^ 53" by simp
  obtain r where r: "insert_kv 64 hash k v t = Some r"
    "case r of LoadFactorTooLow \<Rightarrow> table_map hash t k = None
     | Done (new, t') \<Rightarrow> cuckoo_inv hash t' \<and> new = (table_map hash t k = None) \<and>
         table_map hash t' = (table_map hash t)(k := case table_map hash t k of None \<Rightarrow> Some v | Some v' \<Rightarrow> erased (\<lambda>v. (False, v)) v')"
    using uprase_fn_ok [OF inv size, of 64 k "\<lambda>v. (False, v)" v] by (auto simp: cuckoo_ops)
  have "card (dom (ht_insert (table_map hash t) k v)) \<le> Suc (card (dom (table_map hash t)))"
    by (auto simp: ht_insert_def card_insert_if split: option.split intro: card_insert_le_m1)
  then show "cuckoo_put 64 hash k v t = Some LoadFactorTooLow \<or>
      (\<exists>t'. cuckoo_put 64 hash k v t = Some (Done t') \<and> cuckoo_inv hash t' \<and> table_map hash t' = ht_insert (table_map hash t) k v \<and>
        card (dom (table_map hash t')) \<le> Suc (card (dom (table_map hash t))))"
    using r by (auto simp: cuckoo_put_def ht_insert_def erased_def fun_upd_idem split: outcome.splits option.splits)
next
  fix t :: "(string, int) cuckoo" and k assume "cuckoo_inv hash t"
  then show "\<exists>t'. cuckoo_get hash k t = Some (ht_get (table_map hash t) k, t') \<and> cuckoo_inv hash t' \<and> table_map hash t' = table_map hash t \<and>
      card (dom (table_map hash t')) = card (dom (table_map hash t))"
    using find_fn_ok [of hash t k] by (auto simp: cuckoo_get_def ht_get_def)
next
  fix t :: "(string, int) cuckoo" assume "cuckoo_inv hash t"
  then show "cuckoo_inv hash (cuckoo_clear t) \<and> table_map hash (cuckoo_clear t) = Map.empty \<and> card (dom (table_map hash (cuckoo_clear t))) = 0"
    by (simp add: clear_inv)
qed

end
