(* ===== verification/Cuckoo_Thms.thy ===== *)
theory Cuckoo_Thms
  imports Hash_Table
begin

text \<open>
  The properties of libcuckoo's table: it refines a map, its invariant holds in every reachable state,
  and the search for a cuckoo path, the moves along it, the doubling and the late move of the buckets
  do what the operations need of them.
\<close>

subsection \<open>Concrete tables\<close>

text \<open>A hash of strings, and a table with two buckets of which the first is full.\<close>

definition toy_hash :: "string \<Rightarrow> u64" where
  "toy_hash k = of_nat (length k)"

definition toy_table :: "(string, int) cuckoo" where
  "toy_table = \<lparr>tbl_buckets = \<lparr>hashpower = 1, bucket_arr =
       [[Some (''ad'', 4, 2), Some (''ac'', 3, 2), Some (''ab'', 2, 2), Some (''aa'', 1, 2)], [None, None, None, None]]\<rparr>,
     tbl_old = \<lparr>hashpower = 0, bucket_arr = [[None, None, None, None]]\<rparr>,
     tbl_locks = [\<lparr>elem_counter = 4, is_migrated = True\<rparr>, \<lparr>elem_counter = 0, is_migrated = True\<rparr>], tbl_lazy = 0\<rparr>"

lemma bind_weak_cong: "m = m' \<Longrightarrow> Option.bind m f = Option.bind m' f"
  by simp

lemma empty_bucket_eval: "empty_bucket = [None, None, None, None]"
  by (simp add: empty_bucket_def SLOT_PER_BUCKET_def numeral_eq_Suc)

lemma fuel_64: "Suc 63 = 64"
  by simp

lemma replicate_two: "replicate 2 x = [x, x]"
  by (simp add: numeral_2_eq_2)

lemmas insert_loop_64 = cuckoo_insert_loop.simps(2) [of 63, unfolded fuel_64]

lemma partial_key_eval: "partial_key 2 = 2"
  by (simp add: partial_key_def drop_bit_eq_div)

lemmas cuckoo_eval = cuckoo_put_def cuckoo_get_def cuckoo_ops uprase_fn_def find_fn_def locate_def snapshot_and_lock_two_def lock_two_def
  rehash_lock_def cuckoo_insert_def try_find_insert_bucket_def try_read_from_bucket_def cuckoo_find_def add_to_bucket_def apply_erase_def
  set_mapped_def mapped_def count_at_def setKV_def get_bucket_def cuckoo_clear_def clear_buckets_def new_lock_def set_lazy_def
  SLOT_PER_BUCKET_def index_hash_take alt_index_take lock_ind_take toy_hash_def Let_def insert_loop_64

lemmas new_eval = cuckoohash_map_def new_container_def empty_bucket_eval new_lock_def reserve_calc_def blog2_from.simps
  SLOT_PER_BUCKET_def kMaxNumLocks_def Let_def

lemma new_1: "cuckoohash_map 1 = \<lparr>tbl_buckets = \<lparr>hashpower = 0, bucket_arr = [[None, None, None, None]]\<rparr>,
   tbl_old = \<lparr>hashpower = 0, bucket_arr = [[None, None, None, None]]\<rparr>, tbl_locks = [\<lparr>elem_counter = 0, is_migrated = True\<rparr>], tbl_lazy = 0\<rparr>"
  by (simp add: new_eval)

lemma new_5: "cuckoohash_map 5 = \<lparr>tbl_buckets = \<lparr>hashpower = 1, bucket_arr = [[None, None, None, None], [None, None, None, None]]\<rparr>,
   tbl_old = \<lparr>hashpower = 0, bucket_arr = [[None, None, None, None]]\<rparr>,
   tbl_locks = [\<lparr>elem_counter = 0, is_migrated = True\<rparr>, \<lparr>elem_counter = 0, is_migrated = True\<rparr>], tbl_lazy = 0\<rparr>"
  by (simp add: new_eval replicate_two)

lemma toy_table_calls:
  "run_calls (cuckoo_put 64 toy_hash) (cuckoo_get toy_hash) cuckoo_clear [Put ''aa'' 1, Put ''ab'' 2, Put ''ac'' 3, Put ''ad'' 4] (cuckoohash_map 5) =
     Some (Done ([0, 0, 0, 0], toy_table))"
  unfolding new_5 by (simp add: cuckoo_eval partial_key_eval toy_table_def cong: bind_weak_cong)

lemma toy_table_inv: "cuckoo_inv toy_hash toy_table"
  "table_map toy_hash toy_table = snd (map_calls [Put ''aa'' 1, Put ''ab'' 2, Put ''ac'' 3, Put ''ad'' 4] Map.empty)"
proof -
  have "cuckoo_inv toy_hash (cuckoohash_map 5 :: (string, int) cuckoo)" "table_map toy_hash (cuckoohash_map 5 :: (string, int) cuckoo) = Map.empty"
    using new_table_inv [of 5] by simp_all
  then show "cuckoo_inv toy_hash toy_table"
    "table_map toy_hash toy_table = snd (map_calls [Put ''aa'' 1, Put ''ab'' 2, Put ''ac'' 3, Put ''ad'' 4] Map.empty)"
    using libcuckoo.run_calls_refines [of toy_hash "cuckoohash_map 5" "[Put ''aa'' 1, Put ''ab'' 2, Put ''ac'' 3, Put ''ad'' 4]"]
    unfolding toy_table_calls by simp_all
qed

lemma toy_table_size: "cuckoo_size toy_table = 4"
  by (simp add: cuckoo_size_def toy_table_def)

subsection \<open>The tables refine maps\<close>

text \<open>
  C12: A table of \<open>hash_table.cc\<close> answers every sequence of \<open>put\<close>, \<open>get\<close> and \<open>clean\<close> calls as the map of
  the client's model does, and ends with the entries of that map, unless libcuckoo throws
  \<open>libcuckoo_load_factor_too_low\<close>: no assertion of libcuckoo fails, no array is left, and every call
  returns.
\<close>

theorem hash_table_calls_refine_map:
  assumes "n \<le> 2 ^ 63" "length calls \<le> 2 ^ 53"
  shows "run_calls (cuckoo_put 64 hash) (cuckoo_get hash) cuckoo_clear calls (cuckoohash_map n) = Some LoadFactorTooLow \<or>
    (\<exists>t. run_calls (cuckoo_put 64 hash) (cuckoo_get hash) cuckoo_clear calls (cuckoohash_map n) =
         Some (Done (fst (map_calls calls Map.empty), t)) \<and> table_map hash t = snd (map_calls calls Map.empty))"
proof -
  have inv: "cuckoo_inv hash (cuckoohash_map n :: (string, int) cuckoo)" and "table_map hash (cuckoohash_map n :: (string, int) cuckoo) = Map.empty"
    using new_table_inv [OF assms(1)] by blast+
  then show ?thesis using libcuckoo.run_calls_refines [OF inv, of calls] assms(2) by auto
qed

theorem hash_table_calls_refine_map_witness:
  "\<exists>t. run_calls (cuckoo_put 64 toy_hash) (cuckoo_get toy_hash) cuckoo_clear
      [Put ''/w'' 3, Put ''/w'' 4, Get ''/w'', Clean, Get ''/w''] (cuckoohash_map 1) = Some (Done ([0, 0, 3, -1], t)) \<and>
    table_map toy_hash t = Map.empty"
  using hash_table_calls_refine_map [of 1 "[Put ''/w'' 3, Put ''/w'' 4, Get ''/w'', Clean, Get ''/w'']" toy_hash]
  unfolding new_1 by (simp add: cuckoo_eval ht_get_def ht_insert_def cong: bind_weak_cong)

text \<open>
  C13: \<open>insert\<close> ends: with at most \<open>2 ^ 53\<close> entries it grows the table at most 64 times. It gives the key
  the value if the key is not there, leaves the value otherwise, tells which of the two it was, and
  throws only for a new key.
\<close>

theorem insert_ends:
  assumes "cuckoo_inv hash t" "cuckoo_size t \<le> 2 ^ 53" "64 \<le> n"
  shows "insert_kv n hash key val t = Some LoadFactorTooLow \<and> table_map hash t key = None \<or>
    (\<exists>t'. insert_kv n hash key val t = Some (Done (table_map hash t key = None, t')) \<and> cuckoo_inv hash t' \<and>
       table_map hash t' = (case table_map hash t key of None \<Rightarrow> (table_map hash t)(key \<mapsto> val) | Some _ \<Rightarrow> table_map hash t))"
proof -
  obtain r where r: "insert_kv n hash key val t = Some r"
    "case r of LoadFactorTooLow \<Rightarrow> table_map hash t key = None
     | Done (new, t') \<Rightarrow> cuckoo_inv hash t' \<and> new = (table_map hash t key = None) \<and>
         table_map hash t' = (table_map hash t)(key := case table_map hash t key of None \<Rightarrow> Some val | Some v \<Rightarrow> erased (\<lambda>v. (False, v)) v)"
    using uprase_fn_ok [OF assms, of key "\<lambda>v. (False, v)" val] by (auto simp: cuckoo_ops)
  then show ?thesis by (cases r) (auto simp: erased_def fun_upd_idem split: option.split)
qed

theorem insert_ends_witness:
  "\<exists>t. insert_kv 64 toy_hash ''ac'' 7 toy_table = Some (Done (False, t)) \<and> table_map toy_hash t ''ac'' = Some 3"
  using insert_ends [OF toy_table_inv(1), of 64 "''ac''" 7]
  by (auto simp: toy_table_size toy_table_inv(2) ht_insert_def)

text \<open>The states that the operations reach from a new table.\<close>

inductive cuckoo_reach :: "('k \<Rightarrow> u64) \<Rightarrow> ('k, 'v) cuckoo \<Rightarrow> bool" for hash where
  reach_new: "n \<le> 2 ^ 63 \<Longrightarrow> cuckoo_reach hash (cuckoohash_map n)"
| reach_find: "cuckoo_reach hash t \<Longrightarrow> find_fn hash key t = Some (r, t') \<Longrightarrow> cuckoo_reach hash t'"
| reach_update: "cuckoo_reach hash t \<Longrightarrow> update_fn hash key fn t = Some (b, t') \<Longrightarrow> cuckoo_reach hash t'"
| reach_erase: "cuckoo_reach hash t \<Longrightarrow> erase_fn hash key fe t = Some (b, t') \<Longrightarrow> cuckoo_reach hash t'"
| reach_insert: "cuckoo_reach hash t \<Longrightarrow> cuckoo_size t \<le> 2 ^ 53 \<Longrightarrow> uprase_fn 64 hash key fe val t = Some (Done (b, t')) \<Longrightarrow> cuckoo_reach hash t'"
| reach_clear: "cuckoo_reach hash t \<Longrightarrow> cuckoo_reach hash (cuckoo_clear t)"

lemma cuckoo_reach_inv: "cuckoo_reach hash t \<Longrightarrow> cuckoo_inv hash t"
proof (induction rule: cuckoo_reach.induct)
  case (reach_find t key r t')
  then show ?case using find_fn_ok [OF reach_find.IH, of key] by simp
next
  case (reach_update t key fn b t')
  then show ?case using update_fn_ok [OF reach_update.IH, of key fn] by simp
next
  case (reach_erase t key fe b t')
  then show ?case using erase_fn_ok [OF reach_erase.IH, of key fe] by simp
next
  case (reach_insert t key fe val b t')
  then show ?case using uprase_fn_ok [OF reach_insert.IH reach_insert.hyps(2), of 64 key fe val] by simp
qed (simp_all add: new_table_inv clear_inv)

text \<open>
  C14: In every state that the operations of a table reach, each key is stored once, with its partial
  key, in one of its two buckets (or in the old bucket it still has to be moved from), the arrays and
  the locks have the sizes of the hashpower, and the counters of the locks add up to the number of keys.
\<close>

theorem reachable_table_well_formed:
  assumes "cuckoo_reach hash t"
  shows "shape (table_hp t) (bucket_arr (tbl_buckets t)) \<and> length (tbl_locks t) = min (2 ^ table_hp t) kMaxNumLocks \<and>
    shape (table_hp t) (view hash t) \<and> placed hash (table_hp t) (view hash t) \<and> distinct_keys (entries (view hash t)) \<and>
    cuckoo_size t = int (card (dom (table_map hash t)))"
proof -
  note inv = cuckoo_reach_inv [OF assms]
  note D = cuckoo_invD [OF inv]
  have "shape (table_hp t) (bucket_arr (tbl_buckets t))" "length (tbl_locks t) = min (2 ^ table_hp t) kMaxNumLocks"
    using D(2) unfolding lazy_inv_def by blast+
  then show ?thesis using D(3-5) size_card [OF inv] by blast
qed

theorem reachable_table_well_formed_witness:
  "\<exists>t. uprase_fn 64 toy_hash ''ab'' (\<lambda>v. (False, v)) (5 :: int) (cuckoohash_map 1) = Some (Done (True, t)) \<and>
    placed toy_hash 0 (view toy_hash t) \<and> cuckoo_size t = 1 \<and> card (dom (table_map toy_hash t)) = 1"
proof -
  let ?t = "\<lparr>tbl_buckets = \<lparr>hashpower = 0, bucket_arr = [[None, None, None, Some (''ab'', 5 :: int, 2)]]\<rparr>,
    tbl_old = \<lparr>hashpower = 0, bucket_arr = [[None, None, None, None]]\<rparr>, tbl_locks = [\<lparr>elem_counter = 1, is_migrated = True\<rparr>], tbl_lazy = 0\<rparr>"
  have run: "uprase_fn 64 toy_hash ''ab'' (\<lambda>v. (False, v)) (5 :: int) (cuckoohash_map 1) = Some (Done (True, ?t))"
    unfolding new_1 by (simp add: cuckoo_eval partial_key_eval cong: bind_weak_cong)
  have "cuckoo_reach toy_hash ?t"
    by (rule reach_insert [OF reach_new [of 1] _ run]) (simp, unfold new_1, simp add: cuckoo_size_def)
  from reachable_table_well_formed [OF this] show ?thesis unfolding run by (simp add: cuckoo_size_def)
qed

text \<open>
  \<open>find\<close> gives the value the map has for the key, also when the key is still in an old bucket, and
  changes the map in no key, whatever buckets it moves on the way.
\<close>

theorem find_gives_the_value:
  assumes "cuckoo_inv hash t"
  shows "\<exists>t'. find_fn hash key t = Some (table_map hash t key, t') \<and> cuckoo_inv hash t' \<and> table_map hash t' = table_map hash t"
  using assms by (rule find_fn_ok)

theorem find_gives_the_value_witness:
  "\<exists>t. find_fn toy_hash ''ac'' toy_table = Some (Some 3, t) \<and> table_map toy_hash t ''ad'' = Some 4"
  using find_gives_the_value [OF toy_table_inv(1), of "''ac''"] by (auto simp: toy_table_inv(2) ht_insert_def)

subsection \<open>Growing and moving\<close>

text \<open>
  C15: The doubling of a table keeps every entry with its key and value, and adds one to the hashpower:
  the new table has the two halves of each bucket, and the entries that have to be moved later are seen
  in their new bucket already.
\<close>

theorem doubling_keeps_entries:
  assumes "cuckoo_inv hash t" "\<not> load_factor_too_low t" "cuckoo_size t \<le> 2 ^ 53"
  shows "\<exists>t'. cuckoo_fast_double hash t = Some (Done t') \<and> cuckoo_inv hash t' \<and> table_hp t' = Suc (table_hp t) \<and>
    table_map hash t' = table_map hash t \<and> view hash t' = double_buckets hash (table_hp t) (view hash t)"
proof -
  have hp: "Suc (table_hp t) < 64" using load_bound [OF assms(2,3)] .
  obtain t' where t': "cuckoo_fast_double hash t = Some (Done t')" "same_entries hash t t'" "table_hp t' = Suc (table_hp t)"
    using double_same_entries [OF assms] by blast
  moreover have "view hash t' = double_buckets hash (table_hp t) (view hash t)" using cuckoo_fast_double_ok [OF assms(1,2) hp] t'(1) by auto
  ultimately show ?thesis using same_entries_map [OF assms(1) t'(2)] same_entriesD(1) [OF t'(2)] by blast
qed

theorem doubling_keeps_entries_witness:
  "\<exists>t. cuckoo_fast_double toy_hash toy_table = Some (Done t) \<and> table_hp t = 2 \<and> table_map toy_hash t ''ab'' = Some 2"
proof -
  have load: "\<not> load_factor_too_low toy_table" and hp: "table_hp toy_table = 1"
    by (simp_all add: load_factor_too_low_def toy_table_size capacity_def SLOT_PER_BUCKET_def) (simp_all add: toy_table_def)
  from doubling_keeps_entries [OF toy_table_inv(1) load] show ?thesis
    by (auto simp: toy_table_size hp toy_table_inv(2) ht_insert_def)
qed

text \<open>
  C16: Taking the lock of a bucket finishes the late move of all buckets below it: the call returns, the
  lock is marked as migrated and no lock loses its mark, every bucket below the lock, in the lower and
  in the upper half of the doubled table, holds from then on what the view of the table shows there,
  and the view, and with it the entries of the table, is unchanged.
\<close>

theorem lock_moves_its_buckets:
  assumes "cuckoo_inv hash t" "unat i < 2 ^ table_hp t"
  shows "\<exists>t'. lock_one hash i t = Some t' \<and> cuckoo_inv hash t' \<and> view hash t' = view hash t \<and>
    is_migrated (tbl_locks t' ! unat (lock_ind i)) \<and>
    (\<forall>l. is_migrated (tbl_locks t ! l) \<longrightarrow> is_migrated (tbl_locks t' ! l)) \<and>
    (\<forall>j. unat j < 2 ^ table_hp t \<and> lock_ind j = lock_ind i \<longrightarrow> get_bucket (tbl_buckets t') j = Some (view hash t ! unat j))"
proof -
  obtain t' where t': "lock_one hash i t = Some t'" "taken hash t {lock_of i} t'"
    using lock_one_taken [OF cuckoo_invD(1) [OF assms(1)] assms(2)] by blast
  have "get_bucket (tbl_buckets t') j = Some (view hash t ! unat j)" if "unat j < 2 ^ table_hp t" "lock_ind j = lock_ind i" for j
    using that taken_bucket [OF t'(2), of j] by simp
  moreover have "is_migrated (tbl_locks t' ! lock_of i)" "\<forall>l. is_migrated (tbl_locks t ! l) \<longrightarrow> is_migrated (tbl_locks t' ! l)"
    using t'(2) by (simp_all add: taken_def settles_def migrated_def)
  ultimately show ?thesis using t'(1) taken_moves [OF assms(1) t'(2)] takenD(2) [OF t'(2)] by (simp add: moves_def)
qed

text \<open>
  A table of \<open>2 ^ 17\<close> buckets just after a late doubling: all locks have buckets to move, and the one
  entry is in the first old bucket and belongs into the upper half of the new ones.
\<close>

definition far_hash :: "string \<Rightarrow> u64" where
  "far_hash k = 65536"

definition far_bucket :: "(string, int) bucket" where
  "far_bucket = [Some (''ab'', 2, partial_key 65536), None, None, None]"

definition far_table :: "(string, int) cuckoo" where
  "far_table = \<lparr>tbl_buckets = new_container 17, tbl_old = \<lparr>hashpower = 16, bucket_arr = far_bucket # replicate (2 ^ 16 - 1) empty_bucket\<rparr>,
     tbl_locks = \<lparr>elem_counter = 1, is_migrated = False\<rparr> # replicate (kMaxNumLocks - 1) \<lparr>elem_counter = 0, is_migrated = False\<rparr>,
     tbl_lazy = kMaxNumLocks\<rparr>"

lemma far_old:
  "shape 16 (far_bucket # replicate (2 ^ 16 - 1) empty_bucket)" "placed far_hash 16 (far_bucket # replicate (2 ^ 16 - 1) empty_bucket)"
proof -
  show "shape 16 (far_bucket # replicate (2 ^ 16 - 1) empty_bucket)"
    by (auto simp: shape_def far_bucket_def empty_bucket_def SLOT_PER_BUCKET_def)
  have "entry_ok far_hash 16 0 (''ab'', 2, partial_key 65536)"
    by (simp add: entry_ok_def home1_def far_hash_def index_hash_take take_bit_eq_mod)
  then show "placed far_hash 16 (far_bucket # replicate (2 ^ 16 - 1) empty_bucket)"
    by (auto simp: placed_def nth_Cons far_bucket_def empty_bucket_eval split: nat.splits)
qed

lemma far_goes_up: "goes_up far_hash 16 0 (''ab'', 2, partial_key 65536)"
  by (simp add: goes_up_def home1_def far_hash_def index_hash_take take_bit_eq_mod hashsize_def push_bit_eq_mult)

lemma far_entries: "entries (far_bucket # replicate (2 ^ 16 - 1) empty_bucket) = [(''ab'', 2, partial_key 65536)]"
proof -
  have "concat (replicate n []) = []" for n by (induction n) simp_all
  then show ?thesis by (simp add: entries_def far_bucket_def empty_bucket_eval map_replicate_const)
qed

lemma far_table_facts:
  "cuckoo_inv far_hash far_table" "table_hp far_table = 17"
  "view far_hash far_table = double_buckets far_hash 16 (far_bucket # replicate (2 ^ 16 - 1) empty_bucket)"
proof -
  let ?bs = "far_bucket # replicate (2 ^ 16 - 1) empty_bucket"
  have len: "length (tbl_locks far_table) = kMaxNumLocks" by (simp add: far_table_def kMaxNumLocks_def)
  have mig: "\<forall>l < length (tbl_locks far_table). \<not> migrated far_table l"
    by (auto simp: far_table_def migrated_def nth_Cons kMaxNumLocks_def split: nat.splits)
  have old: "tbl_old far_table = \<lparr>hashpower = 16, bucket_arr = ?bs\<rparr>" "tbl_buckets far_table = new_container (Suc 16)"
    "tbl_lazy far_table = kMaxNumLocks" by (simp_all add: far_table_def)
  have "length (tbl_locks far_table) = min (2 ^ Suc 16) kMaxNumLocks" using len by (simp add: kMaxNumLocks_def)
  note L = doubled_lazily [OF _ _ _ _ _ old(1,2) this mig, where hash = far_hash]
  have D: "lazy_ok far_hash far_table" "view far_hash far_table = double_buckets far_hash 16 ?bs"
    using L far_old len old(3) by simp_all
  have hp: "table_hp far_table = Suc 16" by (simp add: far_table_def new_container_def)
  then show "table_hp far_table = 17" by simp
  show "view far_hash far_table = double_buckets far_hash 16 ?bs" by (rule D(2))
  have "flat_inv far_hash 16 ?bs" using far_old far_entries by (simp add: flat_inv_def)
  then have "flat_inv far_hash (Suc 16) (double_buckets far_hash 16 ?bs)" by (rule flat_inv_double) simp
  moreover have "length (entries (double_buckets far_hash 16 ?bs)) = 1"
    using entries_double [of far_hash 16 ?bs] far_entries by (metis One_nat_def length_Cons list.size(3) size_mset)
  moreover have "cuckoo_size far_table = 1" by (simp add: cuckoo_size_def far_table_def sum_list_replicate)
  ultimately show "cuckoo_inv far_hash far_table" using D hp by (simp add: cuckoo_inv_def)
qed

lemma far_view: "view far_hash far_table ! 65536 = far_bucket"
proof -
  let ?bs = "far_bucket # replicate (2 ^ 16 - 1) (empty_bucket :: (string, int) bucket)"
  have "length ?bs = 65536" by simp
  then have "view far_hash far_table ! 65536 = high_bucket far_hash 16 (of_nat 0) (?bs ! 0)"
    using double_nth(2) [of 0 ?bs far_hash 16] far_table_facts(3) by simp
  then show ?thesis using far_goes_up by (simp add: high_bucket_def high_entries_def far_bucket_def numeral_3_eq_3)
qed

theorem lock_moves_its_buckets_witness:
  "\<exists>t. lock_one far_hash 0 far_table = Some t \<and> \<not> is_migrated (tbl_locks far_table ! 0) \<and> is_migrated (tbl_locks t ! 0) \<and>
    get_bucket (tbl_buckets far_table) 65536 = Some empty_bucket \<and> get_bucket (tbl_buckets t) 65536 = Some far_bucket"
proof -
  have l: "lock_ind 65536 = 0" "lock_ind 0 = 0" by (simp_all add: lock_ind_take take_bit_eq_mod)
  have "get_bucket (tbl_buckets far_table) 65536 = Some empty_bucket" "\<not> is_migrated (tbl_locks far_table ! 0)"
    by (simp_all add: far_table_def new_container_def get_bucket_def)
  then show ?thesis using lock_moves_its_buckets [OF far_table_facts(1), of 0] far_view l far_table_facts(2) by auto
qed

subsection \<open>The search for a place\<close>

text \<open>
  C18: \<open>slot_search\<close> ends within its queue of 682 entries. It fails only if every bucket that at most
  four displacements reach is full; otherwise it gives the slots of a walk from one of the two buckets to
  a free slot, and no shorter walk ends in a bucket with a free slot.
\<close>

theorem slot_search_shortest:
  assumes "cuckoo_inv hash t" "take_bit (table_hp t) i1 = i1" "take_bit (table_hp t) i2 = i2"
  shows "\<exists>y t'. slot_search hash (table_hp t) i1 i2 t = Some (y, t') \<and> view hash t' = view hash t \<and>
    (if bs_depth y = -1 then \<forall>n < MAX_BFS_PATH_LEN. \<forall>b \<in> level (table_hp t) (view hash t) i1 i2 n. full (view hash t ! unat b)
     else found_ok (table_hp t) (view hash t) i1 i2 y)"
proof -
  obtain y t' where y: "slot_search hash (table_hp t) i1 i2 t = Some (y, t')" "taken hash t {} t'" "search_ok (table_hp t) (view hash t) i1 i2 y"
    using slot_search_ok [OF cuckoo_invD(1) [OF assms(1)] assms(2,3)] by blast
  then show ?thesis using takenD(2) [OF y(2)] unfolding search_ok_def by blast
qed

theorem slot_search_shortest_witness:
  "\<exists>y t. slot_search toy_hash 1 0 0 toy_table = Some (y, t) \<and> view toy_hash t = view toy_hash toy_table"
proof -
  have "table_hp toy_table = 1" by (simp add: toy_table_def)
  then show ?thesis using slot_search_shortest [OF toy_table_inv(1), of 0 0] by auto
qed

text \<open>
  C17: \<open>run_cuckoo\<close> needs one round: the path that the search found can be moved as it is, which frees a
  slot in one of the two buckets and changes no key's value; without a path nothing moves and every
  bucket in reach is full.
\<close>

theorem run_cuckoo_one_round:
  assumes "cuckoo_inv hash t" "take_bit (table_hp t) i1 = i1" "take_bit (table_hp t) i2 = i2"
    and "migrated t (lock_of i1)" "migrated t (lock_of i2)"
  shows "\<exists>r t'. run_cuckoo (Suc n) hash i1 i2 t = Some (r, t') \<and> cuckoo_inv hash t' \<and> table_map hash t' = table_map hash t \<and>
    (case r of None \<Rightarrow> \<forall>n < MAX_BFS_PATH_LEN. \<forall>b \<in> level (table_hp t) (view hash t) i1 i2 n. full (view hash t ! unat b)
     | Some pos \<Rightarrow> free_slot hash i1 i2 t' pos)"
proof -
  obtain r t' where r: "run_cuckoo (Suc n) hash i1 i2 t = Some (r, t')" "moves hash t t'"
    "case r of None \<Rightarrow> \<forall>n < MAX_BFS_PATH_LEN. \<forall>b \<in> level (table_hp t) (view hash t) i1 i2 n. full (view hash t ! unat b)
     | Some pos \<Rightarrow> free_slot hash i1 i2 t' pos"
    using run_cuckoo_ok [OF assms] by blast
  have "same_entries hash t t'" using moves_same_entries [OF r(2)] .
  then show ?thesis using r(1,3) same_entries_map [OF assms(1)] same_entriesD(1) by blast
qed

theorem run_cuckoo_one_round_witness:
  "\<exists>r t. run_cuckoo 1 toy_hash 0 0 toy_table = Some (r, t) \<and> table_map toy_hash t ''aa'' = Some 1"
proof -
  have "migrated toy_table (lock_of 0)" by (simp add: migrated_def toy_table_def lock_ind_take)
  then show ?thesis using run_cuckoo_one_round [OF toy_table_inv(1), of 0 0 0] by (auto simp: toy_table_inv(2) ht_insert_def)
qed

text \<open>
  C40: A path code of 16 bits holds the start and the slots of every path of at most five slots:
  \<open>cuckoopath_search\<close> gets them back in order.
\<close>

theorem path_code_roundtrip:
  assumes "set ss \<subseteq> {..<SLOT_PER_BUCKET}" "c < 2" "length ss \<le> MAX_BFS_PATH_LEN"
  shows "path_slots (length ss) (of_nat (path_code c ss)) [] = (ss, of_nat c)"
  using path_slots_code [OF assms, of "[]"] by simp

theorem path_code_roundtrip_witness: "path_slots 5 2047 [] = ([3, 3, 3, 3, 3], 1)"
proof -
  have "length [3, 3, 3, 3, 3 :: nat] = 5" and "of_nat (path_code 1 [3, 3, 3, 3, 3]) = (2047 :: 16 word)"
    by (simp_all add: path_code_def SLOT_PER_BUCKET_def)
  moreover have "set [3, 3, 3, 3, 3] \<subseteq> {..<SLOT_PER_BUCKET}" "length [3, 3, 3, 3, 3 :: nat] \<le> MAX_BFS_PATH_LEN" by (simp_all add: c_consts)
  ultimately show ?thesis using path_code_roundtrip [of "[3, 3, 3, 3, 3]" 1] by (simp del: path_slots.simps length_Cons list.size)
qed

end
