(* ===== verification/C_Double.thy ===== *)
theory C_Double
  imports Prelude Complex_Main
begin

text \<open>
  The type \<open>double\<close> of C, which cJSON uses for its numbers: binary64 of IEEE 754 with rounding to
  the nearest value, ties to even. A finite value is a rational number, the result of an operation
  is the exact result rounded. The two zeros are not kept apart: no operation modelled here
  separates them. Also the conversion to \<open>int\<close>, undefined outside the range of \<open>int\<close>, and the
  conversions \<open>%f\<close>, \<open>%.0f\<close> and \<open>%e\<close> of \<open>sprintf\<close>, which round the exact value.
\<close>

subsection \<open>Values and rounding\<close>

datatype double = Fin rat | Inf bool | NaN

fun bits :: "nat \<Rightarrow> nat" where
  "bits n = (if n = 0 then 0 else Suc (bits (n div 2)))"

declare bits.simps [simp del]

definition pow2 :: "int \<Rightarrow> rat" where
  "pow2 k = (if 0 \<le> k then 2 ^ nat k else 1 / 2 ^ nat (- k))"

definition round_half_even :: "rat \<Rightarrow> int" where
  "round_half_even q =
     (let f = \<lfloor>q\<rfloor>; r = q - of_int f in if r < 1/2 \<or> (r = 1/2 \<and> even f) then f else f + 1)"

text \<open>
  The exponent of the last place of a value: 53 bits, or the smallest exponent. The quotient of two
  numbers of \<open>i\<close> and \<open>j\<close> bits has \<open>i - j\<close> or \<open>i - j + 1\<close> bits in front of the point.
\<close>

definition last_place :: "rat \<Rightarrow> int" where
  "last_place q =
     (let (a, b) = quotient_of \<bar>q\<bar>;
          d = int (bits (nat a)) - int (bits (nat b));
          k = (if pow2 d \<le> \<bar>q\<bar> then d else d - 1)
      in max (-1074) (k - 52))"

definition round_double :: "rat \<Rightarrow> double" where
  "round_double q =
     (if q = 0 then Fin 0
      else let e = last_place q; v = of_int (round_half_even (q / pow2 e)) * pow2 e
           in if 2 ^ 1024 \<le> \<bar>v\<bar> then Inf (q < 0) else Fin v)"

subsection \<open>Operations\<close>

fun dmul :: "double \<Rightarrow> double \<Rightarrow> double" where
  "dmul (Fin a) (Fin b) = round_double (a * b)"
| "dmul (Inf s) (Inf t) = Inf (s \<noteq> t)"
| "dmul (Inf s) (Fin b) = (if b = 0 then NaN else Inf (s \<noteq> (b < 0)))"
| "dmul (Fin a) (Inf t) = (if a = 0 then NaN else Inf ((a < 0) \<noteq> t))"
| "dmul NaN y = NaN"
| "dmul x NaN = NaN"

fun dadd :: "double \<Rightarrow> double \<Rightarrow> double" where
  "dadd (Fin a) (Fin b) = round_double (a + b)"
| "dadd (Inf s) (Inf t) = (if s = t then Inf s else NaN)"
| "dadd (Inf s) (Fin b) = Inf s"
| "dadd (Fin a) (Inf t) = Inf t"
| "dadd NaN y = NaN"
| "dadd x NaN = NaN"

fun dneg :: "double \<Rightarrow> double" where
  "dneg (Fin a) = Fin (- a)"
| "dneg (Inf s) = Inf (\<not> s)"
| "dneg NaN = NaN"

definition dsub :: "double \<Rightarrow> double \<Rightarrow> double" where
  "dsub x y = dadd x (dneg y)"

fun dabs :: "double \<Rightarrow> double" where
  "dabs (Fin a) = Fin \<bar>a\<bar>"
| "dabs (Inf s) = Inf False"
| "dabs NaN = NaN"

fun dfloor :: "double \<Rightarrow> double" where
  "dfloor (Fin a) = Fin (of_int \<lfloor>a\<rfloor>)"
| "dfloor x = x"

fun dle :: "double \<Rightarrow> double \<Rightarrow> bool" where
  "dle (Fin a) (Fin b) \<longleftrightarrow> a \<le> b"
| "dle (Inf s) (Fin b) \<longleftrightarrow> s"
| "dle (Fin a) (Inf t) \<longleftrightarrow> \<not> t"
| "dle (Inf s) (Inf t) \<longleftrightarrow> s \<or> \<not> t"
| "dle NaN y \<longleftrightarrow> False"
| "dle x NaN \<longleftrightarrow> False"

fun dless :: "double \<Rightarrow> double \<Rightarrow> bool" where
  "dless (Fin a) (Fin b) \<longleftrightarrow> a < b"
| "dless (Inf s) (Fin b) \<longleftrightarrow> s"
| "dless (Fin a) (Inf t) \<longleftrightarrow> \<not> t"
| "dless (Inf s) (Inf t) \<longleftrightarrow> s \<and> \<not> t"
| "dless NaN y \<longleftrightarrow> False"
| "dless x NaN \<longleftrightarrow> False"

definition INT_MIN :: int where [c_consts]: "INT_MIN = - (2 ^ 31)"
definition INT_MAX :: int where [c_consts]: "INT_MAX = 2 ^ 31 - 1"

text \<open>\<open>c_int\<close>: the value of a computation in the type \<open>int\<close>, undefined when it overflows.\<close>

definition c_int :: "int \<Rightarrow> int option" where
  "c_int i = (if INT_MIN \<le> i \<and> i \<le> INT_MAX then Some i else None)"

text \<open>\<open>(int) d\<close> cuts off the fraction.\<close>

fun int_of_double :: "double \<Rightarrow> int option" where
  "int_of_double (Fin a) = c_int (if a < 0 then \<lceil>a\<rceil> else \<lfloor>a\<rfloor>)"
| "int_of_double x = None"

subsection \<open>Printing\<close>

definition pad_zeros :: "nat \<Rightarrow> string \<Rightarrow> string" where
  "pad_zeros k s = replicate (k - length s) (CHR ''0'') @ s"

definition sign_text :: "rat \<Rightarrow> string" where
  "sign_text q = (if q < 0 then ''-'' else [])"

text \<open>\<open>%.<k>f\<close> of a finite value.\<close>

definition show_fixed :: "nat \<Rightarrow> rat \<Rightarrow> string" where
  "show_fixed k q =
     (let s = pad_zeros (k + 1) (show_nat (nat (round_half_even (\<bar>q\<bar> * 10 ^ k)))); w = length s - k
      in sign_text q @ take w s @ (if k = 0 then [] else CHR ''.'' # drop w s))"

text \<open>The decimal exponent of a positive value: below 1 the number of places to the first digit.\<close>

fun leading_zeros :: "nat \<Rightarrow> rat \<Rightarrow> nat" where
  "leading_zeros 0 q = 0"
| "leading_zeros (Suc n) q = (if 1 \<le> q then 0 else Suc (leading_zeros n (q * 10)))"

definition dec_exp :: "rat \<Rightarrow> int" where
  "dec_exp q = (if 1 \<le> q then int (length (show_nat (nat \<lfloor>q\<rfloor>))) - 1 else - int (leading_zeros 400 q))"

text \<open>\<open>%e\<close> of a finite value: seven digits, and an exponent of at least two digits.\<close>

definition show_exp :: "rat \<Rightarrow> string" where
  "show_exp q =
     (if q = 0 then ''0.000000e+00''
      else
        let x = dec_exp \<bar>q\<bar>;
            m = nat (round_half_even (if x \<le> 6 then \<bar>q\<bar> * 10 ^ nat (6 - x) else \<bar>q\<bar> / 10 ^ nat (x - 6)));
            (m, x) = (if 10 ^ 7 \<le> m then (m div 10, x + 1) else (m, x));
            s = show_nat m
        in sign_text q @ take 1 s @ CHR ''.'' # drop 1 s @ CHR ''e'' # (if x < 0 then CHR ''-'' else CHR ''+'') #
             pad_zeros 2 (show_nat (nat \<bar>x\<bar>)))"

text \<open>The sign that is printed for a NaN is not determined.\<close>

fun fmt_double :: "(rat \<Rightarrow> string) \<Rightarrow> double \<Rightarrow> string option" where
  "fmt_double f (Fin a) = Some (f a)"
| "fmt_double f (Inf s) = Some (if s then ''-inf'' else ''inf'')"
| "fmt_double f NaN = None"

subsection \<open>Integers\<close>

lemma bits_bounds: "0 < n \<Longrightarrow> 2 ^ (bits n - 1) \<le> n \<and> n < 2 ^ bits n \<and> 0 < bits n"
proof (induction n rule: bits.induct)
  case (1 n)
  show ?case
  proof (cases "n div 2 = 0")
    case True
    with 1(2) have "n = 1" by simp
    then show ?thesis by (simp add: bits.simps)
  next
    case False
    with 1 have IH: "2 ^ (bits (n div 2) - 1) \<le> n div 2" "n div 2 < 2 ^ bits (n div 2)" "0 < bits (n div 2)" by simp_all
    have "bits n = Suc (bits (n div 2))" using 1(2) by (simp add: bits.simps [of n])
    moreover have "(2::nat) ^ bits (n div 2) = 2 * 2 ^ (bits (n div 2) - 1)" using IH(3) by (cases "bits (n div 2)") auto
    ultimately show ?thesis using IH by simp linarith
  qed
qed

lemma round_half_even_int [simp]: "round_half_even (of_int k) = k"
  by (simp add: round_half_even_def)

text \<open>Whole numbers of at most 53 bits are represented exactly.\<close>

lemma round_double_int:
  assumes "\<bar>k\<bar> < 2 ^ 53"
  shows "round_double (of_int k) = Fin (of_int k)"
proof (cases "k = 0")
  case False
  then have k: "k \<noteq> 0" "\<bar>k\<bar> < 2 ^ 53" using assms by auto
  define n where "n = nat \<bar>k\<bar>"
  have n: "0 < n" "n < 2 ^ 53" "\<bar>rat_of_int k\<bar> = of_nat n" using k by (simp_all add: n_def nat_less_iff)
  have q: "quotient_of \<bar>rat_of_int k\<bar> = (\<bar>k\<bar>, 1)" using quotient_of_int [of "\<bar>k\<bar>"] by (simp add: of_int_abs [symmetric] del: of_int_abs)
  have b: "2 ^ (bits n - 1) \<le> n" "n < 2 ^ bits n" "0 < bits n" using bits_bounds [OF n(1)] by simp_all
  have "(2::nat) ^ (bits n - 1) < 2 ^ 53" using b(1) n(2) by (rule le_less_trans)
  from power_less_imp_less_exp [OF _ this] have small: "bits n \<le> 53" by simp
  have one: "bits 1 = 1" by (simp add: bits.simps)
  let ?d = "int (bits n) - 1"
  have "pow2 ?d = of_nat (2 ^ (bits n - 1))" using b(3) by (simp add: pow2_def nat_diff_distrib)
  then have "pow2 ?d \<le> of_nat n" using b(1) by (metis of_nat_le_iff)
  then have e: "last_place (of_int k) = max (-1074) (int (bits n) - 53)"
    using q one n(3) by (simp add: last_place_def n_def [symmetric])
  define e where "e = last_place (rat_of_int k)"
  have "e \<le> 0" using small e by (simp add: e_def)
  then have p: "pow2 e = 1 / 2 ^ nat (- e)" by (cases "e = 0") (auto simp: pow2_def)
  have "rat_of_int k / pow2 e = of_int (k * 2 ^ nat (- e))" by (simp add: p)
  then have v: "of_int (round_half_even (rat_of_int k / pow2 e)) * pow2 e = rat_of_int k"
    by (simp only: round_half_even_int) (simp add: p)
  have "\<bar>rat_of_int k\<bar> < 2 ^ 53" using k(2) by (metis of_int_abs of_int_less_iff of_int_numeral of_int_power)
  also have "(2 :: rat) ^ 53 \<le> 2 ^ 1024" by (rule power_increasing) simp_all
  finally have "\<bar>rat_of_int k\<bar> < 2 ^ 1024" .
  then show ?thesis using k v by (simp add: round_double_def e_def [symmetric] Let_def)
qed (simp add: round_double_def)

lemma dmul_int: "\<bar>i * j\<bar> < 2 ^ 53 \<Longrightarrow> dmul (Fin (of_int i)) (Fin (of_int j)) = Fin (of_int (i * j))"
  using round_double_int [of "i * j"] by simp

lemma dadd_int: "\<bar>i + j\<bar> < 2 ^ 53 \<Longrightarrow> dadd (Fin (of_int i)) (Fin (of_int j)) = Fin (of_int (i + j))"
  using round_double_int [of "i + j"] by simp

lemma dsub_self_int [simp]: "dsub (Fin (of_int i)) (Fin (of_int i)) = Fin 0"
  by (simp add: dsub_def round_double_def)

lemma int_of_double_int [simp]: "int_of_double (Fin (of_int i)) = c_int i"
  by simp

end
