(* ===== verification/Json_Item.thy ===== *)
theory Json_Item
  imports C_Double Environment
begin

text \<open>
  The items of cJSON (\<open>src/lib/cJSON.c\<close>, \<open>cJSON.h\<close>) and the functions that build, search and change
  them. In C the children of an item hang on it as a doubly linked list; here they are the list
  itself, so the pointers \<open>next\<close>, \<open>prev\<close> and \<open>child\<close> are positions in it, and an item that is put into
  another one is a part of it. A pointer that can be NULL is an option.

  Memory comes from the hook \<open>cJSON_malloc\<close>, a parameter \<open>L\<close> with a state of its own that can fail at
  any call and says nothing about the contents of a block. Memory that is given back has no effect
  in the model, so \<open>cJSON_Delete\<close> does nothing and has no definition.
\<close>

type_synonym 'm allocator = "nat \<Rightarrow> 'm \<Rightarrow> bytes option \<times> 'm"

definition malloc :: "'m allocator \<Rightarrow> nat \<Rightarrow> 'm \<Rightarrow> bytes option \<times> 'm" where
  "malloc L n m = (let (b, m) = L n m in (map_option (fit n) b, m))"

text \<open>The type \<open>'a\<close> as the result of a function that also allocates; the outer \<open>None\<close> is undefined behaviour.\<close>

type_synonym ('m, 'a) run = "'m \<Rightarrow> ('a \<times> 'm) option"

subsection \<open>Items\<close>

definition cJSON_False :: u32 where [c_consts]: "cJSON_False = 0"
definition cJSON_True :: u32 where [c_consts]: "cJSON_True = 1"
definition cJSON_NULL :: u32 where [c_consts]: "cJSON_NULL = 2"
definition cJSON_Number :: u32 where [c_consts]: "cJSON_Number = 3"
definition cJSON_String :: u32 where [c_consts]: "cJSON_String = 4"
definition cJSON_Array :: u32 where [c_consts]: "cJSON_Array = 5"
definition cJSON_Object :: u32 where [c_consts]: "cJSON_Object = 6"
definition cJSON_IsReference :: u32 where [c_consts]: "cJSON_IsReference = 256"
definition cJSON_StringIsConst :: u32 where [c_consts]: "cJSON_StringIsConst = 512"

lemmas json_types = cJSON_False_def cJSON_True_def cJSON_NULL_def cJSON_Number_def cJSON_String_def
  cJSON_Array_def cJSON_Object_def cJSON_IsReference_def cJSON_StringIsConst_def

datatype cJSON = Item
  (j_type: u32) (j_valuestring: "string option") (j_valueint: int) (j_valuedouble: double)
  (j_string: "string option") (j_child: "cJSON list")

fun set_type :: "u32 \<Rightarrow> cJSON \<Rightarrow> cJSON" where
  "set_type ty (Item _ vs vi vd s c) = Item ty vs vi vd s c"

fun set_string :: "string option \<Rightarrow> cJSON \<Rightarrow> cJSON" where
  "set_string s (Item ty vs vi vd _ c) = Item ty vs vi vd s c"

fun set_child :: "cJSON list \<Rightarrow> cJSON \<Rightarrow> cJSON" where
  "set_child c (Item ty vs vi vd s _) = Item ty vs vi vd s c"

text \<open>\<open>memset\<close> to 0 gives the item that every constructor starts from.\<close>

definition zero_item :: cJSON where
  "zero_item = Item 0 None 0 (Fin 0) None []"

definition sizeof_cJSON :: nat where [c_consts]: "sizeof_cJSON = 64"

definition cJSON_New_Item :: "'m allocator \<Rightarrow> 'm \<Rightarrow> cJSON option \<times> 'm" where
  "cJSON_New_Item L m = (let (b, m) = malloc L sizeof_cJSON m in (map_option (\<lambda>_. zero_item) b, m))"

definition cJSON_strdup :: "'m allocator \<Rightarrow> string \<Rightarrow> 'm \<Rightarrow> string option \<times> 'm" where
  "cJSON_strdup L str m = (let (b, m) = malloc L (length str + 1) m in (map_option (\<lambda>_. str) b, m))"

subsection \<open>Comparing names\<close>

text \<open>The byte at a pointer into a C string, and the pointer behind it.\<close>

definition peek :: "string \<Rightarrow> char" where
  "peek s = (case s of [] \<Rightarrow> NUL | c # _ \<Rightarrow> c)"

lemma peek_simps [simp]: "peek [] = NUL" "peek (c # s) = c"
  by (simp_all add: peek_def)

text \<open>\<open>tolower\<close> in the C locale, as an \<open>unsigned char\<close>.\<close>

definition tolower :: "char \<Rightarrow> int" where
  "tolower c = (let k = of_char c :: int in if 65 \<le> k \<and> k \<le> 90 then k + 32 else k)"

fun strcasecmp_loop :: "string \<Rightarrow> string \<Rightarrow> int" where
  "strcasecmp_loop [] t = - tolower (peek t)"
| "strcasecmp_loop (c # s) t =
     (if tolower c = tolower (peek t) then (if c = NUL then 0 else strcasecmp_loop s (drop 1 t))
      else tolower c - tolower (peek t))"

definition cJSON_strcasecmp :: "string option \<Rightarrow> string option \<Rightarrow> int" where
  "cJSON_strcasecmp s1 s2 =
     (case s1 of
        None \<Rightarrow> (if s1 = s2 then 0 else 1)
      | Some s \<Rightarrow> (case s2 of None \<Rightarrow> 1 | Some t \<Rightarrow> strcasecmp_loop s t))"

subsection \<open>Access\<close>

definition cJSON_GetArraySize :: "cJSON \<Rightarrow> int" where
  "cJSON_GetArraySize array = int (length (j_child array))"

text \<open>\<open>while (c && item > 0) item--, c = c->next\<close>: a negative index is the first item.\<close>

definition cJSON_GetArrayItem :: "cJSON \<Rightarrow> int \<Rightarrow> cJSON option" where
  "cJSON_GetArrayItem array i = (case drop (nat i) (j_child array) of [] \<Rightarrow> None | c # _ \<Rightarrow> Some c)"

text \<open>The loop over the children that compares their names: the first match with its index.\<close>

fun find_name :: "string \<Rightarrow> cJSON list \<Rightarrow> nat \<Rightarrow> (nat \<times> cJSON) option" where
  "find_name name [] i = None"
| "find_name name (c # cs) i =
     (if cJSON_strcasecmp (j_string c) (Some name) \<noteq> 0 then find_name name cs (Suc i) else Some (i, c))"

definition cJSON_GetObjectItem :: "cJSON \<Rightarrow> string \<Rightarrow> cJSON option" where
  "cJSON_GetObjectItem object name = map_option snd (find_name name (j_child object) 0)"

subsection \<open>Constructors\<close>

definition create_type :: "'m allocator \<Rightarrow> u32 \<Rightarrow> 'm \<Rightarrow> cJSON option \<times> 'm" where
  "create_type L ty m = (let (i, m) = cJSON_New_Item L m in (map_option (set_type ty) i, m))"

definition cJSON_CreateNull :: "'m allocator \<Rightarrow> 'm \<Rightarrow> cJSON option \<times> 'm" where
  "cJSON_CreateNull L = create_type L cJSON_NULL"

definition cJSON_CreateTrue :: "'m allocator \<Rightarrow> 'm \<Rightarrow> cJSON option \<times> 'm" where
  "cJSON_CreateTrue L = create_type L cJSON_True"

definition cJSON_CreateFalse :: "'m allocator \<Rightarrow> 'm \<Rightarrow> cJSON option \<times> 'm" where
  "cJSON_CreateFalse L = create_type L cJSON_False"

definition cJSON_CreateBool :: "'m allocator \<Rightarrow> int \<Rightarrow> 'm \<Rightarrow> cJSON option \<times> 'm" where
  "cJSON_CreateBool L b = create_type L (if b \<noteq> 0 then cJSON_True else cJSON_False)"

definition cJSON_CreateArray :: "'m allocator \<Rightarrow> 'm \<Rightarrow> cJSON option \<times> 'm" where
  "cJSON_CreateArray L = create_type L cJSON_Array"

definition cJSON_CreateObject :: "'m allocator \<Rightarrow> 'm \<Rightarrow> cJSON option \<times> 'm" where
  "cJSON_CreateObject L = create_type L cJSON_Object"

text \<open>\<open>item->valueint = (int) num\<close> is undefined when the number does not fit.\<close>

definition cJSON_CreateNumber :: "'m allocator \<Rightarrow> double \<Rightarrow> ('m, cJSON option) run" where
  "cJSON_CreateNumber L num m =
     (case cJSON_New_Item L m of
        (None, m) \<Rightarrow> Some (None, m)
      | (Some _, m) \<Rightarrow> do { i \<leftarrow> int_of_double num; Some (Some (Item cJSON_Number None i num None []), m) })"

definition cJSON_CreateString :: "'m allocator \<Rightarrow> string \<Rightarrow> ('m, cJSON option) run" where
  "cJSON_CreateString L str m =
     (case cJSON_New_Item L m of
        (None, m) \<Rightarrow> Some (None, m)
      | (Some _, m) \<Rightarrow>
          (case cJSON_strdup L str m of (s, m) \<Rightarrow> Some (Some (Item cJSON_String s 0 (Fin 0) None []), m)))"

text \<open>
  The loop of the four functions that create an array: no result of the element's constructor is
  checked. A NULL is dereferenced by \<open>suffix_object\<close>, at once or, for the first element, when the
  next one is linked to it.
\<close>

fun array_loop_from :: "('m, cJSON option) run list \<Rightarrow> cJSON list \<Rightarrow> ('m, cJSON list) run" where
  "array_loop_from [] acc m = Some (acc, m)"
| "array_loop_from (mk # mks) acc m = do {
     (n, m) \<leftarrow> mk m;
     (case n of
        Some i \<Rightarrow> array_loop_from mks (acc @ [i]) m
      | None \<Rightarrow> if acc = [] \<and> mks = [] then Some ([], m) else None)
   }"

definition create_array :: "'m allocator \<Rightarrow> ('m, cJSON option) run list \<Rightarrow> ('m, cJSON option) run" where
  "create_array L mks m =
     (case cJSON_CreateArray L m of
        (None, m) \<Rightarrow> Some (None, m)
      | (Some a, m) \<Rightarrow> do { (cs, m) \<leftarrow> array_loop_from mks [] m; Some (Some (set_child cs a), m) })"

definition cJSON_CreateIntArray :: "'m allocator \<Rightarrow> int list \<Rightarrow> ('m, cJSON option) run" where
  "cJSON_CreateIntArray L numbers = create_array L (map (\<lambda>i. cJSON_CreateNumber L (Fin (of_int i))) numbers)"

text \<open>Every \<open>float\<close> is a \<open>double\<close>, so the two functions on them differ in the type of the array only.\<close>

definition cJSON_CreateFloatArray :: "'m allocator \<Rightarrow> double list \<Rightarrow> ('m, cJSON option) run" where
  "cJSON_CreateFloatArray L numbers = create_array L (map (cJSON_CreateNumber L) numbers)"

definition cJSON_CreateDoubleArray :: "'m allocator \<Rightarrow> double list \<Rightarrow> ('m, cJSON option) run" where
  "cJSON_CreateDoubleArray L numbers = create_array L (map (cJSON_CreateNumber L) numbers)"

definition cJSON_CreateStringArray :: "'m allocator \<Rightarrow> string list \<Rightarrow> ('m, cJSON option) run" where
  "cJSON_CreateStringArray L strings = create_array L (map (cJSON_CreateString L) strings)"

subsection \<open>Adding items\<close>

definition cJSON_AddItemToArray :: "cJSON \<Rightarrow> cJSON option \<Rightarrow> cJSON" where
  "cJSON_AddItemToArray array item =
     (case item of None \<Rightarrow> array | Some i \<Rightarrow> set_child (j_child array @ [i]) array)"

definition cJSON_AddItemToObject :: "'m allocator \<Rightarrow> cJSON \<Rightarrow> string \<Rightarrow> cJSON option \<Rightarrow> 'm \<Rightarrow> cJSON \<times> 'm" where
  "cJSON_AddItemToObject L object name item m =
     (case item of
        None \<Rightarrow> (object, m)
      | Some i \<Rightarrow> (let (s, m) = cJSON_strdup L name m in (cJSON_AddItemToArray object (Some (set_string s i)), m)))"

definition cJSON_AddItemToObjectCS :: "cJSON \<Rightarrow> string \<Rightarrow> cJSON option \<Rightarrow> cJSON" where
  "cJSON_AddItemToObjectCS object name item =
     (case item of
        None \<Rightarrow> object
      | Some i \<Rightarrow> cJSON_AddItemToArray object
          (Some (set_type (j_type i OR cJSON_StringIsConst) (set_string (Some name) i))))"

text \<open>A reference is a copy of the item that shares its children; no function here changes them through it.\<close>

definition create_reference :: "'m allocator \<Rightarrow> cJSON \<Rightarrow> 'm \<Rightarrow> cJSON option \<times> 'm" where
  "create_reference L item m =
     (let (r, m) = cJSON_New_Item L m
      in (map_option (\<lambda>_. set_type (j_type item OR cJSON_IsReference) (set_string None item)) r, m))"

definition cJSON_AddItemReferenceToArray :: "'m allocator \<Rightarrow> cJSON \<Rightarrow> cJSON \<Rightarrow> 'm \<Rightarrow> cJSON \<times> 'm" where
  "cJSON_AddItemReferenceToArray L array item m =
     (let (r, m) = create_reference L item m in (cJSON_AddItemToArray array r, m))"

definition cJSON_AddItemReferenceToObject :: "'m allocator \<Rightarrow> cJSON \<Rightarrow> string \<Rightarrow> cJSON \<Rightarrow> 'm \<Rightarrow> cJSON \<times> 'm" where
  "cJSON_AddItemReferenceToObject L object name item m =
     (let (r, m) = create_reference L item m in cJSON_AddItemToObject L object name r m)"

subsection \<open>Taking out and replacing items\<close>

definition cJSON_DetachItemFromArray :: "cJSON \<Rightarrow> int \<Rightarrow> cJSON option \<times> cJSON" where
  "cJSON_DetachItemFromArray array which =
     (let i = nat which; cs = j_child array
      in if i < length cs then (Some (cs ! i), set_child (take i cs @ drop (i + 1) cs) array) else (None, array))"

definition cJSON_DetachItemFromObject :: "cJSON \<Rightarrow> string \<Rightarrow> cJSON option \<times> cJSON" where
  "cJSON_DetachItemFromObject object name =
     (case find_name name (j_child object) 0 of
        None \<Rightarrow> (None, object)
      | Some (i, _) \<Rightarrow> cJSON_DetachItemFromArray object (int i))"

definition cJSON_DeleteItemFromArray :: "cJSON \<Rightarrow> int \<Rightarrow> cJSON" where
  "cJSON_DeleteItemFromArray array which = snd (cJSON_DetachItemFromArray array which)"

definition cJSON_DeleteItemFromObject :: "cJSON \<Rightarrow> string \<Rightarrow> cJSON" where
  "cJSON_DeleteItemFromObject object name = snd (cJSON_DetachItemFromObject object name)"

definition cJSON_InsertItemInArray :: "cJSON \<Rightarrow> int \<Rightarrow> cJSON \<Rightarrow> cJSON" where
  "cJSON_InsertItemInArray array which newitem =
     (let i = nat which; cs = j_child array
      in if i < length cs then set_child (take i cs @ newitem # drop i cs) array
         else cJSON_AddItemToArray array (Some newitem))"

definition cJSON_ReplaceItemInArray :: "cJSON \<Rightarrow> int \<Rightarrow> cJSON \<Rightarrow> cJSON" where
  "cJSON_ReplaceItemInArray array which newitem =
     (let i = nat which; cs = j_child array
      in if i < length cs then set_child (cs[i := newitem]) array else array)"

definition cJSON_ReplaceItemInObject :: "'m allocator \<Rightarrow> cJSON \<Rightarrow> string \<Rightarrow> cJSON \<Rightarrow> 'm \<Rightarrow> cJSON \<times> 'm" where
  "cJSON_ReplaceItemInObject L object name newitem m =
     (case find_name name (j_child object) 0 of
        None \<Rightarrow> (object, m)
      | Some (i, _) \<Rightarrow> (let (s, m) = cJSON_strdup L name m
                        in (cJSON_ReplaceItemInArray object (int i) (set_string s newitem), m)))"

subsection \<open>Copies\<close>

definition dup_string :: "'m allocator \<Rightarrow> string option \<Rightarrow> 'm \<Rightarrow> bool \<times> string option \<times> 'm" where
  "dup_string L s m =
     (case s of
        None \<Rightarrow> (True, None, m)
      | Some t \<Rightarrow> (case cJSON_strdup L t m of (None, m) \<Rightarrow> (False, None, m) | (Some t, m) \<Rightarrow> (True, Some t, m)))"

fun cJSON_Duplicate :: "'m allocator \<Rightarrow> cJSON \<Rightarrow> bool \<Rightarrow> 'm \<Rightarrow> cJSON option \<times> 'm"
  and duplicate_all :: "'m allocator \<Rightarrow> cJSON list \<Rightarrow> 'm \<Rightarrow> cJSON list option \<times> 'm" where
  "cJSON_Duplicate L (Item ty vs vi vd str cs) recurse m =
     (case cJSON_New_Item L m of
        (None, m) \<Rightarrow> (None, m)
      | (Some _, m) \<Rightarrow>
          (case dup_string L vs m of
             (False, _, m) \<Rightarrow> (None, m)
           | (True, vs', m) \<Rightarrow>
               (case dup_string L str m of
                  (False, _, m) \<Rightarrow> (None, m)
                | (True, str', m) \<Rightarrow>
                    if \<not> recurse then (Some (Item (ty AND NOT cJSON_IsReference) vs' vi vd str' []), m)
                    else (case duplicate_all L cs m of
                            (None, m) \<Rightarrow> (None, m)
                          | (Some cs', m) \<Rightarrow> (Some (Item (ty AND NOT cJSON_IsReference) vs' vi vd str' cs'), m)))))"
| "duplicate_all L [] m = (Some [], m)"
| "duplicate_all L (c # cs) m =
     (case cJSON_Duplicate L c True m of
        (None, m) \<Rightarrow> (None, m)
      | (Some c', m) \<Rightarrow>
          (case duplicate_all L cs m of (None, m) \<Rightarrow> (None, m) | (Some cs', m) \<Rightarrow> (Some (c' # cs'), m)))"

end
