(* ===== verification/Json_Print.thy ===== *)
theory Json_Print
  imports Json_Item
begin

text \<open>
  The printer of cJSON in its two forms: into blocks allocated for every part (\<open>cJSON_Print\<close>,
  \<open>cJSON_PrintUnformatted\<close>) and into one buffer that grows (\<open>cJSON_PrintBuffered\<close>). The C functions have
  both forms in one body, told apart by the pointer \<open>p\<close>; here the text of numbers and strings is
  computed once, with the size the code asks for. A text that does not fit into its block with its
  terminator is undefined.
\<close>

subsection \<open>Numbers and strings\<close>

definition DBL_EPSILON :: double where "DBL_EPSILON = Fin (1 / 2 ^ 52)"

text \<open>The size of the block and the text; the text of a NaN is not determined.\<close>

definition number_text :: "double \<Rightarrow> int \<Rightarrow> nat \<times> string option" where
  "number_text d i =
     (if d = Fin 0 then (2, Some ''0'')
      else if dle (dabs (dsub (Fin (of_int i)) d)) DBL_EPSILON \<and> dle d (Fin (of_int INT_MAX)) \<and> dle (Fin (of_int INT_MIN)) d
        then (21, Some (show_int i))
      else (64,
        if dle (dabs (dsub (dfloor d) d)) DBL_EPSILON \<and> dless (dabs d) (round_double (10 ^ 60)) then fmt_double (show_fixed 0) d
        else if dless (dabs d) (round_double (1 / 10 ^ 6)) \<or> dless (Fin (10 ^ 9)) (dabs d) then fmt_double show_exp d
        else fmt_double (show_fixed 6) d))"

definition needs_escape :: "char \<Rightarrow> bool" where
  "needs_escape c \<longleftrightarrow> (of_char c :: nat) < 32 \<or> c = CHR 0x22 \<or> c = CHR 0x5C"

definition hex_digit :: "nat \<Rightarrow> char" where
  "hex_digit k = (if k < 10 then digit_char k else char_of (97 + (k - 10)))"

text \<open>The characters after the backslash, \<open>sprintf (ptr2, "u%04x", token)\<close> for most.\<close>

definition escape_of :: "char \<Rightarrow> string" where
  "escape_of c =
     (if c = CHR 0x5C then [CHR 0x5C]
      else if c = CHR 0x22 then [CHR 0x22]
      else if c = CHR 0x08 then ''b''
      else if c = CHR 0x0C then ''f''
      else if c = CHR 0x0A then ''n''
      else if c = CHR 0x0D then ''r''
      else if c = CHR 0x09 then ''t''
      else (let k = of_char c :: nat in ''u00'' @ [hex_digit (k div 16), hex_digit (k mod 16)]))"

definition print_char :: "char \<Rightarrow> string" where
  "print_char c = (if needs_escape c then CHR 0x5C # escape_of c else [c])"

text \<open>The length the loop counts before the block is allocated.\<close>

definition char_len :: "char \<Rightarrow> nat" where
  "char_len c =
     (if c \<in> {CHR 0x22, CHR 0x5C, CHR 0x08, CHR 0x0C, CHR 0x0A, CHR 0x0D, CHR 0x09} then 2
      else if (of_char c :: nat) < 32 then 6 else 1)"

text \<open>
  \<open>print_string_ptr\<close>: a string without special characters is copied. NULL is dereferenced by the
  first loop, so the branch for it is never reached.
\<close>

definition string_text :: "string option \<Rightarrow> (nat \<times> string) option" where
  "string_text str = do {
     s \<leftarrow> str;
     if \<exists>c \<in> set s. needs_escape c
     then Some (sum_list (map char_len s) + 3, CHR 0x22 # concat (map print_char s) @ [CHR 0x22])
     else Some (length s + 3, CHR 0x22 # s @ [CHR 0x22])
   }"

subsection \<open>Into separate blocks\<close>

definition store :: "'m allocator \<Rightarrow> nat \<Rightarrow> string option \<Rightarrow> ('m, string option) run" where
  "store L n text m =
     (case malloc L n m of
        (None, m) \<Rightarrow> Some (None, m)
      | (Some _, m) \<Rightarrow> do { t \<leftarrow> text; if length t < n then Some (Some t, m) else None })"

definition print_string_ptr :: "'m allocator \<Rightarrow> string option \<Rightarrow> ('m, string option) run" where
  "print_string_ptr L str m = do { (n, t) \<leftarrow> string_text str; store L n (Some t) m }"

definition print_number :: "'m allocator \<Rightarrow> double \<Rightarrow> int \<Rightarrow> ('m, string option) run" where
  "print_number L d i m = (case number_text d i of (n, t) \<Rightarrow> store L n t m)"

text \<open>A type that is none of the seven prints nothing.\<close>

definition print_scalar :: "'m allocator \<Rightarrow> u32 \<Rightarrow> string option \<Rightarrow> int \<Rightarrow> double \<Rightarrow> ('m, string option) run" where
  "print_scalar L ty vs vi vd m =
     (if ty = cJSON_NULL then Some (cJSON_strdup L ''null'' m)
      else if ty = cJSON_False then Some (cJSON_strdup L ''false'' m)
      else if ty = cJSON_True then Some (cJSON_strdup L ''true'' m)
      else if ty = cJSON_Number then print_number L vd vi m
      else if ty = cJSON_String then print_string_ptr L vs m
      else Some (None, m))"

definition tabs :: "nat \<Rightarrow> string" where
  "tabs k = replicate k (CHR 0x09)"

text \<open>The separators between the parts of arrays and objects.\<close>

fun array_body :: "bool \<Rightarrow> string list \<Rightarrow> string" where
  "array_body fmt [] = []"
| "array_body fmt [e] = e"
| "array_body fmt (e # es) = e @ '','' @ (if fmt then '' '' else []) @ array_body fmt es"

fun object_body :: "bool \<Rightarrow> nat \<Rightarrow> (string \<times> string) list \<Rightarrow> string" where
  "object_body fmt depth [] = []"
| "object_body fmt depth ((s, e) # es) =
     (if fmt then tabs depth else []) @ s @ '':'' @ (if fmt then tabs 1 else []) @ e @
     (if es = [] then [] else '','') @ (if fmt then [CHR 0x0A] else []) @ object_body fmt depth es"

text \<open>The block that takes the whole array or object, of the length added up in \<open>len\<close>.\<close>

definition finish_array :: "'m allocator \<Rightarrow> bool \<Rightarrow> string list option \<Rightarrow> ('m, string option) run" where
  "finish_array L fmt entries m =
     (case entries of
        None \<Rightarrow> Some (None, m)
      | Some es \<Rightarrow> do {
          len \<leftarrow> c_int (5 + sum_list (map (\<lambda>e. int (length e) + 2 + (if fmt then 1 else 0)) es));
          store L (nat len) (Some (''['' @ array_body fmt es @ '']'')) m
        })"

definition finish_object :: "'m allocator \<Rightarrow> bool \<Rightarrow> nat \<Rightarrow> (string \<times> string) list option \<Rightarrow> ('m, string option) run" where
  "finish_object L fmt depth entries m =
     (case entries of
        None \<Rightarrow> Some (None, m)
      | Some es \<Rightarrow> do {
          len \<leftarrow> c_int (7 + (if fmt then int depth else 0) +
            sum_list (map (\<lambda>(s, e). int (length e) + int (length s) + 2 + (if fmt then 2 + int depth else 0)) es));
          store L (nat len) (Some (''{'' @ (if fmt then [CHR 0x0A] else []) @ object_body fmt depth es @
            (if fmt then tabs (depth - 1) else []) @ ''}'')) m
        })"

definition sizeof_ptr :: nat where [c_consts]: "sizeof_ptr = 8"

text \<open>
  Arrays stop at the first element that fails, objects go on to the last member; the fields of the
  result say whether all of them succeeded.
\<close>

fun print_value :: "'m allocator \<Rightarrow> cJSON \<Rightarrow> nat \<Rightarrow> bool \<Rightarrow> ('m, string option) run"
  and print_all :: "'m allocator \<Rightarrow> cJSON list \<Rightarrow> nat \<Rightarrow> bool \<Rightarrow> ('m, string list option) run"
  and print_members :: "'m allocator \<Rightarrow> cJSON list \<Rightarrow> nat \<Rightarrow> bool \<Rightarrow> ('m, (string \<times> string) list option) run" where
  "print_value L (Item ty vs vi vd str cs) depth fmt m =
     (if ty AND 255 = cJSON_Array then
        (if cs = [] then store L 3 (Some ''[]'') m
         else (case malloc L (length cs * sizeof_ptr) m of
                 (None, m) \<Rightarrow> Some (None, m)
               | (Some _, m) \<Rightarrow> do { (es, m) \<leftarrow> print_all L cs (depth + 1) fmt m; finish_array L fmt es m }))
      else if ty AND 255 = cJSON_Object then
        (if cs = [] then
           store L (if fmt then depth + 4 else 3) (Some (''{'' @ (if fmt then CHR 0x0A # tabs (depth - 1) else []) @ ''}'')) m
         else (case malloc L (length cs * sizeof_ptr) m of
                 (None, m) \<Rightarrow> Some (None, m)
               | (Some _, m) \<Rightarrow>
                   (case malloc L (length cs * sizeof_ptr) m of
                      (None, m) \<Rightarrow> Some (None, m)
                    | (Some _, m) \<Rightarrow> do {
                        (es, m) \<leftarrow> print_members L cs (depth + 1) fmt m;
                        finish_object L fmt (depth + 1) es m
                      })))
      else print_scalar L (ty AND 255) vs vi vd m)"
| "print_all L [] depth fmt m = Some (Some [], m)"
| "print_all L (c # cs) depth fmt m = do {
     (e, m) \<leftarrow> print_value L c depth fmt m;
     (case e of
        None \<Rightarrow> Some (None, m)
      | Some e \<Rightarrow> do { (es, m) \<leftarrow> print_all L cs depth fmt m; Some (map_option (\<lambda>es. e # es) es, m) })
   }"
| "print_members L [] depth fmt m = Some (Some [], m)"
| "print_members L (c # cs) depth fmt m = do {
     (s, m) \<leftarrow> print_string_ptr L (j_string c) m;
     (e, m) \<leftarrow> print_value L c depth fmt m;
     (es, m) \<leftarrow> print_members L cs depth fmt m;
     Some (do { s \<leftarrow> s; e \<leftarrow> e; es \<leftarrow> es; Some ((s, e) # es) }, m)
   }"

definition cJSON_Print :: "'m allocator \<Rightarrow> cJSON \<Rightarrow> ('m, string option) run" where
  "cJSON_Print L item = print_value L item 0 True"

definition cJSON_PrintUnformatted :: "'m allocator \<Rightarrow> cJSON \<Rightarrow> ('m, string option) run" where
  "cJSON_PrintUnformatted L item = print_value L item 0 False"

subsection \<open>Into a growing buffer\<close>

record printbuffer =
  pb_buffer :: "bytes option"
  pb_length :: int
  pb_offset :: int

text \<open>\<open>pow2gt\<close>: the shifts are arithmetic, as on \<open>int\<close>.\<close>

definition pow2gt :: "int \<Rightarrow> int option" where
  "pow2gt x = do {
     x \<leftarrow> c_int (x - 1);
     let x = x OR drop_bit 1 x;
     let x = x OR drop_bit 2 x;
     let x = x OR drop_bit 4 x;
     let x = x OR drop_bit 8 x;
     let x = x OR drop_bit 16 x;
     c_int (x + 1)
   }"

text \<open>
  \<open>ensure\<close>: NULL (false) or a pointer at the offset. An \<open>int\<close> that goes to \<open>malloc\<close> becomes a
  \<open>size_t\<close>.
\<close>

definition to_size_t :: "int \<Rightarrow> nat" where
  "to_size_t i = nat (i mod 2 ^ 64)"

definition ensure :: "'m allocator \<Rightarrow> int \<Rightarrow> printbuffer \<Rightarrow> ('m, bool \<times> printbuffer) run" where
  "ensure L needed p m =
     (case pb_buffer p of
        None \<Rightarrow> Some ((False, p), m)
      | Some b \<Rightarrow> do {
          needed \<leftarrow> c_int (needed + pb_offset p);
          if needed \<le> pb_length p then Some ((True, p), m)
          else do {
            newsize \<leftarrow> pow2gt needed;
            (case malloc L (to_size_t newsize) m of
               (None, m) \<Rightarrow> Some ((False, p\<lparr>pb_buffer := None, pb_length := 0\<rparr>), m)
             | (Some nb, m) \<Rightarrow> do {
                 nb \<leftarrow> memcpy nb 0 b (to_size_t (pb_length p));
                 Some ((True, p\<lparr>pb_buffer := Some nb, pb_length := newsize\<rparr>), m)
               })
          }
        })"

text \<open>Bytes written from the offset on, and the step of the offset over \<open>k\<close> of them.\<close>

definition put :: "bytes \<Rightarrow> int \<Rightarrow> printbuffer \<Rightarrow> printbuffer option" where
  "put text k p = do {
     b \<leftarrow> pb_buffer p;
     b \<leftarrow> memcpy b (nat (pb_offset p)) text (length text);
     Some (p\<lparr>pb_buffer := Some b, pb_offset := pb_offset p + k\<rparr>)
   }"

definition update :: "printbuffer \<Rightarrow> printbuffer option" where
  "update p =
     (case pb_buffer p of
        None \<Rightarrow> Some (p\<lparr>pb_offset := 0\<rparr>)
      | Some b \<Rightarrow> do {
          s \<leftarrow> cstr (drop (nat (pb_offset p)) b);
          Some (p\<lparr>pb_offset := pb_offset p + int (length s)\<rparr>)
        })"

text \<open>\<open>ptr = ensure (p, needed); if (!ptr) return 0;\<close> and the bytes that are written there.\<close>

definition append :: "'m allocator \<Rightarrow> int \<Rightarrow> bytes option \<Rightarrow> int \<Rightarrow> printbuffer \<Rightarrow> ('m, bool \<times> printbuffer) run" where
  "append L needed text k p m = do {
     ((ok, p), m) \<leftarrow> ensure L needed p m;
     if ok then do { t \<leftarrow> text; p \<leftarrow> put t k p; Some ((True, p), m) } else Some ((False, p), m)
   }"

definition buf_string :: "'m allocator \<Rightarrow> string option \<Rightarrow> printbuffer \<Rightarrow> ('m, bool \<times> printbuffer) run" where
  "buf_string L str p m = do { (n, t) \<leftarrow> string_text str; append L (int n) (Some (t @ [NUL])) 0 p m }"

definition buf_scalar ::
  "'m allocator \<Rightarrow> u32 \<Rightarrow> string option \<Rightarrow> int \<Rightarrow> double \<Rightarrow> printbuffer \<Rightarrow> ('m, bool \<times> printbuffer) run" where
  "buf_scalar L ty vs vi vd p m =
     (if ty = cJSON_NULL then append L 5 (Some (''null'' @ [NUL])) 0 p m
      else if ty = cJSON_False then append L 6 (Some (''false'' @ [NUL])) 0 p m
      else if ty = cJSON_True then append L 5 (Some (''true'' @ [NUL])) 0 p m
      else if ty = cJSON_Number then
        (case number_text vd vi of (n, t) \<Rightarrow> append L (int n) (map_option (\<lambda>t. t @ [NUL]) t) 0 p m)
      else if ty = cJSON_String then buf_string L vs p m
      else Some ((False, p), m))"

text \<open>
  The three functions for values, the elements of an array and the members of an object. What
  printing a part returns is ignored; \<open>update\<close> moves the offset behind the string that was printed.
\<close>

fun buf_value :: "'m allocator \<Rightarrow> cJSON \<Rightarrow> nat \<Rightarrow> bool \<Rightarrow> printbuffer \<Rightarrow> ('m, bool \<times> printbuffer) run"
  and buf_elements :: "'m allocator \<Rightarrow> cJSON list \<Rightarrow> nat \<Rightarrow> bool \<Rightarrow> printbuffer \<Rightarrow> ('m, bool \<times> printbuffer) run"
  and buf_members :: "'m allocator \<Rightarrow> cJSON list \<Rightarrow> nat \<Rightarrow> bool \<Rightarrow> printbuffer \<Rightarrow> ('m, bool \<times> printbuffer) run" where
  "buf_value L (Item ty vs vi vd str cs) depth fmt p m =
     (if ty AND 255 = cJSON_Array then
        (if cs = [] then append L 3 (Some (''[]'' @ [NUL])) 0 p m
         else do {
           ((ok, p), m) \<leftarrow> append L 1 (Some ''['') 1 p m;
           if \<not> ok then Some ((False, p), m)
           else do {
             ((ok, p), m) \<leftarrow> buf_elements L cs (depth + 1) fmt p m;
             if \<not> ok then Some ((False, p), m) else append L 2 (Some ('']'' @ [NUL])) 0 p m
           }
         })
      else if ty AND 255 = cJSON_Object then
        (if cs = [] then
           append L (if fmt then int depth + 4 else 3)
             (Some (''{'' @ (if fmt then CHR 0x0A # tabs (depth - 1) else []) @ ''}'' @ [NUL])) 0 p m
         else do {
           ((ok, p), m) \<leftarrow> append L (if fmt then 3 else 2) (Some (''{'' @ (if fmt then [CHR 0x0A] else []) @ [NUL]))
             (if fmt then 2 else 1) p m;
           if \<not> ok then Some ((False, p), m)
           else do {
             ((ok, p), m) \<leftarrow> buf_members L cs (depth + 1) fmt p m;
             if \<not> ok then Some ((False, p), m)
             else append L (if fmt then int depth + 2 else 2) (Some ((if fmt then tabs depth else []) @ ''}'' @ [NUL])) 0 p m
           }
         })
      else buf_scalar L (ty AND 255) vs vi vd p m)"
| "buf_elements L [] depth fmt p m = Some ((True, p), m)"
| "buf_elements L (c # cs) depth fmt p m = do {
     ((_, p), m) \<leftarrow> buf_value L c depth fmt p m;
     p \<leftarrow> update p;
     if cs = [] then Some ((True, p), m)
     else do {
       ((ok, p), m) \<leftarrow> append L (if fmt then 3 else 2) (Some ('','' @ (if fmt then '' '' else []) @ [NUL])) (if fmt then 2 else 1) p m;
       if \<not> ok then Some ((False, p), m) else buf_elements L cs depth fmt p m
     }
   }"
| "buf_members L [] depth fmt p m = Some ((True, p), m)"
| "buf_members L (c # cs) depth fmt p m = do {
     ((ok, p), m) \<leftarrow> (if fmt then append L (int depth) (Some (tabs depth)) (int depth) p m else Some ((True, p), m));
     if \<not> ok then Some ((False, p), m)
     else do {
       ((_, p), m) \<leftarrow> buf_string L (j_string c) p m;
       p \<leftarrow> update p;
       ((ok, p), m) \<leftarrow> append L (if fmt then 2 else 1) (Some ('':'' @ (if fmt then tabs 1 else []))) (if fmt then 2 else 1) p m;
       if \<not> ok then Some ((False, p), m)
       else do {
         ((_, p), m) \<leftarrow> buf_value L c depth fmt p m;
         p \<leftarrow> update p;
         let k = (if fmt then 1 else 0) + (if cs = [] then 0 else 1);
         ((ok, p), m) \<leftarrow> append L (k + 1) (Some ((if cs = [] then [] else '','') @ (if fmt then [CHR 0x0A] else []) @ [NUL])) k p m;
         if \<not> ok then Some ((False, p), m) else buf_members L cs depth fmt p m
       }
     }
   }"

text \<open>The result is the string at the start of the buffer, or NULL.\<close>

definition cJSON_PrintBuffered :: "'m allocator \<Rightarrow> cJSON \<Rightarrow> int \<Rightarrow> bool \<Rightarrow> ('m, string option) run" where
  "cJSON_PrintBuffered L item prebuffer fmt m = do {
     let (b, m) = malloc L (to_size_t prebuffer) m;
     ((ok, p), m) \<leftarrow> buf_value L item 0 fmt \<lparr>pb_buffer = b, pb_length = prebuffer, pb_offset = 0\<rparr> m;
     if ok then do { b \<leftarrow> pb_buffer p; s \<leftarrow> cstr b; Some (Some s, m) } else Some (None, m)
   }"

declare print_value.simps [simp del] buf_value.simps [simp del]

end
