(* ===== verification/Json_Text.thy ===== *)
theory Json_Text
  imports Json_Print
begin

text \<open>
  The text that stands for an item, as a plain function on the tree, and the proof that the printer
  into separate blocks gives this text: every block is large enough, and nothing else is printed.
\<close>

subsection \<open>The text of an item\<close>

definition quote :: "string \<Rightarrow> string" where
  "quote s = CHR 0x22 # concat (map print_char s) @ [CHR 0x22]"

definition scalar_text :: "u32 \<Rightarrow> string option \<Rightarrow> int \<Rightarrow> double \<Rightarrow> string" where
  "scalar_text ty vs vi vd =
     (if ty = cJSON_NULL then ''null'' else if ty = cJSON_False then ''false'' else if ty = cJSON_True then ''true''
      else if ty = cJSON_Number then the (snd (number_text vd vi)) else quote (the vs))"

fun json_text :: "bool \<Rightarrow> nat \<Rightarrow> cJSON \<Rightarrow> string" where
  "json_text fmt depth (Item ty vs vi vd str cs) =
     (if ty AND 255 = cJSON_Array then ''['' @ array_body fmt (map (json_text fmt (depth + 1)) cs) @ '']''
      else if ty AND 255 = cJSON_Object then
        (if cs = [] then ''{'' @ (if fmt then CHR 0x0A # tabs (depth - 1) else []) @ ''}''
         else ''{'' @ (if fmt then [CHR 0x0A] else []) @
           object_body fmt (depth + 1) (map (\<lambda>c. (quote (the (j_string c)), json_text fmt (depth + 1) c)) cs) @
           (if fmt then tabs depth else []) @ ''}'')
      else scalar_text (ty AND 255) vs vi vd)"

declare json_text.simps [simp del]

text \<open>
  The items that can be printed: strings and names are there and are C strings, and the text of a
  number fits into its block.
\<close>

definition c_string :: "string option \<Rightarrow> bool" where
  "c_string s \<longleftrightarrow> (\<exists>t. s = Some t \<and> NUL \<notin> set t)"

definition number_ok :: "double \<Rightarrow> int \<Rightarrow> bool" where
  "number_ok d i \<longleftrightarrow> (\<exists>n t. number_text d i = (n, Some t) \<and> length t < n \<and> n \<le> 64 \<and> t \<noteq> [] \<and> NUL \<notin> set t)"

fun printable :: "cJSON \<Rightarrow> bool" where
  "printable (Item ty vs vi vd str cs) \<longleftrightarrow>
     (if ty AND 255 = cJSON_Array then \<forall>c \<in> set cs. printable c
      else if ty AND 255 = cJSON_Object then (\<forall>c \<in> set cs. printable c) \<and> (\<forall>c \<in> set cs. c_string (j_string c))
      else if ty AND 255 = cJSON_Number then number_ok vd vi
      else if ty AND 255 = cJSON_String then c_string vs
      else ty AND 255 = cJSON_NULL \<or> ty AND 255 = cJSON_False \<or> ty AND 255 = cJSON_True)"

declare printable.simps [simp del]

subsection \<open>Strings and numbers\<close>

lemma print_char_len: "char_len c = length (print_char c)"
  by (auto simp: char_len_def print_char_def needs_escape_def escape_of_def Let_def)

lemma print_char_plain: "\<not> needs_escape c \<Longrightarrow> print_char c = [c]"
  by (simp add: print_char_def)

lemma concat_plain: "\<forall>c \<in> set s. \<not> needs_escape c \<Longrightarrow> concat (map print_char s) = s"
  by (induction s) (simp_all add: print_char_plain)

text \<open>The text of a string fills its block.\<close>

lemma string_text_quote: "string_text (Some s) = Some (length (quote s) + 1, quote s)"
proof (cases "\<exists>c \<in> set s. needs_escape c")
  case True
  have "sum_list (map char_len s) = length (concat (map print_char s))"
    by (induction s) (simp_all add: print_char_len)
  with True show ?thesis by (simp add: string_text_def quote_def)
next
  case False
  then show ?thesis using concat_plain [of s] by (simp add: string_text_def quote_def)
qed

lemma quote_neq_Nil [simp]: "quote s \<noteq> []"
  by (simp add: quote_def)

text \<open>An \<open>int\<close> needs at most eleven places.\<close>

lemma length_show_int:
  assumes "INT_MIN \<le> i" "i \<le> INT_MAX"
  shows "length (show_int i) \<le> 11"
proof -
  have n: "nat \<bar>i\<bar> < 10 ^ 10" using assms by (simp add: INT_MIN_def INT_MAX_def)
  have "length (show_nat (nat \<bar>i\<bar>)) \<le> 10" using length_show_nat [OF n] by simp
  then show ?thesis by (cases "i < 0") (simp_all add: show_int_def abs_if)
qed

lemma show_int_zero: "show_int 0 = ''0''"
  by code_simp

lemma number_text_int:
  assumes "INT_MIN \<le> i" "i \<le> INT_MAX"
  shows "number_text (Fin (of_int i)) i = (if i = 0 then 2 else 21, Some (show_int i))"
  using assms by (simp add: number_text_def DBL_EPSILON_def show_int_zero)

lemma show_int_no_NUL: "NUL \<notin> set (show_int i)"
  using show_int_chars [of NUL i] by (auto simp: isdigit_def)

lemma show_int_neq_Nil [simp]: "show_int i \<noteq> []"
  by (simp add: show_int_def)

lemma number_ok_int: "INT_MIN \<le> i \<Longrightarrow> i \<le> INT_MAX \<Longrightarrow> number_ok (Fin (of_int i)) i"
  using length_show_int [of i] number_text_int [of i]
  by (cases "i = 0") (auto simp: number_ok_def show_int_zero show_int_no_NUL)

subsection \<open>The printer into separate blocks\<close>

text \<open>An allocator that never fails.\<close>

definition roomy :: "'m allocator \<Rightarrow> bool" where
  "roomy L \<longleftrightarrow> (\<forall>n m. fst (L n m) \<noteq> None)"

lemma malloc_roomy: "roomy L \<Longrightarrow> \<exists>b m'. malloc L n m = (Some b, m') \<and> length b = n"
  by (cases "L n m"; cases "fst (L n m)") (auto simp: roomy_def malloc_def dest!: spec [of _ n] spec [of _ m])

lemma New_Item_roomy: "roomy L \<Longrightarrow> \<exists>m'. cJSON_New_Item L m = (Some zero_item, m')"
  using malloc_roomy [of L sizeof_cJSON m] by (auto simp: cJSON_New_Item_def)

lemma strdup_roomy: "roomy L \<Longrightarrow> \<exists>m'. cJSON_strdup L s m = (Some s, m')"
  using malloc_roomy [of L "length s + 1" m] by (auto simp: cJSON_strdup_def)

lemma store_roomy: "roomy L \<Longrightarrow> length t < n \<Longrightarrow> \<exists>m'. store L n (Some t) m = Some (Some t, m')"
  using malloc_roomy [of L n m] by (auto simp: store_def)

lemma print_string_roomy: "roomy L \<Longrightarrow> \<exists>m'. print_string_ptr L (Some s) m = Some (Some (quote s), m')"
  using store_roomy [of L "quote s" "length (quote s) + 1" m] by (simp add: print_string_ptr_def string_text_quote)

lemma print_scalar_roomy:
  assumes "roomy L" "printable (Item ty vs vi vd str cs)" "ty AND 255 \<noteq> cJSON_Array" "ty AND 255 \<noteq> cJSON_Object"
  shows "\<exists>m'. print_scalar L (ty AND 255) vs vi vd m = Some (Some (scalar_text (ty AND 255) vs vi vd), m')"
proof -
  note d = strdup_roomy [OF assms(1), of _ m]
  consider "ty AND 255 = cJSON_NULL" | "ty AND 255 = cJSON_False" | "ty AND 255 = cJSON_True"
    | (num) "ty AND 255 = cJSON_Number" "number_ok vd vi" | (str) s where "ty AND 255 = cJSON_String" "vs = Some s"
    using assms(2-4) by (auto simp: printable.simps c_string_def split: if_splits)
  then show ?thesis
  proof cases
    case num
    then obtain n t where "number_text vd vi = (n, Some t)" "length t < n" by (auto simp: number_ok_def)
    with num store_roomy [OF assms(1), of t n m] show ?thesis
      by (simp add: print_scalar_def print_number_def scalar_text_def json_types)
  next
    case str
    with print_string_roomy [OF assms(1), of s m] show ?thesis by (simp add: print_scalar_def scalar_text_def json_types)
  qed (use d [of "''null''"] d [of "''false''"] d [of "''true''"] in \<open>auto simp: print_scalar_def scalar_text_def json_types\<close>)
qed

lemma c_int_nat: "n < 2 ^ 31 \<Longrightarrow> c_int (int n) = Some (int n)"
  by (simp add: c_int_def INT_MIN_def INT_MAX_def)

lemma array_body_len: "length (array_body fmt es) \<ge> sum_list (map length es)"
  by (induction fmt es rule: array_body.induct) auto

lemma length_tabs [simp]: "length (tabs k) = k"
  by (simp add: tabs_def)

lemma object_body_len:
  "es \<noteq> [] \<Longrightarrow> length (object_body fmt depth es) \<ge> sum_list (map (\<lambda>(s, e). length e + length s + (if fmt then depth + 3 else 1)) es)"
  by (induction fmt depth es rule: object_body.induct) auto

text \<open>The length that is counted for an array or object is enough, and less than four times that of the text.\<close>

lemma finish_array_roomy:
  assumes "roomy L" "4 * length (''['' @ array_body fmt es @ '']'') < 2 ^ 31" "\<forall>e \<in> set es. e \<noteq> []"
  shows "\<exists>m'. finish_array L fmt (Some es) m = Some (Some (''['' @ array_body fmt es @ '']''), m')"
proof -
  let ?f = "if fmt then 1 else 0 :: nat"
  let ?len = "5 + sum_list (map (\<lambda>e. length e + 2 + ?f) es)"
  have up: "length (array_body fmt es) \<le> sum_list (map (\<lambda>e. length e + 2 + ?f) es)"
    by (induction fmt es rule: array_body.induct) auto
  have "sum_list (map (\<lambda>e. length e + 2 + ?f) es) \<le> sum_list (map (\<lambda>e. 4 * length e) es)"
  proof (rule sum_list_mono)
    fix e assume "e \<in> set es"
    then have "1 \<le> length e" using assms(3) by (simp add: Suc_le_eq)
    then show "length e + 2 + ?f \<le> 4 * length e" by auto
  qed
  also have "\<dots> = 4 * sum_list (map length es)" by (simp add: sum_list_const_mult)
  finally have "?len \<le> 4 * length (''['' @ array_body fmt es @ '']'')" using array_body_len [of es fmt] by simp
  then have l: "?len < 2 ^ 31" using assms(2) by linarith
  have i: "(5 + sum_list (map (\<lambda>e. int (length e) + 2 + (if fmt then 1 else 0)) es)) = int ?len"
    by (induction es) auto
  have "length (''['' @ array_body fmt es @ '']'') < ?len" using up by simp
  then show ?thesis using store_roomy [OF assms(1), of "''['' @ array_body fmt es @ '']''" ?len m]
    unfolding finish_array_def option.case i c_int_nat [OF l] by (simp only: bind.bind_lunit nat_int)
qed

lemma finish_object_roomy:
  fixes fmt :: bool and depth :: nat
  assumes "roomy L" "es \<noteq> []" "\<forall>(s, e) \<in> set es. s \<noteq> [] \<and> e \<noteq> []"
  defines "t \<equiv> ''{'' @ (if fmt then [CHR 0x0A] else []) @ object_body fmt (depth + 1) es @ (if fmt then tabs depth else []) @ ''}''"
  assumes "4 * length t < 2 ^ 31"
  shows "\<exists>m'. finish_object L fmt (depth + 1) (Some es) m = Some (Some t, m')"
proof -
  let ?g = "\<lambda>(s, e). length e + length s + 2 + (if fmt then 2 + (depth + 1) else 0)"
  let ?len = "7 + (if fmt then depth + 1 else 0) + sum_list (map ?g es)"
  have up: "length (object_body fmt (depth + 1) es) \<le> sum_list (map ?g es)"
    by (induction fmt "depth + 1" es rule: object_body.induct) auto
  have "sum_list (map ?g es) \<le> sum_list (map (\<lambda>x. 2 * (case x of (s, e) \<Rightarrow> length e + length s + (if fmt then depth + 1 + 3 else 1))) es)"
  proof (rule sum_list_mono)
    fix x assume "x \<in> set es"
    then have "1 \<le> length (fst x)" "1 \<le> length (snd x)" using assms(3) by (auto simp: Suc_le_eq)
    then show "?g x \<le> 2 * (case x of (s, e) \<Rightarrow> length e + length s + (if fmt then depth + 1 + 3 else 1))"
      by (cases x) auto
  qed
  also have "\<dots> = 2 * sum_list (map (\<lambda>(s, e). length e + length s + (if fmt then depth + 1 + 3 else 1)) es)"
    by (induction es) (simp_all add: split_def)
  finally have "?len \<le> 4 * length t" using object_body_len [OF assms(2), of fmt "depth + 1"] by (cases fmt) (simp_all add: t_def)
  then have l: "?len < 2 ^ 31" using assms(5) by linarith
  have i: "7 + (if fmt then int (depth + 1) else 0) +
      sum_list (map (\<lambda>(s, e). int (length e) + int (length s) + 2 + (if fmt then 2 + int (depth + 1) else 0)) es) = int ?len"
    by (induction es) (auto simp: split_def)
  have "length t < ?len" using up by (cases fmt) (simp_all add: t_def)
  then show ?thesis using store_roomy [OF assms(1), of t ?len m]
    unfolding finish_object_def option.case i c_int_nat [OF l] by (simp only: bind.bind_lunit nat_int t_def add_diff_cancel_right' simp_thms)
qed

lemma scalar_text_neq_Nil:
  assumes "printable (Item ty vs vi vd str cs)" "ty AND 255 \<noteq> cJSON_Array" "ty AND 255 \<noteq> cJSON_Object"
  shows "scalar_text (ty AND 255) vs vi vd \<noteq> []"
  using assms by (auto simp: printable.simps scalar_text_def number_ok_def split: if_splits)

lemma json_text_neq_Nil: "printable c \<Longrightarrow> json_text fmt depth c \<noteq> []"
  using scalar_text_neq_Nil by (cases c) (auto simp: json_text.simps)

lemma print_all_roomy:
  assumes "\<forall>c \<in> set cs. \<forall>m. \<exists>m'. print_value L c depth fmt m = Some (Some (f c), m')"
  shows "\<exists>m'. print_all L cs depth fmt m = Some (Some (map f cs), m')"
  using assms
proof (induction cs arbitrary: m)
  case (Cons c cs)
  from Cons.prems have "\<exists>m'. print_value L c depth fmt m = Some (Some (f c), m')" by simp
  then obtain m1 where "print_value L c depth fmt m = Some (Some (f c), m1)" by blast
  moreover have "\<exists>m'. print_all L cs depth fmt m1 = Some (Some (map f cs), m')" using Cons.prems by (intro Cons.IH) simp
  then obtain m2 where "print_all L cs depth fmt m1 = Some (Some (map f cs), m2)" by blast
  ultimately show ?case by simp
qed simp

lemma print_members_roomy:
  assumes "roomy L" "\<forall>c \<in> set cs. c_string (j_string c)"
    "\<forall>c \<in> set cs. \<forall>m. \<exists>m'. print_value L c depth fmt m = Some (Some (f c), m')"
  shows "\<exists>m'. print_members L cs depth fmt m = Some (Some (map (\<lambda>c. (quote (the (j_string c)), f c)) cs), m')"
  using assms(2,3)
proof (induction cs arbitrary: m)
  case (Cons c cs)
  then obtain s where s: "j_string c = Some s" by (auto simp: c_string_def)
  obtain m1 where "print_string_ptr L (Some s) m = Some (Some (quote s), m1)" using print_string_roomy [OF assms(1)] by blast
  moreover have "\<exists>m'. print_value L c depth fmt m1 = Some (Some (f c), m')" using Cons.prems by simp
  then obtain m2 where "print_value L c depth fmt m1 = Some (Some (f c), m2)" by blast
  moreover have "\<exists>m'. print_members L cs depth fmt m2 = Some (Some (map (\<lambda>c. (quote (the (j_string c)), f c)) cs), m')"
    using Cons.prems by (intro Cons.IH) simp_all
  then obtain m3 where
    "print_members L cs depth fmt m2 = Some (Some (map (\<lambda>c. (quote (the (j_string c)), f c)) cs), m3)" by blast
  ultimately show ?case using s by simp
qed simp

text \<open>The text of a part is shorter than the text around it.\<close>

lemma length_in_array: "e \<in> set es \<Longrightarrow> length e \<le> length (array_body fmt es)"
  using array_body_len [of es fmt] member_le_sum_list [of "length e" "map length es"] by simp

lemma length_in_object: "(s, e) \<in> set es \<Longrightarrow> length s + length e \<le> length (object_body fmt depth es)"
  by (induction fmt depth es rule: object_body.induct) auto

lemma length_part:
  assumes "c \<in> set cs"
  shows "ty AND 255 = cJSON_Array \<Longrightarrow> length (json_text fmt (depth + 1) c) + 2 \<le> length (json_text fmt depth (Item ty vs vi vd str cs))"
    and "ty AND 255 = cJSON_Object \<Longrightarrow> length (quote (the (j_string c))) + length (json_text fmt (depth + 1) c) + 2 \<le>
      length (json_text fmt depth (Item ty vs vi vd str cs))"
  using assms length_in_array [of "json_text fmt (depth + 1) c" "map (json_text fmt (depth + 1)) cs" fmt]
    length_in_object [of "quote (the (j_string c))" "json_text fmt (depth + 1) c"
      "map (\<lambda>c. (quote (the (j_string c)), json_text fmt (depth + 1) c)) cs" fmt "depth + 1"]
  by (auto simp: json_text.simps json_types)

theorem print_value_text:
  assumes "roomy L" "printable c" "4 * length (json_text fmt depth c) < 2 ^ 31"
  shows "\<exists>m'. print_value L c depth fmt m = Some (Some (json_text fmt depth c), m')"
  using assms(2,3)
proof (induction c arbitrary: depth m)
  case (Item ty vs vi vd str cs)
  let ?c = "Item ty vs vi vd str cs"
  consider (arr) "ty AND 255 = cJSON_Array" | (obj) "ty AND 255 = cJSON_Object"
    | (scalar) "ty AND 255 \<noteq> cJSON_Array" "ty AND 255 \<noteq> cJSON_Object" by blast
  then show ?case
  proof cases
    case arr
    then have p: "\<forall>c \<in> set cs. printable c" using Item.prems(1) by (simp add: printable.simps)
    have IH: "\<forall>c \<in> set cs. \<forall>m. \<exists>m'. print_value L c (depth + 1) fmt m = Some (Some (json_text fmt (depth + 1) c), m')"
    proof (intro ballI allI)
      fix c m assume c: "c \<in> set cs"
      with length_part(1) [OF c arr, of fmt depth vs vi vd str] Item.prems(2) p
      show "\<exists>m'. print_value L c (depth + 1) fmt m = Some (Some (json_text fmt (depth + 1) c), m')"
        by (intro Item.IH) auto
    qed
    show ?thesis
    proof (cases "cs = []")
      case True
      with arr store_roomy [OF assms(1), of "''[]''" 3 m] show ?thesis by (simp add: print_value.simps json_text.simps)
    next
      case False
      obtain b m1 where "malloc L (length cs * sizeof_ptr) m = (Some b, m1)" using malloc_roomy [OF assms(1)] by blast
      moreover obtain m2 where "print_all L cs (depth + 1) fmt m1 = Some (Some (map (json_text fmt (depth + 1)) cs), m2)"
        using print_all_roomy [OF IH] by blast
      moreover have "\<forall>e \<in> set (map (json_text fmt (depth + 1)) cs). e \<noteq> []" using p json_text_neq_Nil by auto
      moreover have "4 * length (''['' @ array_body fmt (map (json_text fmt (depth + 1)) cs) @ '']'') < 2 ^ 31"
        using Item.prems(2) arr by (simp add: json_text.simps)
      ultimately show ?thesis
        using arr False finish_array_roomy [OF assms(1), of fmt "map (json_text fmt (depth + 1)) cs" m2]
        by (simp add: print_value.simps json_text.simps)
    qed
  next
    case obj
    then have na: "ty AND 255 \<noteq> cJSON_Array" by (simp add: json_types)
    from obj have p: "\<forall>c \<in> set cs. printable c" "\<forall>c \<in> set cs. c_string (j_string c)"
      using Item.prems(1) by (simp_all add: printable.simps json_types)
    have IH: "\<forall>c \<in> set cs. \<forall>m. \<exists>m'. print_value L c (depth + 1) fmt m = Some (Some (json_text fmt (depth + 1) c), m')"
    proof (intro ballI allI)
      fix c m assume c: "c \<in> set cs"
      with length_part(2) [OF c obj, of fmt depth vs vi vd str] Item.prems(2) p
      show "\<exists>m'. print_value L c (depth + 1) fmt m = Some (Some (json_text fmt (depth + 1) c), m')"
        by (intro Item.IH) auto
    qed
    show ?thesis
    proof (cases "cs = []")
      case True
      let ?t = "''{'' @ (if fmt then CHR 0x0A # tabs (depth - 1) else []) @ ''}''"
      have "length ?t < (if fmt then depth + 4 else 3)" by (cases depth) simp_all
      with True obj na store_roomy [OF assms(1), of ?t "if fmt then depth + 4 else 3" m] show ?thesis
        by (simp add: print_value.simps json_text.simps)
    next
      case False
      obtain b m1 where m1: "malloc L (length cs * sizeof_ptr) m = (Some b, m1)" using malloc_roomy [OF assms(1)] by blast
      obtain b' m2 where m2: "malloc L (length cs * sizeof_ptr) m1 = (Some b', m2)" using malloc_roomy [OF assms(1)] by blast
      let ?es = "map (\<lambda>c. (quote (the (j_string c)), json_text fmt (depth + 1) c)) cs"
      obtain m3 where m3: "print_members L cs (depth + 1) fmt m2 = Some (Some ?es, m3)"
        using print_members_roomy [OF assms(1) p(2) IH] by blast
      have ne: "\<forall>(s, e) \<in> set ?es. s \<noteq> [] \<and> e \<noteq> []" "?es \<noteq> []" using p json_text_neq_Nil False by auto
      have "4 * length (''{'' @ (if fmt then [CHR 0x0A] else []) @ object_body fmt (depth + 1) ?es @ (if fmt then tabs depth else []) @ ''}'') < 2 ^ 31"
        using Item.prems(2) obj na False by (simp add: json_text.simps)
      from finish_object_roomy [OF assms(1) ne(2,1) this, of m3] m1 m2 m3 obj na False show ?thesis
        by (auto simp: print_value.simps json_text.simps)
    qed
  next
    case scalar
    with print_scalar_roomy [OF assms(1) Item.prems(1), of m] show ?thesis by (simp add: print_value.simps json_text.simps)
  qed
qed

end
