(* ===== verification/Json_Buffered.thy ===== *)
theory Json_Buffered
  imports Json_Text
begin

text \<open>
  The printer into a growing buffer writes the text of the item at the offset, whatever the first size
  of the buffer and however often it grows.
\<close>

text \<open>
  The text is made of the parts, none of which has a terminator in it.
\<close>

lemma print_char_no_NUL:
  assumes "c \<noteq> NUL"
  shows "NUL \<notin> set (print_char c)"
proof -
  have h: "\<forall>k \<in> set [0..<16]. hex_digit k \<noteq> NUL" by code_simp
  have "(of_char c :: nat) < 256" by (rule nat_of_char_less_256)
  then have "(of_char c :: nat) div 16 < 16" by linarith
  with h have "hex_digit (of_char c div 16) \<noteq> NUL" "hex_digit (of_char c mod 16) \<noteq> NUL" by auto
  with assms show ?thesis by (simp add: print_char_def escape_of_def Let_def)
qed

lemma quote_no_NUL: "NUL \<notin> set s \<Longrightarrow> NUL \<notin> set (quote s)"
proof -
  assume "NUL \<notin> set s"
  then have "\<forall>c \<in> set s. NUL \<notin> set (print_char c)" using print_char_no_NUL by metis
  then show ?thesis by (simp add: quote_def)
qed

lemma tabs_no_NUL [simp]: "NUL \<notin> set (tabs k)"
  by (simp add: tabs_def)

lemma array_body_no_NUL: "\<forall>e \<in> set es. NUL \<notin> set e \<Longrightarrow> NUL \<notin> set (array_body fmt es)"
  by (induction fmt es rule: array_body.induct) auto

lemma object_body_no_NUL: "\<forall>(s, e) \<in> set es. NUL \<notin> set s \<and> NUL \<notin> set e \<Longrightarrow> NUL \<notin> set (object_body fmt depth es)"
  by (induction fmt depth es rule: object_body.induct) auto

lemma scalar_text_no_NUL:
  assumes "printable (Item ty vs vi vd str cs)" "ty AND 255 \<noteq> cJSON_Array" "ty AND 255 \<noteq> cJSON_Object"
  shows "NUL \<notin> set (scalar_text (ty AND 255) vs vi vd)"
proof -
  consider "ty AND 255 = cJSON_NULL" | "ty AND 255 = cJSON_False" | "ty AND 255 = cJSON_True"
    | (num) "ty AND 255 = cJSON_Number" "number_ok vd vi" | (str) s where "ty AND 255 = cJSON_String" "vs = Some s" "NUL \<notin> set s"
    using assms by (auto simp: printable.simps c_string_def split: if_splits)
  then show ?thesis
  proof cases
    case num
    then show ?thesis unfolding number_ok_def by (auto simp: scalar_text_def json_types)
  next
    case str
    then show ?thesis using quote_no_NUL by (simp add: scalar_text_def json_types)
  qed (simp_all add: scalar_text_def json_types)
qed

lemma json_text_no_NUL: "printable c \<Longrightarrow> NUL \<notin> set (json_text fmt depth c)"
proof (induction c arbitrary: depth)
  case (Item ty vs vi vd str cs)
  consider (arr) "ty AND 255 = cJSON_Array" | (obj) "ty AND 255 = cJSON_Object"
    | (scalar) "ty AND 255 \<noteq> cJSON_Array" "ty AND 255 \<noteq> cJSON_Object" by blast
  then show ?case
  proof cases
    case arr
    then have "\<forall>c \<in> set cs. printable c" using Item.prems by (simp add: printable.simps)
    then have "\<forall>e \<in> set (map (json_text fmt (depth + 1)) cs). NUL \<notin> set e" using Item.IH by auto
    from array_body_no_NUL [OF this, of fmt] arr show ?thesis by (simp add: json_text.simps)
  next
    case obj
    then have p: "\<forall>c \<in> set cs. printable c" "\<forall>c \<in> set cs. c_string (j_string c)" "ty AND 255 \<noteq> cJSON_Array"
      using Item.prems by (simp_all add: printable.simps json_types)
    let ?es = "map (\<lambda>c. (quote (the (j_string c)), json_text fmt (depth + 1) c)) cs"
    have "\<forall>(s, e) \<in> set ?es. NUL \<notin> set s \<and> NUL \<notin> set e"
      using p(1,2) Item.IH quote_no_NUL by (fastforce simp: c_string_def)
    from object_body_no_NUL [OF this, of fmt "depth + 1"] obj p(3) show ?thesis by (simp add: json_text.simps)
  next
    case scalar
    with scalar_text_no_NUL [OF Item.prems] show ?thesis by (simp add: json_text.simps)
  qed
qed

subsection \<open>The buffer\<close>

text \<open>The next size of the buffer holds what is needed and stays within the bound.\<close>

lemma or_shift_bounds:
  fixes z :: int
  assumes "0 \<le> z" "z < 2 ^ 30"
  shows "z \<le> z OR drop_bit k z" "z OR drop_bit k z < 2 ^ 30"
proof -
  have "0 \<le> drop_bit k z" using assms(1) by simp
  moreover have "drop_bit k z < 2 ^ 30" using assms div_int_pos_iff [of z "2 ^ k"] zdiv_mono2 [of z 1 "2 ^ k"] by (simp add: drop_bit_eq_div)
  ultimately show "z \<le> z OR drop_bit k z" "z OR drop_bit k z < 2 ^ 30"
    using or_greater_eq [of "drop_bit k z" z] OR_upper [of z 30 "drop_bit k z"] assms by auto
qed

lemma pow2gt_bounds:
  assumes "0 < x" "x \<le> 2 ^ 30"
  shows "\<exists>y. pow2gt x = Some y \<and> x \<le> y \<and> y \<le> 2 ^ 30"
proof -
  define s where "s k z = z OR drop_bit k z" for k and z :: int
  have s: "z \<le> s k z \<and> s k z < 2 ^ 30" if "0 \<le> z" "z < 2 ^ 30" for k z
    using or_shift_bounds [OF that] by (simp add: s_def)
  let ?a = "x - 1" and ?b = "s 1 (x - 1)"
  let ?c = "s 2 ?b" let ?d = "s 4 ?c" let ?e = "s 8 ?d" let ?f = "s 16 ?e"
  have "0 \<le> ?a" "?a < 2 ^ 30" using assms by auto
  moreover from this have "?a \<le> ?b" "?b < 2 ^ 30" using s [of ?a 1] by auto
  moreover from calculation have "?b \<le> ?c" "?c < 2 ^ 30" using s [of ?b 2] by auto
  moreover from calculation have "?c \<le> ?d" "?d < 2 ^ 30" using s [of ?c 4] by auto
  moreover from calculation have "?d \<le> ?e" "?e < 2 ^ 30" using s [of ?d 8] by auto
  moreover from calculation have "?e \<le> ?f" "?f < 2 ^ 30" using s [of ?e 16] by auto
  ultimately have b: "x \<le> ?f + 1" "?f + 1 \<le> 2 ^ 30" by linarith+
  then have "c_int (x - 1) = Some (x - 1)" "c_int (?f + 1) = Some (?f + 1)"
    using assms by (simp_all add: c_int_def INT_MIN_def INT_MAX_def)
  then have "pow2gt x = Some (?f + 1)" by (simp add: pow2gt_def Let_def s_def)
  with b show ?thesis by blast
qed

text \<open>The buffer starts with \<open>s\<close>, the offset is behind it, and \<open>t\<close> has been written there.\<close>

definition buf_at :: "printbuffer \<Rightarrow> bytes \<Rightarrow> bytes \<Rightarrow> bool" where
  "buf_at p s t \<longleftrightarrow> (\<exists>r. pb_buffer p = Some (s @ t @ r) \<and> pb_length p = int (length (s @ t @ r)) \<and>
     pb_length p \<le> 2 ^ 30 \<and> pb_offset p = int (length s))"

lemma buf_at_Nil: "buf_at p s t \<Longrightarrow> buf_at p s []"
  by (auto simp: buf_at_def)

lemma ensure_at:
  assumes "roomy L" "buf_at p s []" "0 < needed" "int (length s) + needed \<le> 2 ^ 30"
  shows "\<exists>p' m'. ensure L needed p m = Some ((True, p'), m') \<and> buf_at p' s [] \<and> int (length s) + needed \<le> pb_length p'"
proof -
  obtain r where r: "pb_buffer p = Some (s @ r)" "pb_length p = int (length (s @ r))" "pb_length p \<le> 2 ^ 30" "pb_offset p = int (length s)"
    using assms(2) by (auto simp: buf_at_def)
  let ?n = "needed + int (length s)"
  have c: "c_int ?n = Some ?n" using assms(3,4) by (simp add: c_int_def INT_MIN_def INT_MAX_def)
  show ?thesis
  proof (cases "?n \<le> pb_length p")
    case True
    with c r assms(2) show ?thesis by (simp add: ensure_def)
  next
    case False
    obtain y where y: "pow2gt ?n = Some y" "?n \<le> y" "y \<le> 2 ^ 30" using pow2gt_bounds [of ?n] assms(3,4) by auto
    obtain nb m1 where nb: "malloc L (to_size_t y) m = (Some nb, m1)" "length nb = to_size_t y" using malloc_roomy [OF assms(1)] by blast
    have sz: "to_size_t y = nat y" "to_size_t (pb_length p) = length (s @ r)"
      using y(2,3) assms(3) r(2,3) by (simp_all add: to_size_t_def)
    have "length (s @ r) \<le> nat y" using False y(2) r(2) by simp
    then have "memcpy nb 0 (s @ r) (length (s @ r)) = Some (s @ r @ drop (length (s @ r)) nb)" using nb sz by (simp add: memcpy_def)
    then show ?thesis using False c r y nb sz assms(3) \<open>length (s @ r) \<le> nat y\<close>
      by (auto simp: ensure_def buf_at_def)
  qed
qed

lemma append_at:
  assumes "roomy L" "buf_at p s []" "0 < needed" "int (length s) + needed \<le> 2 ^ 30" "int (length t) \<le> needed" "k \<le> length t"
  shows "\<exists>p' m'. append L needed (Some t) (int k) p m = Some ((True, p'), m') \<and> buf_at p' (s @ take k t) (drop k t)"
proof -
  obtain p1 m1 where p1: "ensure L needed p m = Some ((True, p1), m1)" "buf_at p1 s []" "int (length s) + needed \<le> pb_length p1"
    using ensure_at [OF assms(1-4)] by blast
  then obtain r where r: "pb_buffer p1 = Some (s @ r)" "pb_length p1 = int (length (s @ r))" "pb_length p1 \<le> 2 ^ 30"
    "pb_offset p1 = int (length s)" by (auto simp: buf_at_def)
  have "length t \<le> length r" using p1(3) r(2) assms(5) by simp
  then have "memcpy (s @ r) (length s) t (length t) = Some (s @ t @ drop (length t) r)" by (simp add: memcpy_def)
  then have "put t (int k) p1 = Some (p1\<lparr>pb_buffer := Some (s @ t @ drop (length t) r), pb_offset := int (length s) + int k\<rparr>)"
    using r by (simp add: put_def)
  moreover have "buf_at (p1\<lparr>pb_buffer := Some (s @ t @ drop (length t) r), pb_offset := int (length s) + int k\<rparr>) (s @ take k t) (drop k t)"
    using r assms(6) \<open>length t \<le> length r\<close>
    by (auto simp: buf_at_def intro!: exI [of _ "drop (length t) r"])
  ultimately show ?thesis using p1(1) by (simp add: append_def)
qed

lemma update_at:
  assumes "buf_at p s (t @ [NUL])" "NUL \<notin> set t"
  shows "\<exists>p'. update p = Some p' \<and> buf_at p' (s @ t) []"
  using assms by (auto simp: buf_at_def update_def)

text \<open>
  A value has been written with its terminator; the offset is at its start or, behind an array or
  object, at its closing bracket.
\<close>

definition written :: "printbuffer \<Rightarrow> bytes \<Rightarrow> string \<Rightarrow> bool" where
  "written p s t \<longleftrightarrow> (\<exists>u v. t = u @ v \<and> buf_at p (s @ u) (v @ [NUL]))"

lemma written_at: "buf_at p s (t @ [NUL]) \<Longrightarrow> written p s t"
  unfolding written_def by (intro exI [of _ "[]"] exI [of _ t]) simp

lemma update_written:
  assumes "written p s t" "NUL \<notin> set t"
  shows "\<exists>p'. update p = Some p' \<and> buf_at p' (s @ t) []"
  using assms update_at unfolding written_def by fastforce

subsection \<open>The values\<close>

text \<open>A whole string with its terminator at the offset, and the offset moved behind it.\<close>

lemma append_string:
  assumes "roomy L" "buf_at p s []" "0 < needed" "int (length s) + needed \<le> 2 ^ 30" "length t < nat needed"
  shows "\<exists>p' m'. append L needed (Some (t @ [NUL])) 0 p m = Some ((True, p'), m') \<and> buf_at p' s (t @ [NUL])"
  using append_at [OF assms(1-4), of "t @ [NUL]" 0 m] assms(5) by simp

text \<open>A separator, of which the terminator (if any) is to be overwritten.\<close>

lemma append_sep:
  assumes "roomy L" "buf_at p s []" "0 < needed" "int (length s) + needed \<le> 2 ^ 30" "int (length (t @ u)) \<le> needed" "k = int (length t)"
  shows "\<exists>p' m'. append L needed (Some (t @ u)) k p m = Some ((True, p'), m') \<and> buf_at p' (s @ t) []"
proof -
  obtain p' m' where "append L needed (Some (t @ u)) k p m = Some ((True, p'), m')" "buf_at p' (s @ t) u"
    using append_at [OF assms(1-5), of "length t" m] assms(6) by auto
  then show ?thesis using buf_at_Nil by blast
qed

lemma buf_string_at:
  assumes "roomy L" "buf_at p s []" "length s + length (quote t) + 1 \<le> 2 ^ 30"
  shows "\<exists>p' m'. buf_string L (Some t) p m = Some ((True, p'), m') \<and> buf_at p' s (quote t @ [NUL])"
  using append_string [OF assms(1,2), of "int (length (quote t) + 1)" "quote t" m] assms(3)
  by (simp add: buf_string_def string_text_quote)

lemma buf_scalar_at:
  assumes "roomy L" "buf_at p s []" "printable (Item ty vs vi vd str cs)" "ty AND 255 \<noteq> cJSON_Array" "ty AND 255 \<noteq> cJSON_Object"
    and len: "length s + length (scalar_text (ty AND 255) vs vi vd) + 64 \<le> 2 ^ 30"
  shows "\<exists>p' m'. buf_scalar L (ty AND 255) vs vi vd p m = Some ((True, p'), m') \<and> buf_at p' s (scalar_text (ty AND 255) vs vi vd @ [NUL])"
proof -
  note a = append_string [OF assms(1,2)]
  consider "ty AND 255 = cJSON_NULL" | "ty AND 255 = cJSON_False" | "ty AND 255 = cJSON_True"
    | (num) "ty AND 255 = cJSON_Number" "number_ok vd vi" | (str) t where "ty AND 255 = cJSON_String" "vs = Some t"
    using assms(3-5) by (auto simp: printable.simps c_string_def split: if_splits)
  then show ?thesis
  proof cases
    case num
    then obtain n t where n: "number_text vd vi = (n, Some t)" "length t < n" "n \<le> 64" by (auto simp: number_ok_def)
    then show ?thesis using num a [of "int n" t m] len
      by (simp add: buf_scalar_def scalar_text_def json_types)
  next
    case str
    then show ?thesis using buf_string_at [OF assms(1,2), of t m] len by (simp add: buf_scalar_def scalar_text_def json_types)
  qed (use a [of 5 "''null''" m] a [of 6 "''false''" m] a [of 5 "''true''" m] len in
      \<open>auto simp: buf_scalar_def scalar_text_def json_types\<close>)
qed

text \<open>What is shown for the parts of an array or object: \<open>f c\<close> is written for every part \<open>c\<close>.\<close>

definition writes :: "'m allocator \<Rightarrow> nat \<Rightarrow> bool \<Rightarrow> (cJSON \<Rightarrow> string) \<Rightarrow> cJSON list \<Rightarrow> bool" where
  "writes L depth fmt f cs \<longleftrightarrow> (\<forall>c \<in> set cs. \<forall>p s m. buf_at p s [] \<longrightarrow> length s + length (f c) + 64 \<le> 2 ^ 30 \<longrightarrow>
     (\<exists>p' m'. buf_value L c depth fmt p m = Some ((True, p'), m') \<and> written p' s (f c)))"

lemma writes_Cons:
  assumes "writes L depth fmt f (c # cs)" "buf_at p s []" "length s + length (f c) + 64 \<le> 2 ^ 30" "NUL \<notin> set (f c)"
  shows "\<exists>p' p'' m'. buf_value L c depth fmt p m = Some ((True, p'), m') \<and> update p' = Some p'' \<and> buf_at p'' (s @ f c) []"
proof -
  obtain p' m' where "buf_value L c depth fmt p m = Some ((True, p'), m')" "written p' s (f c)"
    using assms(1-3) unfolding writes_def by (meson list.set_intros(1))
  then show ?thesis using update_written assms(4) by blast
qed

lemma writes_tl: "writes L depth fmt f (c # cs) \<Longrightarrow> writes L depth fmt f cs"
  by (simp add: writes_def)

lemma buf_elements_at:
  assumes "roomy L" "writes L depth fmt f cs" "\<forall>c \<in> set cs. NUL \<notin> set (f c)" "buf_at p s []"
    "length s + length (array_body fmt (map f cs)) + 64 \<le> 2 ^ 30"
  shows "\<exists>p' m'. buf_elements L cs depth fmt p m = Some ((True, p'), m') \<and> buf_at p' (s @ array_body fmt (map f cs)) []"
  using assms(2-5)
proof (induction cs arbitrary: p s m)
  case (Cons c cs)
  let ?sep = "'','' @ (if fmt then '' '' else [])"
  have e: "array_body fmt (map f (c # cs)) = f c @ (if cs = [] then [] else ?sep @ array_body fmt (map f cs))"
    by (cases cs) simp_all
  have len: "length s + length (f c) + (if cs = [] then 0 else length ?sep + length (array_body fmt (map f cs))) + 64 \<le> 2 ^ 30"
    using Cons.prems(4) unfolding e by (cases "cs = []") auto
  then have "length s + length (f c) + 64 \<le> 2 ^ 30" by simp
  then obtain p1 p2 m1 where 1: "buf_value L c depth fmt p m = Some ((True, p1), m1)" "update p1 = Some p2" "buf_at p2 (s @ f c) []"
    using writes_Cons [OF Cons.prems(1,3)] Cons.prems(2) by (metis list.set_intros(1))
  show ?case
  proof (cases "cs = []")
    case False
    have "\<exists>p' m'. append L (if fmt then 3 else 2) (Some (?sep @ [NUL])) (if fmt then 2 else 1) p2 m1 = Some ((True, p'), m')
        \<and> buf_at p' ((s @ f c) @ ?sep) []"
      using len False by (intro append_sep [OF assms(1) 1(3)]) auto
    then obtain p3 m3 where 2: "append L (if fmt then 3 else 2) (Some (?sep @ [NUL])) (if fmt then 2 else 1) p2 m1 = Some ((True, p3), m3)"
      "buf_at p3 (s @ f c @ ?sep) []" by auto
    have "length (s @ f c @ ?sep) + length (array_body fmt (map f cs)) + 64 \<le> 2 ^ 30" using len False by simp
    from Cons.IH [OF writes_tl [OF Cons.prems(1)] _ 2(2) this, of m3] Cons.prems(2)
    obtain p4 m4 where "buf_elements L cs depth fmt p3 m3 = Some ((True, p4), m4)"
      "buf_at p4 ((s @ f c @ ?sep) @ array_body fmt (map f cs)) []" by auto
    with 1 2 False show ?thesis unfolding e by simp
  qed (use 1 in simp)
qed simp

lemma int_bound: "a + b \<le> (2 :: nat) ^ 30 \<Longrightarrow> int b = k \<Longrightarrow> int a + k \<le> 2 ^ 30"
  by simp

lemma buf_members_at:
  assumes "roomy L" "0 < depth" "writes L depth fmt f cs" "\<forall>c \<in> set cs. NUL \<notin> set (f c)" "\<forall>c \<in> set cs. c_string (j_string c)"
    "buf_at p s []" "length s + length (object_body fmt depth (map (\<lambda>c. (quote (the (j_string c)), f c)) cs)) + 64 \<le> 2 ^ 30"
  shows "\<exists>p' m'. buf_members L cs depth fmt p m = Some ((True, p'), m') \<and>
    buf_at p' (s @ object_body fmt depth (map (\<lambda>c. (quote (the (j_string c)), f c)) cs)) []"
  using assms(3-7)
proof (induction cs arbitrary: p s m)
  case (Cons c cs)
  obtain n where n: "j_string c = Some n" "NUL \<notin> set n" using Cons.prems(3) by (auto simp: c_string_def)
  let ?ind = "if fmt then tabs depth else []" and ?colon = "'':'' @ (if fmt then tabs 1 else [])"
  let ?sep = "(if cs = [] then [] else '','') @ (if fmt then [CHR 0x0A] else [])"
  let ?rest = "object_body fmt depth (map (\<lambda>c. (quote (the (j_string c)), f c)) cs)"
  let ?k = "(if fmt then 1 else 0) + (if cs = [] then 0 else 1) :: int"
  have e: "object_body fmt depth (map (\<lambda>c. (quote (the (j_string c)), f c)) (c # cs)) =
      ?ind @ quote n @ ?colon @ f c @ ?sep @ ?rest" using n by simp
  have len: "length s + (length ?ind + (length (quote n) + (length ?colon + (length (f c) + (length ?sep + length ?rest))))) + 64 \<le> 2 ^ 30"
    using Cons.prems(5) unfolding e by (simp only: length_append)
  have k: "?k = int (length ?sep)" by simp
  have ind: "length s + length ?ind \<le> 2 ^ 30" using len by (simp only: length_append)
  have "\<exists>p1 m1. (if fmt then append L (int depth) (Some (tabs depth)) (int depth) p m else Some ((True, p), m)) = Some ((True, p1), m1)
      \<and> buf_at p1 (s @ ?ind) []"
  proof (cases fmt)
    case True
    have "length s + depth \<le> 2 ^ 30" using ind by (simp only: True if_True length_tabs)
    then have "\<exists>p1 m1. append L (int depth) (Some (tabs depth @ [])) (int depth) p m = Some ((True, p1), m1) \<and> buf_at p1 (s @ tabs depth) []"
      using assms(2) by (intro append_sep [OF assms(1) Cons.prems(4)]) simp_all
    then show ?thesis by (simp only: True if_True append_Nil2)
  next
    case False
    show ?thesis using Cons.prems(4) by (simp add: False)
  qed
  then obtain p1 m1 where 1: "(if fmt then append L (int depth) (Some (tabs depth)) (int depth) p m else Some ((True, p), m)) = Some ((True, p1), m1)"
    "buf_at p1 (s @ ?ind) []" by blast
  have "length (s @ ?ind) + length (quote n) + 1 \<le> 2 ^ 30" using len by (simp only: length_append)
  from buf_string_at [OF assms(1) 1(2) this, of m1] obtain p2 m2
    where 2: "buf_string L (j_string c) p1 m1 = Some ((True, p2), m2)" "buf_at p2 (s @ ?ind) (quote n @ [NUL])" unfolding n(1) by blast
  obtain p3 where 3: "update p2 = Some p3" "buf_at p3 ((s @ ?ind) @ quote n) []" using update_at [OF 2(2) quote_no_NUL [OF n(2)]] by blast
  have "\<exists>p' m'. append L (if fmt then 2 else 1) (Some (?colon @ [])) (if fmt then 2 else 1) p3 m2 = Some ((True, p'), m')
      \<and> buf_at p' (((s @ ?ind) @ quote n) @ ?colon) []"
  proof (rule append_sep [OF assms(1) 3(2)])
    have "length ((s @ ?ind) @ quote n) + length ?colon \<le> 2 ^ 30" using len by (simp only: length_append)
    moreover have "int (length ?colon) = (if fmt then 2 else 1)" by simp
    ultimately show "int (length ((s @ ?ind) @ quote n)) + (if fmt then 2 else 1) \<le> 2 ^ 30" by (rule int_bound)
  qed simp_all
  then obtain p4 m4 where 4: "append L (if fmt then 2 else 1) (Some ?colon) (if fmt then 2 else 1) p3 m2 = Some ((True, p4), m4)"
    "buf_at p4 (((s @ ?ind) @ quote n) @ ?colon) []" by auto
  have "length (((s @ ?ind) @ quote n) @ ?colon) + length (f c) + 64 \<le> 2 ^ 30" using len by (simp only: length_append)
  from writes_Cons [OF Cons.prems(1) 4(2) this, of m4] Cons.prems(2) obtain p5 p6 m5
    where 5: "buf_value L c depth fmt p4 m4 = Some ((True, p5), m5)" "update p5 = Some p6"
      "buf_at p6 ((((s @ ?ind) @ quote n) @ ?colon) @ f c) []" by auto
  have "\<exists>p' m'. append L (?k + 1) (Some (?sep @ [NUL])) ?k p6 m5 = Some ((True, p'), m')
      \<and> buf_at p' (((((s @ ?ind) @ quote n) @ ?colon) @ f c) @ ?sep) []"
  proof (rule append_sep [OF assms(1) 5(3)])
    have "length ((((s @ ?ind) @ quote n) @ ?colon) @ f c) + (length ?sep + 1) \<le> 2 ^ 30" using len by (simp only: length_append)
    moreover have "int (length ?sep + 1) = ?k + 1" using k by simp
    ultimately show "int (length ((((s @ ?ind) @ quote n) @ ?colon) @ f c)) + (?k + 1) \<le> 2 ^ 30" by (rule int_bound)
  qed simp_all
  then obtain p7 m7 where 7: "append L (?k + 1) (Some (?sep @ [NUL])) ?k p6 m5 = Some ((True, p7), m7)"
    "buf_at p7 (((((s @ ?ind) @ quote n) @ ?colon) @ f c) @ ?sep) []" by blast
  have "length (((((s @ ?ind) @ quote n) @ ?colon) @ f c) @ ?sep) + length ?rest + 64 \<le> 2 ^ 30" using len by (simp only: length_append)
  from Cons.IH [OF writes_tl [OF Cons.prems(1)] _ _ 7(2) this, of m7] Cons.prems(2,3) obtain p8 m8
    where 8: "buf_members L cs depth fmt p7 m7 = Some ((True, p8), m8)"
      "buf_at p8 ((((((s @ ?ind) @ quote n) @ ?colon) @ f c) @ ?sep) @ ?rest) []" by auto
  have "buf_members L (c # cs) depth fmt p m = Some ((True, p8), m8)"
    using 1(1) 2(1) 3(1) 4(1) 5(1,2) 7(1) 8(1) by (simp only: buf_members.simps bind.bind_lunit prod.case Let_def append_assoc simp_thms if_True if_False)
  with 8(2) show ?case unfolding e by (simp only: append_assoc) blast
qed simp

theorem buf_value_at:
  assumes "roomy L" "printable c" "buf_at p s []" "length s + length (json_text fmt depth c) + 64 \<le> 2 ^ 30"
  shows "\<exists>p' m'. buf_value L c depth fmt p m = Some ((True, p'), m') \<and> written p' s (json_text fmt depth c)"
  using assms(2-4)
proof (induction c arbitrary: p s m depth)
  case (Item ty vs vi vd str cs)
  let ?f = "json_text fmt (depth + 1)"
  consider (arr) "ty AND 255 = cJSON_Array" | (obj) "ty AND 255 = cJSON_Object"
    | (scalar) "ty AND 255 \<noteq> cJSON_Array" "ty AND 255 \<noteq> cJSON_Object" by blast
  then show ?case
  proof cases
    case arr
    then have p: "\<forall>c \<in> set cs. printable c" using Item.prems(1) by (simp add: printable.simps)
    then have w: "writes L (depth + 1) fmt ?f cs" using Item.IH unfolding writes_def by blast
    let ?b = "array_body fmt (map ?f cs)"
    have t: "json_text fmt depth (Item ty vs vi vd str cs) = ''['' @ ?b @ '']''" using arr by (simp add: json_text.simps)
    have len: "length s + (1 + (length ?b + 1)) + 64 \<le> 2 ^ 30" using Item.prems(3) unfolding t by simp
    show ?thesis
    proof (cases "cs = []")
      case True
      with arr append_string [OF assms(1) Item.prems(2), of 3 "''[]''" m] len written_at show ?thesis
        unfolding t by (fastforce simp: buf_value.simps)
    next
      case False
      obtain p1 m1 where 1: "append L 1 (Some ''['') 1 p m = Some ((True, p1), m1)" "buf_at p1 (s @ ''['') []"
        using append_sep [OF assms(1) Item.prems(2), of 1 "''[''" "[]" 1 m] len by auto
      obtain p2 m2 where 2: "buf_elements L cs (depth + 1) fmt p1 m1 = Some ((True, p2), m2)" "buf_at p2 ((s @ ''['') @ ?b) []"
        using buf_elements_at [OF assms(1) w _ 1(2), of m1] p json_text_no_NUL len by auto
      obtain p3 m3 where "append L 2 (Some ('']'' @ [NUL])) 0 p2 m2 = Some ((True, p3), m3)" "buf_at p3 ((s @ ''['') @ ?b) ('']'' @ [NUL])"
        using append_string [OF assms(1) 2(2), of 2 "'']''" m2] len by auto
      moreover from this have "written p3 s (''['' @ ?b @ '']'')"
        unfolding written_def by (intro exI [of _ "''['' @ ?b"] exI [of _ "'']''"]) simp
      ultimately show ?thesis using arr False 1(1) 2(1) unfolding t by (simp add: buf_value.simps)
    qed
  next
    case obj
    then have p: "\<forall>c \<in> set cs. printable c" "\<forall>c \<in> set cs. c_string (j_string c)" "ty AND 255 \<noteq> cJSON_Array"
      using Item.prems(1) by (simp_all add: printable.simps json_types)
    from p(1) have w: "writes L (depth + 1) fmt ?f cs" using Item.IH unfolding writes_def by blast
    let ?b = "object_body fmt (depth + 1) (map (\<lambda>c. (quote (the (j_string c)), ?f c)) cs)"
    let ?op = "''{'' @ (if fmt then [CHR 0x0A] else [])" and ?ind = "if fmt then tabs depth else []"
    show ?thesis
    proof (cases "cs = []")
      case True
      let ?t = "''{'' @ (if fmt then CHR 0x0A # tabs (depth - 1) else []) @ ''}''"
      have t: "json_text fmt depth (Item ty vs vi vd str cs) = ?t" using obj p(3) True by (simp add: json_text.simps)
      have "int (length s) + (if fmt then int depth + 4 else 3) \<le> 2 ^ 30" "length ?t < nat (if fmt then int depth + 4 else 3)"
        using Item.prems(3) unfolding t by (cases depth; auto split: if_splits)+
      from append_string [OF assms(1) Item.prems(2) _ this, of m] obj p(3) True written_at show ?thesis
        unfolding t by (fastforce simp: buf_value.simps)
    next
      case False
      have t: "json_text fmt depth (Item ty vs vi vd str cs) = ?op @ ?b @ ?ind @ ''}''" using obj p(3) False by (simp add: json_text.simps)
      have len: "length s + (length ?op + (length ?b + (length ?ind + 1))) + 64 \<le> 2 ^ 30" using Item.prems(3) unfolding t by simp
      have "\<exists>p' m'. append L (if fmt then 3 else 2) (Some (?op @ [NUL])) (if fmt then 2 else 1) p m = Some ((True, p'), m')
          \<and> buf_at p' (s @ ?op) []"
        using len by (intro append_sep [OF assms(1) Item.prems(2)]) (auto split: if_splits)
      then obtain p1 m1 where 1: "append L (if fmt then 3 else 2) (Some (?op @ [NUL])) (if fmt then 2 else 1) p m = Some ((True, p1), m1)"
        "buf_at p1 (s @ ?op) []" by blast
      have "length (s @ ?op) + length ?b + 64 \<le> 2 ^ 30" using len by (simp only: length_append)
      from buf_members_at [OF assms(1) _ w _ p(2) 1(2) this, of m1] p(1) json_text_no_NUL obtain p2 m2
        where 2: "buf_members L cs (depth + 1) fmt p1 m1 = Some ((True, p2), m2)" "buf_at p2 ((s @ ?op) @ ?b) []" by auto
      have "\<exists>p' m'. append L (if fmt then int depth + 2 else 2) (Some ((?ind @ ''}'') @ [NUL])) 0 p2 m2 = Some ((True, p'), m')
          \<and> buf_at p' ((s @ ?op) @ ?b) ((?ind @ ''}'') @ [NUL])"
        using len by (intro append_string [OF assms(1) 2(2)]) (auto split: if_splits)
      then obtain p3 m3 where 3: "append L (if fmt then int depth + 2 else 2) (Some ((?ind @ ''}'') @ [NUL])) 0 p2 m2 = Some ((True, p3), m3)"
        "buf_at p3 ((s @ ?op) @ ?b) ((?ind @ ''}'') @ [NUL])" by blast
      then have "written p3 s (?op @ ?b @ ?ind @ ''}'')"
        unfolding written_def by (intro exI [of _ "?op @ ?b"] exI [of _ "?ind @ ''}''"]) simp
      moreover have "buf_value L (Item ty vs vi vd str cs) depth fmt p m = Some ((True, p3), m3)"
        using obj p(3) False 1(1) 2(1) 3(1) by (simp add: buf_value.simps)
      ultimately show ?thesis unfolding t by blast
    qed
  next
    case scalar
    with buf_scalar_at [OF assms(1) Item.prems(2,1), of m] Item.prems(3) written_at show ?thesis
      by (fastforce simp: buf_value.simps json_text.simps)
  qed
qed

end
