(* ===== verification/Json_Parse.thy ===== *)
theory Json_Parse
  imports Json_Item
begin

text \<open>
  The parser of cJSON. A pointer into the text is the rest of the text from there, without its
  terminator: reading at the empty rest gives NUL, and a step beyond it leaves the string, which is
  undefined. A parser returns NULL (\<open>Fail\<close>, with the position it stored in \<open>ep\<close>, if any) or the rest
  behind what it read (\<open>Done\<close>). An item that a failing parser had filled in is given back, so it is
  no part of the result.
\<close>

datatype 'a parsed = Fail "string option" | Done 'a string

subsection \<open>Numbers\<close>

text \<open>\<open>n = (n * 10.0) + (*num++ - '0')\<close> over the digits.\<close>

fun read_digits :: "string \<Rightarrow> double \<Rightarrow> int \<Rightarrow> double \<times> int \<times> string" where
  "read_digits [] n k = (n, k, [])"
| "read_digits (c # s) n k =
     (if isdigit c then read_digits s (dadd (dmul n (Fin 10)) (Fin (of_nat (digit_val c)))) (k + 1) else (n, k, c # s))"

fun read_exponent :: "string \<Rightarrow> int \<Rightarrow> (int \<times> string) option" where
  "read_exponent [] subscale = Some (subscale, [])"
| "read_exponent (c # s) subscale =
     (if isdigit c then do {
        a \<leftarrow> c_int (subscale * 10);
        b \<leftarrow> c_int (a + int (digit_val c));
        read_exponent s b
      }
      else Some (subscale, c # s))"

text \<open>
  \<open>pow (10.0, k)\<close> is rounded as the library likes; it is the parameter \<open>P\<close>. The result is the value as a
  \<open>double\<close>, as an \<open>int\<close>, and the rest.
\<close>

definition parse_number :: "(int \<Rightarrow> double) \<Rightarrow> string \<Rightarrow> (double \<times> int \<times> string) option" where
  "parse_number P num = do {
     let (sign, num) = (if peek num = CHR ''-'' then (-1, drop 1 num) else (1, num));
     let num = (if peek num = CHR ''0'' then drop 1 num else num);
     let (n, _, num) = (if isdigit (peek num) \<and> peek num \<noteq> CHR ''0'' then read_digits num (Fin 0) 0 else (Fin 0, 0, num));
     let (n, frac, num) = (if peek num = CHR ''.'' \<and> isdigit (peek (drop 1 num)) then read_digits (drop 1 num) n 0 else (n, 0, num));
     (subscale, num) \<leftarrow>
       (if peek num = CHR ''e'' \<or> peek num = CHR ''E'' then do {
          let num = drop 1 num;
          let (sg, num) = (if peek num = CHR ''+'' then (1, drop 1 num)
                           else if peek num = CHR ''-'' then (-1, drop 1 num) else (1, num));
          (subscale, num) \<leftarrow> read_exponent num 0;
          Some (subscale * sg, num)
        }
        else Some (0, num));
     let n = dmul (dmul (Fin sign) n) (P (subscale - frac));
     i \<leftarrow> int_of_double n;
     Some (n, i, num)
   }"

subsection \<open>Strings\<close>

definition hex_val :: "char \<Rightarrow> u32 option" where
  "hex_val c =
     (let k = of_char c :: nat
      in if isdigit c then Some (of_nat (k - 48))
         else if 65 \<le> k \<and> k \<le> 70 then Some (of_nat (10 + k - 65))
         else if 97 \<le> k \<and> k \<le> 102 then Some (of_nat (10 + k - 97))
         else None)"

fun hex_loop :: "nat \<Rightarrow> string \<Rightarrow> u32 \<Rightarrow> u32" where
  "hex_loop 0 s h = h"
| "hex_loop (Suc k) s h =
     (case hex_val (peek s) of None \<Rightarrow> 0 | Some v \<Rightarrow> hex_loop k (drop 1 s) (push_bit 4 h + v))"

definition parse_hex4 :: "string \<Rightarrow> u32" where
  "parse_hex4 s = hex_loop 4 s 0"

text \<open>
  The \<open>switch (len)\<close> that falls through from the last byte to the first; a byte is what is left of
  the word in a \<open>char\<close>.
\<close>

definition byte_of :: "u32 \<Rightarrow> char" where
  "byte_of w = char_of (unat (w AND 0xFF))"

fun utf8_tail :: "nat \<Rightarrow> u32 \<Rightarrow> bytes \<Rightarrow> u32 \<times> bytes" where
  "utf8_tail 0 uc acc = (uc, acc)"
| "utf8_tail (Suc k) uc acc = utf8_tail k (drop_bit 6 uc) (byte_of ((uc OR 0x80) AND 0xBF) # acc)"

definition firstByteMark :: "u32 list" where
  "firstByteMark = [0x00, 0x00, 0xC0, 0xE0, 0xF0, 0xF8, 0xFC]"

definition utf8 :: "u32 \<Rightarrow> bytes" where
  "utf8 uc =
     (let len = (if uc < 0x80 then 1 else if uc < 0x800 then 2 else if uc < 0x10000 then 3 else 4);
          (uc, acc) = utf8_tail (len - 1) uc []
      in byte_of (uc OR firstByteMark ! len) # acc)"

text \<open>
  The case of \<open>u\<close>: from the pointer behind the \<open>u\<close>, how far \<open>ptr\<close> moves and what is written. Four
  places are skipped whether they are hexadecimal digits or not.
\<close>

definition unicode_escape :: "string \<Rightarrow> nat \<times> bytes" where
  "unicode_escape s =
     (let uc = parse_hex4 s
      in if (0xDC00 \<le> uc \<and> uc \<le> 0xDFFF) \<or> uc = 0 then (4, [])
         else if 0xD800 \<le> uc \<and> uc \<le> 0xDBFF then
           (let t = drop 4 s
            in if peek t \<noteq> CHR 0x5C \<or> peek (drop 1 t) \<noteq> CHR ''u'' then (4, [])
               else let uc2 = parse_hex4 (drop 2 t)
                    in if uc2 < 0xDC00 \<or> 0xDFFF < uc2 then (10, [])
                       else (10, utf8 (0x10000 + (push_bit 10 (uc AND 0x3FF) OR (uc2 AND 0x3FF)))))
         else (4, utf8 uc))"

definition escape :: "string \<Rightarrow> nat \<times> bytes" where
  "escape s =
     (let c = peek s
      in if c = CHR ''b'' then (0, [CHR 0x08])
         else if c = CHR ''f'' then (0, [CHR 0x0C])
         else if c = CHR ''n'' then (0, [CHR 0x0A])
         else if c = CHR ''r'' then (0, [CHR 0x0D])
         else if c = CHR ''t'' then (0, [CHR 0x09])
         else if c = CHR ''u'' then unicode_escape (drop 1 s)
         else (0, [c]))"

text \<open>The first loop counts the characters, an escape as one; behind a backslash it skips one unseen.\<close>

fun string_len :: "string \<Rightarrow> nat option" where
  "string_len [] = Some 0"
| "string_len (c # s) =
     (if c = CHR 0x22 \<or> c = NUL then Some 0
      else if c = CHR 0x5C then (case s of [] \<Rightarrow> None | _ # s \<Rightarrow> map_option Suc (string_len s))
      else map_option Suc (string_len s))"

text \<open>
  The second loop copies into the block of \<open>cap\<close> bytes; \<open>out\<close> is what has been written. The last
  step stores the terminator.
\<close>

function unescape :: "nat \<Rightarrow> string \<Rightarrow> bytes \<Rightarrow> (bytes \<times> string) option" where
  "unescape cap s out =
     (case s of
        [] \<Rightarrow> if length out < cap then Some (out, []) else None
      | c # r \<Rightarrow>
          if c = CHR 0x22 \<or> c = NUL then (if length out < cap then Some (out, s) else None)
          else if c \<noteq> CHR 0x5C then (if length out < cap then unescape cap r (out @ [c]) else None)
          else (case escape r of (k, bs) \<Rightarrow>
                  if length out + length bs \<le> cap \<and> k + 1 \<le> length r
                  then unescape cap (drop (k + 1) r) (out @ bs) else None))"
  by pat_completeness auto
termination
  by (relation "measure (\<lambda>(cap, s, out). length s)") auto

declare unescape.simps [simp del]

definition parse_string :: "'m allocator \<Rightarrow> string \<Rightarrow> ('m, string parsed) run" where
  "parse_string L str m =
     (if peek str \<noteq> CHR 0x22 then Some (Fail (Some str), m)
      else do {
        len \<leftarrow> string_len (drop 1 str);
        (case malloc L (len + 1) m of
           (None, m) \<Rightarrow> Some (Fail None, m)
         | (Some _, m) \<Rightarrow> do {
             (out, ptr) \<leftarrow> unescape (len + 1) (drop 1 str) [];
             Some (Done out (if peek ptr = CHR 0x22 then drop 1 ptr else ptr), m)
           })
      })"

subsection \<open>Values\<close>

text \<open>\<open>skip\<close> steps over control characters and blanks.\<close>

definition skip :: "string \<Rightarrow> string" where
  "skip = dropWhile (\<lambda>c. c \<noteq> NUL \<and> (of_char c :: nat) \<le> 32)"

text \<open>
  Arrays, objects and values call each other: the functions for arrays and objects take the parser of
  a value as their argument \<open>pv\<close>, and \<open>parse_value\<close> ties the knot by recursion on the fuel. A value is
  stored in an item that may already have its name; the name of a member is what its parse as a
  string left in \<open>valuestring\<close>.
\<close>

type_synonym 'm value_parser = "string option \<Rightarrow> string \<Rightarrow> ('m, cJSON parsed) run"

text \<open>The loop \<open>while (*value == ',')\<close> over the further items of an array or members of an object.\<close>

fun rest_loop ::
  "nat \<Rightarrow> 'm allocator \<Rightarrow> (string \<Rightarrow> ('m, cJSON parsed) run) \<Rightarrow> char \<Rightarrow> cJSON list \<Rightarrow> string \<Rightarrow> ('m, cJSON list parsed) run" where
  "rest_loop 0 L p close cs v m = None"
| "rest_loop (Suc n) L p close cs v m =
     (if peek v = CHR '','' then
        (case cJSON_New_Item L m of
           (None, m) \<Rightarrow> Some (Fail None, m)
         | (Some _, m) \<Rightarrow> do {
             (r, m) \<leftarrow> p (skip (drop 1 v)) m;
             (case r of
                Fail e \<Rightarrow> Some (Fail e, m)
              | Done c v \<Rightarrow> rest_loop n L p close (cs @ [c]) (skip v) m)
           })
      else if peek v = close then Some (Done cs (drop 1 v), m)
      else Some (Fail (Some v), m))"

text \<open>What \<open>parse_array\<close> and \<open>parse_object\<close> have in common: the first element, then the loop.\<close>

definition parse_elements ::
  "nat \<Rightarrow> 'm allocator \<Rightarrow> (string \<Rightarrow> ('m, cJSON parsed) run) \<Rightarrow> char \<Rightarrow> string \<Rightarrow> ('m, cJSON list parsed) run" where
  "parse_elements n L p close v m =
     (let v = skip (drop 1 v)
      in if peek v = close then Some (Done [] (drop 1 v), m)
         else (case cJSON_New_Item L m of
                 (None, m) \<Rightarrow> Some (Fail None, m)
               | (Some _, m) \<Rightarrow> do {
                   (r, m) \<leftarrow> p (skip v) m;
                   (case r of
                      Fail e \<Rightarrow> Some (Fail e, m)
                    | Done c v \<Rightarrow> rest_loop n L p close [c] (skip v) m)
                 }))"

definition done_item :: "(cJSON list \<Rightarrow> cJSON) \<Rightarrow> cJSON list parsed \<Rightarrow> cJSON parsed" where
  "done_item f r = (case r of Fail e \<Rightarrow> Fail e | Done cs v \<Rightarrow> Done (f cs) v)"

definition parse_array ::
  "nat \<Rightarrow> 'm allocator \<Rightarrow> 'm value_parser \<Rightarrow> string option \<Rightarrow> string \<Rightarrow> ('m, cJSON parsed) run" where
  "parse_array n L pv name v m =
     (if peek v \<noteq> CHR ''['' then Some (Fail (Some v), m)
      else do {
        (r, m) \<leftarrow> parse_elements n L (pv None) (CHR '']'') v m;
        Some (done_item (Item cJSON_Array None 0 (Fin 0) name) r, m)
      })"

definition parse_member :: "'m allocator \<Rightarrow> 'm value_parser \<Rightarrow> string \<Rightarrow> ('m, cJSON parsed) run" where
  "parse_member L pv v m = do {
     (r, m) \<leftarrow> parse_string L v m;
     (case r of
        Fail e \<Rightarrow> Some (Fail e, m)
      | Done name v \<Rightarrow>
          (let v = skip v
           in if peek v \<noteq> CHR '':'' then Some (Fail (Some v), m)
              else pv (Some name) (skip (drop 1 v)) m))
   }"

definition parse_object ::
  "nat \<Rightarrow> 'm allocator \<Rightarrow> 'm value_parser \<Rightarrow> string option \<Rightarrow> string \<Rightarrow> ('m, cJSON parsed) run" where
  "parse_object n L pv name v m =
     (if peek v \<noteq> CHR ''{'' then Some (Fail (Some v), m)
      else do {
        (r, m) \<leftarrow> parse_elements n L (parse_member L pv) (CHR ''}'') v m;
        Some (done_item (Item cJSON_Object None 0 (Fin 0) name) r, m)
      })"

fun parse_value :: "nat \<Rightarrow> 'm allocator \<Rightarrow> (int \<Rightarrow> double) \<Rightarrow> 'm value_parser" where
  "parse_value 0 L P name v m = None"
| "parse_value (Suc n) L P name v m =
     (if take 4 v = ''null'' then Some (Done (Item cJSON_NULL None 0 (Fin 0) name []) (drop 4 v), m)
      else if take 5 v = ''false'' then Some (Done (Item cJSON_False None 0 (Fin 0) name []) (drop 5 v), m)
      else if take 4 v = ''true'' then Some (Done (Item cJSON_True None 1 (Fin 0) name []) (drop 4 v), m)
      else if peek v = CHR 0x22 then do {
        (r, m) \<leftarrow> parse_string L v m;
        Some (case r of Fail e \<Rightarrow> Fail e | Done s v \<Rightarrow> Done (Item cJSON_String (Some s) 0 (Fin 0) name []) v, m)
      }
      else if peek v = CHR ''-'' \<or> isdigit (peek v) then do {
        (d, i, v) \<leftarrow> parse_number P v;
        Some (Done (Item cJSON_Number None i d name []) v, m)
      }
      else if peek v = CHR ''['' then parse_array n L (parse_value n L P) name v m
      else if peek v = CHR ''{'' then parse_object n L (parse_value n L P) name v m
      else Some (Fail (Some v), m))"

declare parse_value.simps [simp del] rest_loop.simps [simp del]

text \<open>
  The fuel is the length of the text: every call is made on a shorter rest. With
  \<open>require_null_terminated\<close> nothing but blanks may follow. The result is the item with the end of
  the parse, or NULL with \<open>ep\<close>.
\<close>

definition cJSON_ParseWithOpts ::
  "'m allocator \<Rightarrow> (int \<Rightarrow> double) \<Rightarrow> string option \<Rightarrow> bool \<Rightarrow> ('m, cJSON parsed) run" where
  "cJSON_ParseWithOpts L P text require_null_terminated m =
     (case cJSON_New_Item L m of
        (None, m) \<Rightarrow> Some (Fail None, m)
      | (Some _, m) \<Rightarrow>
          (case text of
             None \<Rightarrow> Some (Fail None, m)
           | Some t \<Rightarrow> do {
               (r, m) \<leftarrow> parse_value (length t + 1) L P None (skip t) m;
               (case r of
                  Fail e \<Rightarrow> Some (Fail e, m)
                | Done c v \<Rightarrow>
                    if require_null_terminated then
                      (let v = skip v in Some (if peek v \<noteq> NUL then Fail (Some v) else Done c v, m))
                    else Some (Done c v, m))
             }))"

definition cJSON_Parse :: "'m allocator \<Rightarrow> (int \<Rightarrow> double) \<Rightarrow> string option \<Rightarrow> ('m, cJSON parsed) run" where
  "cJSON_Parse L P text = cJSON_ParseWithOpts L P text False"

subsection \<open>Minify\<close>

text \<open>
  \<open>cJSON_Minify\<close> writes over the text it reads, never ahead of the place it reads, so what is left to
  read is unchanged. Unclosed comments and strings take the pointer over the end of the text.
\<close>

text \<open>\<open>while (*json && !(*json == '*' && json[1] == '/')) json++\<close>\<close>

fun comment_end :: "string \<Rightarrow> string" where
  "comment_end [] = []"
| "comment_end (c # s) = (if c = CHR ''*'' \<and> peek s = CHR ''/'' then c # s else comment_end s)"

text \<open>A string literal behind its first quote, to its last one: what is copied, and the rest.\<close>

fun copy_literal :: "string \<Rightarrow> (string \<times> string) option" where
  "copy_literal [] = None"
| "copy_literal (c # s) =
     (if c = CHR 0x22 then Some ([c], s)
      else if c = CHR 0x5C then
        (case s of [] \<Rightarrow> None | d # s \<Rightarrow> map_option (\<lambda>(t, r). (c # d # t, r)) (copy_literal s))
      else map_option (\<lambda>(t, r). (c # t, r)) (copy_literal s))"

lemma length_comment_end: "length (comment_end s) \<le> length s"
  by (induction s) auto

lemma length_copy_literal: "copy_literal s = Some (t, r) \<Longrightarrow> length r < length s"
  by (induction s arbitrary: t r rule: copy_literal.induct) (fastforce split: if_splits list.splits)+

function cJSON_Minify :: "string \<Rightarrow> string option" where
  "cJSON_Minify json =
     (case json of
        [] \<Rightarrow> Some []
      | c # s \<Rightarrow>
          if c = CHR '' '' \<or> c = CHR 0x09 \<or> c = CHR 0x0D \<or> c = CHR 0x0A then cJSON_Minify s
          else if c = CHR ''/'' \<and> peek s = CHR ''/'' then cJSON_Minify (dropWhile (\<lambda>c. c \<noteq> CHR 0x0A) s)
          else if c = CHR ''/'' \<and> peek s = CHR ''*'' then
            (let r = comment_end s in if 2 \<le> length r then cJSON_Minify (drop 2 r) else None)
          else if c = CHR 0x22 then
            (case copy_literal s of
               None \<Rightarrow> None
             | Some (t, r) \<Rightarrow> map_option (\<lambda>u. c # t @ u) (cJSON_Minify r))
          else map_option (\<lambda>u. c # u) (cJSON_Minify s))"
  by pat_completeness auto
termination
  by (relation "measure length")
     (auto intro: le_imp_less_Suc length_dropWhile_le dest!: length_copy_literal simp: le_imp_less_Suc [OF le_trans [OF diff_le_self length_comment_end]])

declare cJSON_Minify.simps [simp del]

end
