(* ===== verification/Json_Roundtrip.thy ===== *)
theory Json_Roundtrip
  imports Json_Parse Json_Text
begin

text \<open>
  The parser reads the text of an item back, whatever follows it: strings with all their escapes,
  whole numbers of the type \<open>int\<close>, arrays and objects, formatted or not.
\<close>

subsection \<open>Strings\<close>

lemma hex_val_digit: "d < 16 \<Longrightarrow> hex_val (hex_digit d) = Some (of_nat d)"
  by (auto simp: hex_val_def hex_digit_def isdigit_def digit_char_def Let_def)

lemma parse_hex4_loop: "parse_hex4 s = hex_loop (Suc (Suc (Suc (Suc 0)))) s 0"
  by (simp add: parse_hex4_def numeral_eq_Suc)

lemma parse_hex4_byte:
  assumes "k < 256"
  shows "parse_hex4 (''00'' @ hex_digit (k div 16) # hex_digit (k mod 16) # r) = of_nat k"
proof -
  have z: "hex_val (CHR ''0'') = Some 0" by (simp add: hex_val_def isdigit_def)
  have "k div 16 < 16" using assms by simp
  then have "parse_hex4 (''00'' @ hex_digit (k div 16) # hex_digit (k mod 16) # r) =
      push_bit 4 (of_nat (k div 16)) + of_nat (k mod 16)"
    by (simp add: parse_hex4_loop hex_val_digit z)
  also have "\<dots> = of_nat (16 * (k div 16) + k mod 16)"
    by (simp only: of_nat_add of_nat_mult) (simp add: push_bit_eq_mult mult.commute)
  finally show ?thesis by simp
qed

lemma byte_of_nat: "n < 2 ^ 32 \<Longrightarrow> byte_of (of_nat n) = char_of n"
proof -
  assume n: "n < 2 ^ 32"
  have "(of_nat n AND 0xFF :: u32) = take_bit 8 (of_nat n)" by (simp add: take_bit_eq_mask mask_numeral)
  also have "\<dots> = of_nat (take_bit 8 n)" by (simp add: take_bit_of_nat)
  finally have "unat (of_nat n AND 0xFF :: u32) = n mod 256" by (simp add: take_bit_eq_mod unat_of_nat)
  then show ?thesis by (simp add: byte_of_def)
qed

lemma unicode_escape_control:
  assumes "0 < k" "k < 32"
  shows "unicode_escape (''00'' @ hex_digit (k div 16) # hex_digit (k mod 16) # r) = (4, [char_of k])"
proof -
  have u: "unat (of_nat k :: u32) = k" using assms by (simp add: unat_of_nat)
  have w: "(of_nat k :: u32) \<noteq> 0" "(of_nat k :: u32) < 0x80" "(of_nat k :: u32) < 0xD800"
    using assms u by (auto simp: word_less_nat_alt unat_eq_0 [symmetric] simp del: unat_eq_0)
  have "\<not> (0xDC00 \<le> (of_nat k :: u32))" "\<not> (0xD800 \<le> (of_nat k :: u32))"
    using assms u by (auto simp: word_le_nat_alt)
  moreover have "utf8 (of_nat k) = [char_of k]"
    using w(2) assms by (simp add: utf8_def firstByteMark_def byte_of_nat)
  ultimately show ?thesis using parse_hex4_byte [of k r] assms w(1) by (simp add: unicode_escape_def)
qed

text \<open>One character: its text is read back as the character.\<close>

lemma escape_char:
  assumes "needs_escape c" "c \<noteq> NUL"
  shows "\<exists>k. escape (escape_of c @ r) = (k, [c]) \<and> k + 1 = length (escape_of c)"
proof -
  consider "c = CHR 0x5C" | "c = CHR 0x22" | "c = CHR 0x08" | "c = CHR 0x0C" | "c = CHR 0x0A" | "c = CHR 0x0D" | "c = CHR 0x09"
    | (u) "c \<notin> {CHR 0x5C, CHR 0x22, CHR 0x08, CHR 0x0C, CHR 0x0A, CHR 0x0D, CHR 0x09}" by blast
  then show ?thesis
  proof cases
    case u
    let ?k = "of_char c :: nat"
    have k: "0 < ?k" "?k < 32"
      using assms u of_char_eq_iff [of c NUL, where ?'a = nat] by (auto simp: needs_escape_def intro!: gr0I)
    have e: "escape_of c = CHR ''u'' # ''00'' @ [hex_digit (?k div 16), hex_digit (?k mod 16)]"
      using u by (simp add: escape_of_def Let_def)
    have "escape (escape_of c @ r) = (4, [c])"
      using unicode_escape_control [OF k, of r] by (simp add: escape_def e)
    then show ?thesis by (simp add: e)
  qed (simp_all add: escape_of_def escape_def)
qed

lemma escape_of_Cons: "\<exists>d s. escape_of c = d # s \<and> (\<forall>x \<in> set s. x \<noteq> CHR 0x22 \<and> x \<noteq> CHR 0x5C \<and> x \<noteq> NUL)"
proof -
  have h: "hex_digit k \<notin> {CHR 0x22, CHR 0x5C, NUL}" if "k < 16" for k
    using that by (auto simp: hex_digit_def digit_char_def split: if_splits dest!: arg_cong [of _ _ "of_char :: char \<Rightarrow> nat"])
  have "(of_char c :: nat) div 16 < 16" using nat_of_char_less_256 [of c] by linarith
  with h [of "of_char c div 16"] h [of "of_char c mod 16"] have
    "hex_digit (of_char c div 16) \<notin> {CHR 0x22, CHR 0x5C, NUL}" "hex_digit (of_char c mod 16) \<notin> {CHR 0x22, CHR 0x5C, NUL}"
    by simp_all
  then show ?thesis by (auto simp: escape_of_def Let_def)
qed

lemma string_len_plain:
  "\<forall>x \<in> set s. x \<noteq> CHR 0x22 \<and> x \<noteq> CHR 0x5C \<and> x \<noteq> NUL \<Longrightarrow> string_len (s @ r) = map_option ((+) (length s)) (string_len r)"
proof (induction s)
  case Nil
  then show ?case by (cases "string_len r") simp_all
next
  case (Cons c s)
  then have "string_len (s @ r) = map_option ((+) (length s)) (string_len r)" by simp
  with Cons.prems show ?case by (cases "string_len r") simp_all
qed

lemma string_len_char:
  assumes "c \<noteq> NUL"
  shows "\<exists>k \<ge> 1. string_len (print_char c @ r) = map_option ((+) k) (string_len r)"
proof (cases "needs_escape c")
  case True
  obtain d s where e: "escape_of c = d # s" "\<forall>x \<in> set s. x \<noteq> CHR 0x22 \<and> x \<noteq> CHR 0x5C \<and> x \<noteq> NUL" using escape_of_Cons by blast
  have "string_len (print_char c @ r) = map_option ((+) (Suc (length s))) (string_len r)"
    using True by (cases "string_len r") (simp_all add: print_char_def e(1) string_len_plain [OF e(2)])
  then show ?thesis by (intro exI [of _ "Suc (length s)"]) simp
next
  case False
  then have "string_len (print_char c @ r) = map_option ((+) 1) (string_len r)"
    using assms by (cases "string_len r") (simp_all add: print_char_def needs_escape_def)
  then show ?thesis by (intro exI [of _ 1]) simp
qed

lemma string_len_quote:
  assumes "NUL \<notin> set s"
  shows "\<exists>k \<ge> length s. string_len (concat (map print_char s) @ CHR 0x22 # r) = Some k"
  using assms
proof (induction s)
  case (Cons c s)
  then obtain k where k: "length s \<le> k" "string_len (concat (map print_char s) @ CHR 0x22 # r) = Some k" by auto
  obtain j where "1 \<le> j" "string_len (print_char c @ concat (map print_char s) @ CHR 0x22 # r) =
      map_option ((+) j) (string_len (concat (map print_char s) @ CHR 0x22 # r))"
    using string_len_char [of c "concat (map print_char s) @ CHR 0x22 # r"] Cons.prems by auto
  with k show ?case by (intro exI [of _ "j + k"]) simp
qed simp

lemma unescape_char:
  assumes "c \<noteq> NUL" "length out < cap"
  shows "unescape cap (print_char c @ r) out = unescape cap r (out @ [c])"
proof (cases "needs_escape c")
  case True
  obtain k where k: "escape (escape_of c @ r) = (k, [c])" "k + 1 = length (escape_of c)" using escape_char [OF True assms(1)] by blast
  with True assms show ?thesis by (subst unescape.simps) (simp add: print_char_def)
next
  case False
  with assms show ?thesis by (subst unescape.simps) (simp add: print_char_def needs_escape_def)
qed

lemma unescape_quote:
  "NUL \<notin> set s \<Longrightarrow> length out + length s < cap \<Longrightarrow>
    unescape cap (concat (map print_char s) @ CHR 0x22 # r) out = Some (out @ s, CHR 0x22 # r)"
proof (induction s arbitrary: out)
  case Nil
  then show ?case by (subst unescape.simps) simp
next
  case (Cons c s)
  then have "c \<noteq> NUL" by auto
  with Cons show ?case using unescape_char [of c out cap "concat (map print_char s) @ CHR 0x22 # r"] by simp
qed

lemma parse_quote:
  assumes "roomy L" "NUL \<notin> set s"
  shows "\<exists>m'. parse_string L (quote s @ r) m = Some (Done s r, m')"
proof -
  obtain k where k: "length s \<le> k" "string_len (concat (map print_char s) @ CHR 0x22 # r) = Some k"
    using string_len_quote [OF assms(2)] by blast
  obtain b m' where "malloc L (k + 1) m = (Some b, m')" using malloc_roomy [OF assms(1)] by blast
  with k unescape_quote [OF assms(2), of "[]" "k + 1" r] show ?thesis by (simp add: parse_string_def quote_def)
qed

subsection \<open>Numbers\<close>

lemma read_digits_nat:
  assumes "\<forall>c \<in> set ds. isdigit c" "foldl (\<lambda>a c. 10 * a + digit_val c) a ds < 2 ^ 52" "no_digit_first r"
  shows "\<exists>j. read_digits (ds @ r) (Fin (of_nat a)) k =
    (Fin (of_nat (foldl (\<lambda>a c. 10 * a + digit_val c) a ds)), j, r)"
  using assms(1,2)
proof (induction ds arbitrary: a k)
  case Nil
  show ?case using assms(3) by (cases r) (auto simp: no_digit_first_def)
next
  case (Cons c ds)
  let ?b = "10 * a + digit_val c"
  have grow: "b \<le> foldl (\<lambda>a c. 10 * a + digit_val c) b ds" for b
  proof (induction ds arbitrary: b)
    case (Cons x xs)
    have "b \<le> 10 * b + digit_val x" by simp
    also note Cons [of "10 * b + digit_val x"]
    finally show ?case by simp
  qed simp
  have b: "?b < 2 ^ 52" using grow [of ?b] Cons.prems(2) by simp
  have "dmul (Fin (of_nat a)) (Fin 10) = Fin (of_nat (10 * a))"
    using dmul_int [of "int a" 10] b by (simp add: mult.commute del: dmul.simps)
  moreover have "dadd (Fin (of_nat (10 * a))) (Fin (of_nat (digit_val c))) = Fin (of_nat ?b)"
    using dadd_int [of "int (10 * a)" "int (digit_val c)"] b by (simp del: dadd.simps)
  ultimately have "read_digits ((c # ds) @ r) (Fin (of_nat a)) k = read_digits (ds @ r) (Fin (of_nat ?b)) (k + 1)"
    using Cons.prems(1) by simp
  then show ?case using Cons.IH [of ?b "k + 1"] Cons.prems by simp
qed

lemma show_nat_hd: "0 < n \<Longrightarrow> hd (show_nat n) \<noteq> CHR ''0''"
proof (induction n rule: show_nat.induct)
  case (1 n)
  show ?case
  proof (cases "n < 10")
    case True
    with 1(2) show ?thesis by (subst show_nat.simps) (auto dest: arg_cong [of _ _ "of_char :: char \<Rightarrow> nat"])
  next
    case False
    with 1 show ?thesis by (subst show_nat.simps) simp
  qed
qed

text \<open>What may follow a number: nothing that the parser would take for a part of it.\<close>

definition ends_number :: "string \<Rightarrow> bool" where
  "ends_number r \<longleftrightarrow> \<not> isdigit (peek r) \<and> peek r \<notin> {CHR ''.'', CHR ''e'', CHR ''E''}"

lemma parse_nat:
  assumes "int n \<le> 2 ^ 31" "ends_number r" "P 0 = Fin 1" "s \<in> {1, -1}" "INT_MIN \<le> s * int n" "s * int n \<le> INT_MAX"
  shows "parse_number P ((if s = 1 then [] else ''-'') @ show_nat n @ r) = Some (Fin (of_int (s * int n)), s * int n, r)"
proof -
  have r: "no_digit_first r" using assms(2) by (cases r) (auto simp: ends_number_def no_digit_first_def)
  have big: "\<bar>s * int n\<bar> < 2 ^ 53" using assms(1,4) by auto
  have fin: "dmul (dmul (Fin (of_int s)) (Fin (of_nat n))) (Fin 1) = Fin (of_int (s * int n))"
    using dmul_int [of s "int n"] dmul_int [of "s * int n" 1] big by (simp del: dmul.simps)
  have s: "(if s = 1 then (1 :: rat) else -1) = of_int s" using assms(4) by auto
  show ?thesis
  proof (cases "n = 0")
    case True
    have "show_nat 0 = ''0''" by code_simp
    with True assms(2-4) fin show ?thesis
      by (auto simp: parse_number_def ends_number_def c_int_def INT_MIN_def INT_MAX_def simp del: dmul.simps)
  next
    case False
    then obtain c ds where c: "show_nat n = c # ds" "c \<noteq> CHR ''0''" using show_nat_hd [of n] by (cases "show_nat n") auto
    have d: "\<forall>x \<in> set (show_nat n). isdigit x" using show_nat_digits by blast
    then have cd: "isdigit c" "c \<noteq> CHR ''-''" using c isdigit_not_special [of c] by auto
    have "foldl (\<lambda>a c. 10 * a + digit_val c) 0 (show_nat n) = n" using digits_val_show_nat [of n] by (simp add: digits_val_def)
    moreover have "n < 2 ^ 52" using assms(1) by simp
    ultimately obtain j where rd: "read_digits (c # ds @ r) (Fin 0) 0 = (Fin (of_nat n), j, r)"
      using read_digits_nat [OF d _ r, of 0 0] c(1) by auto
    have ci: "c_int (s * int n) = Some (s * int n)" using assms(5,6) by (simp add: c_int_def)
    show ?thesis using assms(2-4) c cd rd fin ci
      by (auto simp: parse_number_def ends_number_def ceiling_def simp del: dmul.simps read_digits.simps)
  qed
qed

lemma parse_number_int:
  assumes "INT_MIN \<le> i" "i \<le> INT_MAX" "ends_number r" "P 0 = Fin 1"
  shows "parse_number P (show_int i @ r) = Some (Fin (of_int i), i, r)"
proof (cases "i < 0")
  case True
  then show ?thesis using parse_nat [of "nat (- i)" r P "-1"] assms by (simp add: show_int_def INT_MIN_def INT_MAX_def)
next
  case False
  then show ?thesis using parse_nat [of "nat i" r P 1] assms by (simp add: show_int_def INT_MIN_def INT_MAX_def)
qed

subsection \<open>Arrays and objects\<close>

text \<open>The items as the parser makes them; only the name of the item itself comes from outside.\<close>

fun parsed_item :: "cJSON \<Rightarrow> bool" where
  "parsed_item (Item ty vs vi vd str cs) \<longleftrightarrow>
     (ty = cJSON_NULL \<or> ty = cJSON_False) \<and> vs = None \<and> vi = 0 \<and> vd = Fin 0 \<and> cs = [] \<or>
     ty = cJSON_True \<and> vs = None \<and> vi = 1 \<and> vd = Fin 0 \<and> cs = [] \<or>
     ty = cJSON_Number \<and> vs = None \<and> INT_MIN \<le> vi \<and> vi \<le> INT_MAX \<and> vd = Fin (of_int vi) \<and> cs = [] \<or>
     ty = cJSON_String \<and> c_string vs \<and> vi = 0 \<and> vd = Fin 0 \<and> cs = [] \<or>
     ty = cJSON_Array \<and> vs = None \<and> vi = 0 \<and> vd = Fin 0 \<and> (\<forall>c \<in> set cs. parsed_item c) \<and> (\<forall>c \<in> set cs. j_string c = None) \<or>
     ty = cJSON_Object \<and> vs = None \<and> vi = 0 \<and> vd = Fin 0 \<and> (\<forall>c \<in> set cs. parsed_item c) \<and> (\<forall>c \<in> set cs. c_string (j_string c))"

declare parsed_item.simps [simp del]

definition blank :: "string \<Rightarrow> bool" where
  "blank w \<longleftrightarrow> (\<forall>c \<in> set w. c \<noteq> NUL \<and> (of_char c :: nat) \<le> 32)"

lemma skip_blank [simp]: "blank w \<Longrightarrow> skip (w @ s) = skip s"
  unfolding skip_def blank_def by (rule dropWhile_append2) auto

text \<open>A text that begins with a character which is no blank; every value and name does.\<close>

definition solid :: "string \<Rightarrow> bool" where
  "solid s \<longleftrightarrow> s \<noteq> [] \<and> 32 < (of_char (hd s) :: nat) \<and> hd s \<notin> {CHR '']'', CHR ''}'', CHR '',''}"

lemma skip_solid: "solid s \<Longrightarrow> skip (s @ r) = s @ r"
  by (cases s) (auto simp: solid_def skip_def)

lemma peek_solid: "solid s \<Longrightarrow> peek (s @ r) = hd s"
  by (cases s) (auto simp: solid_def)

lemma skip_char [simp]: "32 < (of_char c :: nat) \<Longrightarrow> skip (c # s) = c # s"
  by (simp add: skip_def)

text \<open>The text behind an element: the further ones with their separators, the end, and what follows.\<close>

fun seq_rest :: "string \<Rightarrow> string \<Rightarrow> char \<Rightarrow> string list \<Rightarrow> string \<Rightarrow> string" where
  "seq_rest wsep wend close [] r = wend @ close # r"
| "seq_rest wsep wend close (e # es) r = '','' @ wsep @ e @ seq_rest wsep wend close es r"

lemma ends_seq_rest:
  assumes "blank wend" "close \<in> {CHR '']'', CHR ''}''}"
  shows "ends_number (seq_rest wsep wend close es r)"
proof (cases es)
  case Nil
  show ?thesis
  proof (cases wend)
    case (Cons a w)
    with assms(1) have "(of_char a :: nat) \<le> 32" by (simp add: blank_def)
    then show ?thesis using Nil Cons by (auto simp: ends_number_def isdigit_def)
  qed (use Nil assms(2) in \<open>auto simp: ends_number_def isdigit_def\<close>)
qed (simp add: ends_number_def isdigit_def)

lemma skip_seq_rest:
  assumes "blank wend" "close \<in> {CHR '']'', CHR ''}''}"
  shows "skip (seq_rest wsep wend close es r) = (case es of [] \<Rightarrow> close # r | e # es' \<Rightarrow> seq_rest wsep wend close es r)"
  using assms by (cases es) auto

lemma rest_loop_text:
  assumes "roomy L" "blank wsep" "blank wend" "close \<in> {CHR '']'', CHR ''}''}"
    "\<forall>c \<in> set cs. solid (f c)"
    "\<forall>c \<in> set cs. \<forall>r m. ends_number r \<longrightarrow> (\<exists>m'. p (f c @ r) m = Some (Done c r, m'))"
    "length cs < n"
  shows "\<exists>m'. rest_loop n L p close acc (skip (seq_rest wsep wend close (map f cs) r)) m = Some (Done (acc @ cs) r, m')"
  using assms(5-7)
proof (induction cs arbitrary: n acc m)
  case Nil
  then obtain k where "n = Suc k" by (cases n) auto
  then show ?case using assms(3,4) by (auto simp: rest_loop.simps skip_seq_rest)
next
  case (Cons c cs)
  then obtain k where n: "n = Suc k" "length cs < k" by (cases n) auto
  obtain m1 where m1: "cJSON_New_Item L m = (Some zero_item, m1)" using New_Item_roomy [OF assms(1)] by blast
  let ?r = "seq_rest wsep wend close (map f cs) r"
  have "ends_number ?r" using assms(3,4) by (rule ends_seq_rest)
  then obtain m2 where m2: "p (f c @ ?r) m1 = Some (Done c ?r, m2)" using Cons.prems(2) by fastforce
  obtain m3 where m3: "rest_loop k L p close (acc @ [c]) (skip ?r) m2 = Some (Done ((acc @ [c]) @ cs) r, m3)"
    using Cons.IH [of k "acc @ [c]" m2] Cons.prems n by auto
  have "skip (seq_rest wsep wend close (map f (c # cs)) r) = '','' @ wsep @ f c @ ?r" by simp
  moreover have "skip (wsep @ f c @ ?r) = f c @ ?r" using assms(2) Cons.prems(1) by (simp add: skip_solid)
  ultimately show ?case using n m1 m2 m3 by (simp add: rest_loop.simps)
qed

lemma parse_elements_text:
  assumes "roomy L" "blank wsep" "blank wend" "close \<in> {CHR '']'', CHR ''}''}"
    "\<forall>c \<in> set cs. solid (f c)"
    "\<forall>c \<in> set cs. \<forall>r m. ends_number r \<longrightarrow> (\<exists>m'. p (f c @ r) m = Some (Done c r, m'))"
    "length cs < n" "blank w" "\<And>c cs'. cs = c # cs' \<Longrightarrow> s = w @ f c @ seq_rest wsep wend close (map f cs') r"
    "cs = [] \<Longrightarrow> s = w @ close # r"
  shows "\<exists>m'. parse_elements n L p close (x # s) m = Some (Done cs r, m')"
proof (cases cs)
  case Nil
  have "skip (close # r) = close # r" using assms(4) by auto
  with Nil assms(8,10) show ?thesis by (simp add: parse_elements_def)
next
  case (Cons c cs')
  let ?r = "seq_rest wsep wend close (map f cs') r"
  have s: "solid (f c)" using assms(5) Cons by simp
  have v: "skip s = f c @ ?r" using assms(8) assms(9) [OF Cons] s by (simp add: skip_solid)
  have ne: "peek (f c @ ?r) \<noteq> close" using s assms(4) by (auto simp: peek_solid solid_def)
  obtain m1 where m1: "cJSON_New_Item L m = (Some zero_item, m1)" using New_Item_roomy [OF assms(1)] by blast
  have "ends_number ?r" using assms(3,4) by (rule ends_seq_rest)
  then obtain m2 where m2: "p (f c @ ?r) m1 = Some (Done c ?r, m2)" using assms(6) Cons by fastforce
  obtain m3 where m3: "rest_loop n L p close [c] (skip ?r) m2 = Some (Done ([c] @ cs') r, m3)"
    using rest_loop_text [OF assms(1-4), of cs' f p n "[c]" r m2] assms(5-7) Cons by auto
  show ?thesis using Cons v ne m1 m2 m3 skip_solid [OF s] by (simp add: parse_elements_def)
qed

lemma array_body_seq:
  "array_body fmt (e # es) @ '']'' @ r = e @ seq_rest (if fmt then '' '' else []) [] (CHR '']'') es r"
  by (induction es arbitrary: e) auto

text \<open>A member of an object: its name, a colon and its value.\<close>

definition member_text :: "bool \<Rightarrow> string \<times> string \<Rightarrow> string" where
  "member_text fmt x = fst x @ '':'' @ (if fmt then tabs 1 else []) @ snd x"

lemma object_body_seq:
  "object_body fmt d (x # es) @ w @ ''}'' @ r =
    (if fmt then tabs d else []) @ member_text fmt x @
    seq_rest (if fmt then CHR 0x0A # tabs d else []) ((if fmt then [CHR 0x0A] else []) @ w) (CHR ''}'') (map (member_text fmt) es) r"
  by (induction es arbitrary: x) (auto simp: member_text_def split_def split: prod.splits)

lemma blank_simps [simp]:
  "blank []" "blank (tabs k)" "blank (v @ w) \<longleftrightarrow> blank v \<and> blank w" "blank (c # w) \<longleftrightarrow> c \<noteq> NUL \<and> (of_char c :: nat) \<le> 32 \<and> blank w"
  by (auto simp: blank_def tabs_def)

lemma solid_quote: "solid (quote s @ t)"
  by (simp add: solid_def quote_def)

lemma isdigit_solid: "isdigit (hd s) \<Longrightarrow> s \<noteq> [] \<Longrightarrow> solid s"
  by (auto simp: solid_def isdigit_def)

lemma solid_text:
  assumes "parsed_item c"
  shows "solid (json_text fmt d c)"
proof -
  have "solid (show_int i)" for i
    using show_nat_digits [of _ "nat i"] isdigit_solid [of "show_nat (nat i)"]
    by (auto simp: show_int_def solid_def hd_in_set)
  then show ?thesis using assms solid_quote [of _ "[]"]
    by (cases c) (auto simp: parsed_item.simps json_text.simps json_types scalar_text_def number_text_int, auto simp: solid_def)
qed

lemma parsed_printable: "parsed_item c \<Longrightarrow> printable c"
  by (induction c) (auto simp: parsed_item.simps printable.simps json_types number_ok_int)

lemma member_parse:
  assumes "roomy L" "c_string (j_string c)" "solid t"
    "\<And>m. \<exists>m'. pv (j_string c) (t @ r) m = Some (Done c r, m')"
  shows "\<exists>m'. parse_member L pv (member_text fmt (quote (the (j_string c)), t) @ r) m = Some (Done c r, m')"
proof -
  obtain s where s: "j_string c = Some s" "NUL \<notin> set s" using assms(2) by (auto simp: c_string_def)
  let ?v = "'':'' @ (if fmt then tabs 1 else []) @ t @ r"
  obtain m1 where m1: "parse_string L (quote s @ ?v) m = Some (Done s ?v, m1)" using parse_quote [OF assms(1) s(2)] by blast
  have "skip ((if fmt then tabs 1 else []) @ t @ r) = t @ r" using skip_solid [OF assms(3)] by simp
  moreover obtain m2 where "pv (Some s) (t @ r) m1 = Some (Done c r, m2)" using assms(4) s by auto
  ultimately show ?thesis using m1 s by (simp add: parse_member_def member_text_def)
qed

lemma parse_value_number:
  assumes "peek v = CHR ''-'' \<or> isdigit (peek v)"
  shows "parse_value (Suc k) L P name v m = do {
      (d, i, v) \<leftarrow> parse_number P v; Some (Done (Item cJSON_Number None i d name []) v, m) }"
proof -
  have "peek v \<notin> {CHR ''n'', CHR ''f'', CHR ''t'', CHR 0x22, NUL}" using assms by (auto simp: isdigit_def)
  then show ?thesis using assms by (cases v) (simp_all add: parse_value.simps)
qed

lemma parse_value_open:
  "parse_value (Suc k) L P name (CHR 0x22 # s) m = do {
      (r, m) \<leftarrow> parse_string L (CHR 0x22 # s) m;
      Some (case r of Fail e \<Rightarrow> Fail e | Done s v \<Rightarrow> Done (Item cJSON_String (Some s) 0 (Fin 0) name []) v, m) }"
  "parse_value (Suc k) L P name (CHR ''['' # s) m = parse_array k L (parse_value k L P) name (CHR ''['' # s) m"
  "parse_value (Suc k) L P name (CHR ''{'' # s) m = parse_object k L (parse_value k L P) name (CHR ''{'' # s) m"
  by (simp_all add: parse_value.simps isdigit_def)

theorem parse_text:
  assumes "roomy L" "P 0 = Fin 1" "parsed_item c" "length (json_text fmt d c) < n" "ends_number r"
  shows "\<exists>m'. parse_value n L P (j_string c) (json_text fmt d c @ r) m = Some (Done c r, m')"
  using assms(3-5)
proof (induction c arbitrary: d n r m)
  case (Item ty vs vi vd str cs)
  let ?c = "Item ty vs vi vd str cs"
  obtain k where n: "n = Suc k" "length (json_text fmt d ?c) \<le> k" using Item.prems(2) by (cases n) auto
  consider (null) "ty = cJSON_NULL" | (false) "ty = cJSON_False" | (true) "ty = cJSON_True" | (num) "ty = cJSON_Number"
    | (str) "ty = cJSON_String" | (arr) "ty = cJSON_Array" | (obj) "ty = cJSON_Object"
    using Item.prems(1) by (auto simp: parsed_item.simps)
  then show ?case
  proof cases
    case num
    then have i: "vs = None" "INT_MIN \<le> vi" "vi \<le> INT_MAX" "vd = Fin (of_int vi)" "cs = []"
      using Item.prems(1) by (auto simp: parsed_item.simps json_types)
    then have t: "json_text fmt d ?c = show_int vi" using num by (simp add: json_text.simps scalar_text_def json_types number_text_int)
    have "hd (show_int vi) \<in> set (show_int vi)" by simp
    then have "peek (show_int vi @ r) = CHR ''-'' \<or> isdigit (peek (show_int vi @ r))"
      using show_int_chars [of "hd (show_int vi)" vi] by (cases "show_int vi") auto
    then show ?thesis using parse_number_int [of vi r P] Item.prems(3) assms(2) i num
      unfolding t n(1) by (simp add: parse_value_number)
  next
    case str
    then obtain s where s: "vs = Some s" "NUL \<notin> set s" "vi = 0" "vd = Fin 0" "cs = []"
      using Item.prems(1) by (auto simp: parsed_item.simps json_types c_string_def)
    then have t: "json_text fmt d ?c = quote s" using str by (simp add: json_text.simps scalar_text_def json_types)
    obtain m' where "parse_string L (quote s @ r) m = Some (Done s r, m')" using parse_quote [OF assms(1) s(2)] by blast
    then show ?thesis using str s unfolding t n(1) by (simp add: quote_def parse_value_open)
  next
    case arr
    then have i: "vs = None" "vi = 0" "vd = Fin 0" "\<forall>c \<in> set cs. parsed_item c" "\<forall>c \<in> set cs. j_string c = None"
      using Item.prems(1) by (auto simp: parsed_item.simps json_types)
    let ?f = "json_text fmt (d + 1)"
    let ?s = "array_body fmt (map ?f cs) @ '']'' @ r"
    have t: "json_text fmt d ?c @ r = CHR ''['' # ?s" using arr by (simp add: json_text.simps json_types)
    have part: "length (?f c) < k" if "c \<in> set cs" for c
      using length_part(1) [OF that, of ty fmt d vs vi vd str] arr n(2) by (simp add: json_types)
    have p: "\<forall>c \<in> set cs. \<forall>r m. ends_number r \<longrightarrow> (\<exists>m'. parse_value k L P None (?f c @ r) m = Some (Done c r, m'))"
    proof (intro ballI allI impI)
      fix c r m assume "c \<in> set cs" "ends_number r"
      then show "\<exists>m'. parse_value k L P None (?f c @ r) m = Some (Done c r, m')"
        using Item.IH [of c "d + 1" k r m] part i(4,5) by auto
    qed
    have "length cs \<le> length (array_body fmt (map ?f cs))"
    proof -
      have "sum_list (map (\<lambda>_. 1) cs) \<le> sum_list (map (\<lambda>c. length (?f c)) cs)"
      proof (rule sum_list_mono)
        fix c assume "c \<in> set cs"
        then have "?f c \<noteq> []" using i(4) json_text_neq_Nil parsed_printable by blast
        then show "1 \<le> length (?f c)" by (simp add: Suc_le_eq)
      qed
      then show ?thesis using array_body_len [of "map ?f cs" fmt] by (simp add: sum_list_triv comp_def)
    qed
    then have len: "length cs < k" using n(2) arr by (simp add: json_text.simps json_types)
    have "\<exists>m'. parse_elements k L (parse_value k L P None) (CHR '']'') (CHR ''['' # ?s) m = Some (Done cs r, m')"
    proof (rule parse_elements_text [OF assms(1), where wsep = "if fmt then '' '' else []" and wend = "[]" and f = ?f and w = "[]"])
      show "?s = [] @ ?f c @ seq_rest (if fmt then '' '' else []) [] (CHR '']'') (map ?f cs') r" if "cs = c # cs'" for c cs'
        using array_body_seq [of fmt "?f c" "map ?f cs'" r] that by simp
    qed (use p len i(4) solid_text in auto)
    then show ?thesis using arr i unfolding t n(1) by (auto simp: parse_value_open parse_array_def done_item_def)
  next
    case obj
    then have i: "vs = None" "vi = 0" "vd = Fin 0" "\<forall>c \<in> set cs. parsed_item c" "\<forall>c \<in> set cs. c_string (j_string c)"
      using Item.prems(1) by (auto simp: parsed_item.simps json_types)
    let ?t = "json_text fmt (d + 1)"
    let ?f = "\<lambda>c. member_text fmt (quote (the (j_string c)), ?t c)"
    let ?es = "map (\<lambda>c. (quote (the (j_string c)), ?t c)) cs"
    let ?nl = "if fmt then [CHR 0x0A] else []"
    let ?s = "if cs = [] then (if fmt then CHR 0x0A # tabs (d - 1) else []) @ ''}'' @ r
      else ?nl @ object_body fmt (d + 1) ?es @ (if fmt then tabs d else []) @ ''}'' @ r"
    have t: "json_text fmt d ?c @ r = CHR ''{'' # ?s" using obj by (simp add: json_text.simps json_types)
    have part: "length (?t c) < k" if "c \<in> set cs" for c
      using length_part(2) [OF that, of ty fmt d vs vi vd str] obj n(2) by (simp add: json_types)
    have p: "\<forall>c \<in> set cs. \<forall>r m. ends_number r \<longrightarrow> (\<exists>m'. parse_member L (parse_value k L P) (?f c @ r) m = Some (Done c r, m'))"
    proof (intro ballI allI impI)
      fix c r m assume c: "c \<in> set cs" "ends_number r"
      then have "\<exists>m'. parse_value k L P (j_string c) (?t c @ r) m = Some (Done c r, m')" for m
        using Item.IH [of c "d + 1" k r m] part i(4) by auto
      with member_parse [OF assms(1) _ solid_text] c i(4,5)
      show "\<exists>m'. parse_member L (parse_value k L P) (?f c @ r) m = Some (Done c r, m')" by blast
    qed
    have "length cs \<le> length (object_body fmt (d + 1) ?es)" by (induction cs) auto
    then have len: "length cs < k" using n(2) obj by (cases "cs = []") (simp_all add: json_text.simps json_types)
    have "\<exists>m'. parse_elements k L (parse_member L (parse_value k L P)) (CHR ''}'') (CHR ''{'' # ?s) m = Some (Done cs r, m')"
    proof (rule parse_elements_text [OF assms(1), where wsep = "if fmt then CHR 0x0A # tabs (d + 1) else []"
          and wend = "?nl @ (if fmt then tabs d else [])" and f = ?f
          and w = "if cs = [] then (if fmt then CHR 0x0A # tabs (d - 1) else []) else ?nl @ (if fmt then tabs (d + 1) else [])"])
      show "?s = (if cs = [] then (if fmt then CHR 0x0A # tabs (d - 1) else []) else ?nl @ (if fmt then tabs (d + 1) else [])) @
          ?f c @ seq_rest (if fmt then CHR 0x0A # tabs (d + 1) else []) (?nl @ (if fmt then tabs d else [])) (CHR ''}'') (map ?f cs') r"
        if "cs = c # cs'" for c cs'
        using object_body_seq [of fmt "d + 1" "(quote (the (j_string c)), ?t c)" "map (\<lambda>c. (quote (the (j_string c)), ?t c)) cs'"
            "if fmt then tabs d else []" r] that by (simp add: comp_def)
    qed (use p len solid_quote in \<open>auto simp: member_text_def\<close>)
    then show ?thesis using obj i unfolding t n(1) by (auto simp: parse_value_open parse_object_def done_item_def)
  qed (use Item.prems(1) n(1) in \<open>auto simp: parsed_item.simps json_types json_text.simps scalar_text_def parse_value.simps\<close>)
qed

end
