(* ===== verification/Json_Minify.thy ===== *)
theory Json_Minify
  imports Json_Roundtrip
begin

text \<open>
  \<open>cJSON_Minify\<close> turns the formatted text of an item into the unformatted one: it takes out the tabs,
  blanks and line ends between the parts and leaves the strings alone.
\<close>

text \<open>What is left of a part of a text, whatever follows it.\<close>

definition becomes :: "string \<Rightarrow> string \<Rightarrow> bool" where
  "becomes v w \<longleftrightarrow> (\<forall>r. cJSON_Minify (v @ r) = map_option (\<lambda>u. w @ u) (cJSON_Minify r))"

lemma becomes_append: "becomes v w \<Longrightarrow> becomes v' w' \<Longrightarrow> becomes (v @ v') (w @ w')"
  unfolding becomes_def
proof
  fix r
  assume "\<forall>r. cJSON_Minify (v @ r) = map_option (\<lambda>u. w @ u) (cJSON_Minify r)"
    "\<forall>r. cJSON_Minify (v' @ r) = map_option (\<lambda>u. w' @ u) (cJSON_Minify r)"
  then show "cJSON_Minify ((v @ v') @ r) = map_option (\<lambda>u. (w @ w') @ u) (cJSON_Minify r)"
    by (cases "cJSON_Minify r") simp_all
qed

lemma becomes_Nil [simp]: "becomes [] []"
  by (simp add: becomes_def option.map_ident)

lemma minify_char:
  "c \<notin> {CHR '' '', CHR 0x09, CHR 0x0D, CHR 0x0A, CHR ''/'', CHR 0x22} \<Longrightarrow> cJSON_Minify (c # r) = map_option (\<lambda>u. c # u) (cJSON_Minify r)"
  by (subst cJSON_Minify.simps) simp

lemma becomes_plain: "\<forall>c \<in> set w. 32 < (of_char c :: nat) \<and> c \<noteq> CHR ''/'' \<and> c \<noteq> CHR 0x22 \<Longrightarrow> becomes w w"
proof (induction w)
  case (Cons c w)
  have c: "32 < (of_char c :: nat)" "c \<noteq> CHR ''/''" "c \<noteq> CHR 0x22" using Cons.prems by simp_all
  have "c \<notin> {CHR '' '', CHR 0x09, CHR 0x0D, CHR 0x0A, CHR ''/'', CHR 0x22}"
  proof
    assume "c \<in> {CHR '' '', CHR 0x09, CHR 0x0D, CHR 0x0A, CHR ''/'', CHR 0x22}"
    then show False by (elim insertE emptyE) (use c in simp_all)
  qed
  from minify_char [OF this] have "becomes [c] [c]" by (simp add: becomes_def)
  from becomes_append [OF this Cons.IH] Cons.prems show ?case by simp
qed simp

lemma becomes_blank: "\<forall>c \<in> set w. c \<in> {CHR '' '', CHR 0x09, CHR 0x0D, CHR 0x0A} \<Longrightarrow> becomes w []"
proof (induction w)
  case (Cons c w)
  then have b: "c = CHR '' '' \<or> c = CHR 0x09 \<or> c = CHR 0x0D \<or> c = CHR 0x0A" by simp
  have "cJSON_Minify (c # r) = cJSON_Minify r" for r by (subst cJSON_Minify.simps) (simp only: list.case b if_True)
  then have "becomes [c] []" by (simp add: becomes_def option.map_ident)
  from becomes_append [OF this Cons.IH] Cons.prems show ?case by simp
qed simp

lemma becomes_tabs [simp]: "becomes (tabs k) []"
  by (rule becomes_blank) (simp add: tabs_def)

lemma copy_literal_plain:
  "\<forall>x \<in> set s. x \<noteq> CHR 0x22 \<and> x \<noteq> CHR 0x5C \<Longrightarrow> copy_literal (s @ r) = map_option (\<lambda>(t, r). (s @ t, r)) (copy_literal r)"
  by (induction s) (simp_all add: option.map_comp comp_def split_def option.map_ident)

lemma copy_literal_char: "copy_literal (print_char c @ r) = map_option (\<lambda>(t, r). (print_char c @ t, r)) (copy_literal r)"
proof (cases "needs_escape c")
  case True
  obtain d s where e: "escape_of c = d # s" "\<forall>x \<in> set s. x \<noteq> CHR 0x22 \<and> x \<noteq> CHR 0x5C \<and> x \<noteq> NUL" using escape_of_Cons by blast
  have "copy_literal (s @ r) = map_option (\<lambda>(t, r). (s @ t, r)) (copy_literal r)" using e(2) by (intro copy_literal_plain) blast
  with True e(1) show ?thesis by (simp add: print_char_def option.map_comp comp_def split_def)
next
  case False
  then show ?thesis by (simp add: print_char_def needs_escape_def)
qed

lemma copy_literal_quote: "copy_literal (concat (map print_char s) @ CHR 0x22 # r) = Some (concat (map print_char s) @ [CHR 0x22], r)"
  by (induction s) (simp_all add: copy_literal_char)

lemma becomes_quote: "becomes (quote s) (quote s)"
  unfolding becomes_def
proof
  fix r
  show "cJSON_Minify (quote s @ r) = map_option (\<lambda>u. quote s @ u) (cJSON_Minify r)"
    unfolding quote_def by (cases "cJSON_Minify r") (subst cJSON_Minify.simps, simp add: copy_literal_quote)+
qed

lemma becomes_scalar:
  assumes "parsed_item (Item ty vs vi vd str cs)" "ty \<noteq> cJSON_Array" "ty \<noteq> cJSON_Object"
  shows "becomes (scalar_text ty vs vi vd) (scalar_text ty vs vi vd)"
proof -
  have num: "becomes (show_int i) (show_int i)" for i
    by (rule becomes_plain) (use show_int_chars in \<open>force simp: isdigit_def\<close>)
  consider "scalar_text ty vs vi vd = ''null''" | "scalar_text ty vs vi vd = ''false''" | "scalar_text ty vs vi vd = ''true''"
    | "scalar_text ty vs vi vd = show_int vi" | "scalar_text ty vs vi vd = quote (the vs)"
    using assms by (auto simp: parsed_item.simps scalar_text_def json_types number_text_int)
  then show ?thesis by cases (use becomes_quote num in \<open>auto intro!: becomes_plain\<close>)
qed

lemma becomes_array:
  "list_all2 becomes es es' \<Longrightarrow> becomes (array_body fmt es) (array_body False es')"
proof (induction es arbitrary: es')
  case (Cons e es)
  then obtain e' es'' where e: "es' = e' # es''" "becomes e e'" "list_all2 becomes es es''" by (auto simp: list_all2_Cons1)
  have sep: "becomes ('','' @ (if fmt then '' '' else [])) '',''"
    using becomes_append [OF becomes_plain [of "'',''"] becomes_blank [of "if fmt then '' '' else []"]] by simp
  show ?case
  proof (cases es)
    case (Cons x xs)
    then obtain y ys where "es'' = y # ys" using e(3) by (cases es'') auto
    with becomes_append [OF e(2) becomes_append [OF sep Cons.IH [OF e(3)]]] e(1) Cons show ?thesis by simp
  qed (use e in simp)
qed simp

lemma becomes_object:
  "list_all2 (\<lambda>(s, e) (s', e'). becomes s s' \<and> becomes e e') es es' \<Longrightarrow> becomes (object_body fmt depth es) (object_body False depth' es')"
proof (induction es arbitrary: es')
  case (Cons x es)
  obtain s e where x: "x = (s, e)" by fastforce
  then obtain s' e' es'' where e: "es' = (s', e') # es''" "becomes s s'" "becomes e e'"
    "list_all2 (\<lambda>(s, e) (s', e'). becomes s s' \<and> becomes e e') es es''" using Cons.prems by (auto simp: list_all2_Cons1)
  have nil: "es'' = [] \<longleftrightarrow> es = []" using e(4) by auto
  have "becomes (if fmt then tabs depth else []) []" "becomes (if fmt then tabs 1 else []) []"
    "becomes (if fmt then [CHR 0x0A] else []) []" by (auto intro: becomes_blank)
  moreover have "becomes '':'' '':''" "becomes (if es = [] then [] else '','') (if es'' = [] then [] else '','')"
    using nil by (auto intro: becomes_plain)
  ultimately show ?case
    using becomes_append [OF _ becomes_append [OF e(2) becomes_append [OF _ becomes_append [OF _ becomes_append [OF e(3)
      becomes_append [OF _ becomes_append [OF _ Cons.IH [OF e(4)]]]]]]],
      of "if fmt then tabs depth else []" "[]" "'':''" "'':''" "if fmt then tabs 1 else []" "[]"
      "if es = [] then [] else '',''" "if es'' = [] then [] else '',''" "if fmt then [CHR 0x0A] else []" "[]"]
    unfolding x e(1) object_body.simps by simp
qed simp

theorem becomes_json_text: "parsed_item t \<Longrightarrow> becomes (json_text fmt d t) (json_text False d' t)"
proof (induction t arbitrary: d d')
  case (Item ty vs vi vd str cs)
  consider (arr) "ty = cJSON_Array" | (obj) "ty = cJSON_Object" | (scalar) "ty \<noteq> cJSON_Array" "ty \<noteq> cJSON_Object" by blast
  then show ?case
  proof cases
    case arr
    then have p: "\<forall>c \<in> set cs. parsed_item c" using Item.prems by (auto simp: parsed_item.simps json_types)
    have "list_all2 becomes (map (json_text fmt (d + 1)) cs) (map (json_text False (d' + 1)) cs)"
      using Item.IH p by (auto simp: list_all2_conv_all_nth)
    from becomes_append [OF becomes_plain [of "''[''"] becomes_append [OF becomes_array [OF this] becomes_plain [of "'']''"]]] arr
    show ?thesis by (simp add: json_text.simps json_types)
  next
    case obj
    then have p: "\<forall>c \<in> set cs. parsed_item c" using Item.prems by (auto simp: parsed_item.simps json_types)
    let ?es = "\<lambda>fmt d. map (\<lambda>c. (quote (the (j_string c)), json_text fmt (d + 1) c)) cs"
    have "list_all2 (\<lambda>(s, e) (s', e'). becomes s s' \<and> becomes e e') (?es fmt d) (?es False d')"
      using Item.IH p becomes_quote by (auto simp: list_all2_conv_all_nth)
    then have body: "becomes (object_body fmt (d + 1) (?es fmt d)) (object_body False (d' + 1) (?es False d'))" by (rule becomes_object)
    have blank: "becomes (if fmt then [CHR 0x0A] else []) []" "becomes (if fmt then tabs d else []) []"
      "becomes (if fmt then CHR 0x0A # tabs (d - 1) else []) []" by (auto intro!: becomes_blank simp: tabs_def)
    note br = becomes_plain [of "''{''"] becomes_plain [of "''}''"]
    show ?thesis
    proof (cases "cs = []")
      case True
      with becomes_append [OF br(1) becomes_append [OF blank(3) br(2)]] obj show ?thesis by (simp add: json_text.simps json_types)
    next
      case False
      with becomes_append [OF br(1) becomes_append [OF blank(1) becomes_append [OF body becomes_append [OF blank(2) br(2)]]]] obj
      show ?thesis by (simp add: json_text.simps json_types)
    qed
  next
    case scalar
    with becomes_scalar [OF Item.prems] Item.prems show ?thesis by (auto simp: json_text.simps parsed_item.simps json_types)
  qed
qed

end
