(* ===== verification/Json_Total.thy ===== *)
theory Json_Total
  imports Json_Parse "HOL-Library.Sublist"
begin

text \<open>
  The parser comes to an end on every text: each function gives back a proper suffix of what it was
  given, so the length of the text is enough fuel, and nothing else is undefined as long as the text
  has no escapes and no number out of range.
\<close>

subsection \<open>Every parser gives back a suffix\<close>

lemma suffix_skip: "suffix (skip v) v"
  by (simp add: skip_def suffix_dropWhile)

lemma suffix_read_digits: "read_digits v n k = (n', k', r) \<Longrightarrow> suffix r v"
  by (induction v n k rule: read_digits.induct) (auto split: if_splits intro: suffix_ConsI)

lemma suffix_read_exponent: "read_exponent v k = Some (k', r) \<Longrightarrow> suffix r v"
  by (induction v k rule: read_exponent.induct)
     (auto split: if_splits intro: suffix_ConsI simp: bind_eq_Some_conv)

lemma strict_suffix_ConsI: "suffix xs ys \<Longrightarrow> strict_suffix xs (y # ys)"
  by (auto simp: strict_suffix_def suffix_def)

lemma suffix_strict [trans]: "suffix xs ys \<Longrightarrow> strict_suffix ys zs \<Longrightarrow> strict_suffix xs zs"
  by (rule suffix_order.le_less_trans)

lemma strict_drop: "peek v \<noteq> NUL \<Longrightarrow> strict_suffix (drop 1 v) v"
  by (cases v) (auto intro: strict_suffix_ConsI)

lemma strict_read_digits: "isdigit (peek v) \<Longrightarrow> read_digits v n k = (n', k', r) \<Longrightarrow> strict_suffix r v"
  by (cases v) (auto simp: isdigit_def dest!: suffix_read_digits intro: strict_suffix_ConsI)

lemma parse_number_steps:
  assumes "parse_number P v = Some (d, i, r)"
  defines "v1 \<equiv> if peek v = CHR ''-'' then drop 1 v else v"
  defines "v2 \<equiv> if peek v1 = CHR ''0'' then drop 1 v1 else v1"
  shows "\<exists>v3 v4. (if isdigit (peek v2) \<and> peek v2 \<noteq> CHR ''0'' then \<exists>n k. read_digits v2 (Fin 0) 0 = (n, k, v3) else v3 = v2) \<and>
    suffix v4 v3 \<and> suffix r v4"
proof -
  obtain s where 1: "(if peek v = CHR ''-'' then (-1 :: rat, drop 1 v) else (1, v)) = (s, v1)"
    by (cases "peek v = CHR ''-''") (simp_all add: v1_def)
  obtain n k v3 where 3: "(if isdigit (peek v2) \<and> peek v2 \<noteq> CHR ''0'' then read_digits v2 (Fin 0) 0 else (Fin 0, 0, v2)) = (n, k, v3)"
    by (rule prod_cases3)
  obtain n' k' v4 where 4: "(if peek v3 = CHR ''.'' \<and> isdigit (peek (drop 1 v3)) then read_digits (drop 1 v3) n 0 else (n, 0, v3)) = (n', k', v4)"
    by (rule prod_cases3)
  have "suffix v4 v3" using 4 suffix_read_digits suffix_drop suffix_order.trans by (auto split: if_splits) blast
  moreover have "suffix r v4"
    using assms(1) unfolding parse_number_def Let_def 1 prod.case v2_def [symmetric] 3 4
    by (auto simp: bind_eq_Some_conv split: if_splits dest!: suffix_read_exponent intro: suffix_order.trans [OF _ suffix_drop])
  moreover have "if isdigit (peek v2) \<and> peek v2 \<noteq> CHR ''0'' then \<exists>n k. read_digits v2 (Fin 0) 0 = (n, k, v3) else v3 = v2"
    using 3 by (auto split: if_splits)
  ultimately show ?thesis by blast
qed

lemma suffix_if_drop: "suffix (if b then drop k w else w) w"
  by (simp add: suffix_drop)

lemma strict_parse_number:
  assumes "parse_number P v = Some (d, i, r)" "peek v = CHR ''-'' \<or> isdigit (peek v)"
  shows "strict_suffix r v"
proof -
  let ?v1 = "if peek v = CHR ''-'' then drop 1 v else v"
  let ?v2 = "if peek ?v1 = CHR ''0'' then drop 1 ?v1 else ?v1"
  obtain v3 v4 where v: "if isdigit (peek ?v2) \<and> peek ?v2 \<noteq> CHR ''0'' then \<exists>n k. read_digits ?v2 (Fin 0) 0 = (n, k, v3) else v3 = ?v2"
    "suffix r v3" using parse_number_steps [OF assms(1)] suffix_order.trans by blast
  have v3: "suffix v3 ?v2" using v(1) suffix_read_digits by (auto split: if_splits)
  have v2: "suffix ?v2 ?v1" by (rule suffix_if_drop)
  note v(2)
  also have "strict_suffix v3 v"
  proof (cases "peek v = CHR ''-'' \<or> peek v = CHR ''0''")
    case True
    then have "strict_suffix ?v2 v" using v2 strict_drop [of v] by (auto intro: suffix_strict)
    with v3 show ?thesis by (rule suffix_strict)
  next
    case False
    then show ?thesis using v(1) assms(2) strict_read_digits by (auto split: if_splits)
  qed
  finally show ?thesis .
qed

lemma strict_parse_string:
  assumes "parse_string L v m = Some (Done s r, m')"
  shows "strict_suffix r v"
proof -
  have u: "suffix r v" if "unescape cap v out = Some (o', r)" for cap v out o' r
    using that
  proof (induction cap v out rule: unescape.induct)
    case (1 cap v out)
    show ?case
    proof (cases v)
      case (Cons c v')
      obtain k bs where "escape v' = (k, bs)" by (cases "escape v'")
      with 1 Cons show ?thesis
        by (subst (asm) unescape.simps)
           (auto split: if_splits intro: suffix_ConsI suffix_order.trans [OF _ suffix_drop])
    qed (use 1(3) in \<open>subst (asm) unescape.simps; simp split: if_splits\<close>)
  qed
  obtain c v' where v: "v = c # v'" "peek v \<noteq> NUL" using assms by (cases v) (auto simp: parse_string_def split: if_splits)
  obtain n where n: "string_len v' = Some n" using assms by (cases "string_len v'") (auto simp: parse_string_def v(1) split: if_splits)
  obtain b m1 where b: "malloc L (n + 1) m = (b, m1)" by (cases "malloc L (n + 1) m")
  have "\<exists>out r'. unescape (n + 1) v' [] = Some (out, r') \<and> suffix r r'"
    using assms n b by (cases b) (auto simp: parse_string_def v(1) bind_eq_Some_conv split: if_splits intro: suffix_drop)
  then have "suffix r v'" using u suffix_order.trans by blast
  then show ?thesis unfolding v(1) by (rule strict_suffix_ConsI)
qed

text \<open>A parser of values or members: what it succeeds on shrinks.\<close>

definition shrinks :: "(string \<Rightarrow> ('m, 'a parsed) run) \<Rightarrow> bool" where
  "shrinks p \<longleftrightarrow> (\<forall>v m c r m'. p v m = Some (Done c r, m') \<longrightarrow> strict_suffix r v)"

lemma shrinksD: "shrinks p \<Longrightarrow> p v m = Some (Done c r, m') \<Longrightarrow> strict_suffix r v"
  unfolding shrinks_def by blast

text \<open>The step behind a parser that may have failed.\<close>

lemma bind_parsed:
  "(Option.bind x (\<lambda>(r, m). case r of Fail e \<Rightarrow> Some (Fail e, m) | Done c v \<Rightarrow> f c v m) = Some (Done a b, m')) \<longleftrightarrow>
    (\<exists>c v m1. x = Some (Done c v, m1) \<and> f c v m1 = Some (Done a b, m'))"
  by (cases x) (auto split: parsed.splits)

lemma suffix_Done:
  assumes "shrinks p" "p (skip v) m = Some (Done c r, m')"
  shows "suffix (skip r) v"
  using shrinksD [OF assms] suffix_skip [of r] suffix_skip [of v] by (auto simp: strict_suffix_def intro: suffix_order.trans)

lemma suffix_rest_loop:
  assumes "shrinks p" "close \<noteq> NUL"
  shows "rest_loop n L p close cs v m = Some (Done cs' r, m') \<Longrightarrow> strict_suffix r v"
proof (induction n arbitrary: cs v m)
  case (Suc n)
  show ?case
  proof (cases "peek v = CHR '',''")
    case True
    obtain b m1 where b: "cJSON_New_Item L m = (b, m1)" by (cases "cJSON_New_Item L m")
    have "\<exists>c r1 m2. p (skip (drop 1 v)) m1 = Some (Done c r1, m2) \<and> rest_loop n L p close (cs @ [c]) (skip r1) m2 = Some (Done cs' r, m')"
      using Suc.prems True b
      by (cases b) (auto simp: rest_loop.simps bind_parsed)
    then obtain c r1 m2 where 1: "p (skip (drop 1 v)) m1 = Some (Done c r1, m2)" "rest_loop n L p close (cs @ [c]) (skip r1) m2 = Some (Done cs' r, m')"
      by blast
    from Suc.IH [OF 1(2)] have "strict_suffix r (skip r1)" .
    also have "suffix (skip r1) (drop 1 v)" by (rule suffix_Done [OF assms(1) 1(1)])
    also have "suffix (drop 1 v) v" by (rule suffix_drop)
    finally show ?thesis .
  next
    case False
    then show ?thesis using Suc.prems assms(2) strict_drop [of v] by (auto simp: rest_loop.simps split: if_splits)
  qed
qed (simp add: rest_loop.simps)

lemma suffix_parse_elements:
  assumes "shrinks p" "close \<noteq> NUL" "parse_elements n L p close v m = Some (Done cs' r, m')" "peek v \<noteq> NUL"
  shows "strict_suffix r v"
proof -
  let ?v = "skip (drop 1 v)"
  have s: "suffix ?v v" using suffix_skip suffix_drop suffix_order.trans by blast
  have "strict_suffix r ?v"
  proof (cases "peek ?v = close")
    case True
    then show ?thesis using assms(2,3) strict_drop [of ?v] by (auto simp: parse_elements_def Let_def)
  next
    case False
    obtain b m1 where b: "cJSON_New_Item L m = (b, m1)" by (cases "cJSON_New_Item L m")
    have "\<exists>c r1 m2. p (skip ?v) m1 = Some (Done c r1, m2) \<and> rest_loop n L p close [c] (skip r1) m2 = Some (Done cs' r, m')"
      using assms(3) False b by (cases b) (auto simp: parse_elements_def Let_def bind_parsed)
    then show ?thesis using suffix_rest_loop [OF assms(1,2)] suffix_Done [OF assms(1)] by (blast intro: suffix_order.less_le_trans)
  qed
  then show ?thesis using s by (rule suffix_order.less_le_trans)
qed

lemma shrinks_parse_member:
  assumes "\<And>name. shrinks (pv name)"
  shows "shrinks (parse_member L pv)"
  unfolding shrinks_def
proof (intro allI impI)
  fix v m c r m' assume "parse_member L pv v m = Some (Done c r, m')"
  then obtain s r1 m1 where 1: "parse_string L v m = Some (Done s r1, m1)" "pv (Some s) (skip (drop 1 (skip r1))) m1 = Some (Done c r, m')"
    by (auto simp: parse_member_def bind_parsed Let_def split: if_splits)
  have "strict_suffix r1 v" using 1(1) by (rule strict_parse_string)
  moreover have "strict_suffix r (skip (drop 1 (skip r1)))" using 1(2) by (rule shrinksD [OF assms])
  moreover have "suffix (skip (drop 1 (skip r1))) r1" using suffix_skip suffix_drop suffix_order.trans by metis
  ultimately show "strict_suffix r v" by (meson suffix_order.less_le_trans suffix_order.less_trans)
qed

lemma case_parsed_Done:
  "(case r of Fail e \<Rightarrow> Fail e | Done s v \<Rightarrow> Done (f s) v) = Done c w \<longleftrightarrow> (\<exists>s. r = Done s w \<and> f s = c)"
  by (cases r) auto

lemma shrinks_parse_value: "shrinks (parse_value n L P name)"
proof (induction n arbitrary: name)
  case 0
  then show ?case by (simp add: shrinks_def parse_value.simps)
next
  case (Suc n)
  have lit: "strict_suffix (drop (length w) v) v" if "take (length w) v = w" "w \<noteq> []" for w v :: string
  proof -
    have "length (drop (length w) v) < length v" using that by (cases v; cases w) simp_all
    then show ?thesis using suffix_drop [of "length w" v] unfolding strict_suffix_def by (metis less_irrefl)
  qed
  show ?case unfolding shrinks_def
  proof (intro allI impI)
    fix v m c r m' assume p: "parse_value (Suc n) L P name v m = Some (Done c r, m')"
    consider "take 4 v = ''null''" "r = drop 4 v" | "take 5 v = ''false''" "r = drop 5 v" | "take 4 v = ''true''" "r = drop 4 v"
      | (str) s m1 where "parse_string L v m = Some (Done s r, m1)"
      | (num) d i where "parse_number P v = Some (d, i, r)" "peek v = CHR ''-'' \<or> isdigit (peek v)"
      | (arr) cs where "parse_elements n L (parse_value n L P None) (CHR '']'') v m = Some (Done cs r, m')" "peek v \<noteq> NUL"
      | (obj) cs where "parse_elements n L (parse_member L (parse_value n L P)) (CHR ''}'') v m = Some (Done cs r, m')" "peek v \<noteq> NUL"
      using p by (auto simp: parse_value.simps bind_eq_Some_conv parse_array_def parse_object_def done_item_def
          case_parsed_Done split: if_splits)
    then show "strict_suffix r v"
    proof cases
      case 1
      then show ?thesis using lit [of "''null''" v] by (simp add: numeral_eq_Suc)
    next
      case 2
      then show ?thesis using lit [of "''false''" v] by (simp add: numeral_eq_Suc)
    next
      case 3
      then show ?thesis using lit [of "''true''" v] by (simp add: numeral_eq_Suc)
    next
      case str
      then show ?thesis by (rule strict_parse_string)
    next
      case num
      then show ?thesis by (rule strict_parse_number)
    next
      case arr
      then show ?thesis by (intro suffix_parse_elements [OF Suc.IH _ arr(1)]) simp_all
    next
      case obj
      then show ?thesis by (intro suffix_parse_elements [OF shrinks_parse_member [OF Suc.IH] _ obj(1)]) simp_all
    qed
  qed
qed

subsection \<open>Every text is parsed or refused\<close>

text \<open>A text without escapes in which, from no place on, a number is out of range.\<close>

definition safe_text :: "(int \<Rightarrow> double) \<Rightarrow> string \<Rightarrow> bool" where
  "safe_text P v \<longleftrightarrow> CHR 0x5C \<notin> set v \<and> (\<forall>w \<in> set (suffixes v). parse_number P w \<noteq> None)"

lemma safe_suffix: "safe_text P v \<Longrightarrow> suffix w v \<Longrightarrow> safe_text P w"
  unfolding safe_text_def using set_mono_suffix suffix_order.trans by auto

lemma safe_skip: "safe_text P v \<Longrightarrow> safe_text P (skip v)"
  using safe_suffix suffix_skip by blast

lemma string_len_safe: "CHR 0x5C \<notin> set v \<Longrightarrow> \<exists>n. string_len v = Some n"
  by (induction v) auto

lemma unescape_safe:
  assumes "CHR 0x5C \<notin> set v" "string_len v = Some n" "length out + n < cap"
  shows "\<exists>o' r. unescape cap v out = Some (o', r)"
  using assms
proof (induction v arbitrary: n out)
  case Nil
  then show ?case by (subst unescape.simps) simp
next
  case (Cons c v)
  show ?case
  proof (cases "c = CHR 0x22 \<or> c = NUL")
    case True
    with Cons.prems(3) show ?thesis by (subst unescape.simps) auto
  next
    case False
    then obtain k where "string_len v = Some k" "n = Suc k" using Cons.prems(1,2) by auto
    with Cons.IH [of k "out @ [c]"] Cons.prems False show ?thesis by (subst unescape.simps) auto
  qed
qed

lemma parse_string_safe:
  assumes "CHR 0x5C \<notin> set v"
  shows "parse_string L v m \<noteq> None"
proof (cases "peek v = CHR 0x22")
  case True
  have s: "CHR 0x5C \<notin> set (drop 1 v)" using assms by (meson in_set_dropD)
  obtain n where n: "string_len (drop 1 v) = Some n" using string_len_safe [OF s] by blast
  obtain b m1 where b: "malloc L (n + 1) m = (b, m1)" by (cases "malloc L (n + 1) m")
  obtain o' r where "unescape (n + 1) (drop 1 v) [] = Some (o', r)" using unescape_safe [OF s n, of "[]" "n + 1"] by auto
  with True n b show ?thesis by (cases b) (simp_all add: parse_string_def)
qed (simp add: parse_string_def)

lemma bind_not_None: "x \<noteq> None \<Longrightarrow> (\<And>r m1. x = Some (r, m1) \<Longrightarrow> f r m1 \<noteq> None) \<Longrightarrow> Option.bind x (\<lambda>(r, m). f r m) \<noteq> None"
  by (cases x) auto

definition total_below :: "(int \<Rightarrow> double) \<Rightarrow> nat \<Rightarrow> (string \<Rightarrow> ('m, 'a parsed) run) \<Rightarrow> bool" where
  "total_below P n p \<longleftrightarrow> (\<forall>v m. safe_text P v \<longrightarrow> length v < n \<longrightarrow> p v m \<noteq> None)"

lemma length_skip: "length (skip v) \<le> length v"
  by (simp add: skip_def length_dropWhile_le)

lemma rest_loop_total:
  assumes "shrinks p" "total_below P N p"
  shows "safe_text P v \<Longrightarrow> length v \<le> N \<Longrightarrow> length v < n \<Longrightarrow> rest_loop n L p close cs v m \<noteq> None"
proof (induction n arbitrary: cs v m)
  case (Suc n)
  show ?case
  proof (cases "peek v = CHR '',''")
    case True
    obtain b m1 where b: "cJSON_New_Item L m = (b, m1)" by (cases "cJSON_New_Item L m")
    obtain c v' where v: "v = c # v'" using True by (cases v) auto
    have s: "safe_text P (skip v')" using Suc.prems(1) v safe_suffix [of P v v'] safe_skip by (auto intro: suffix_ConsI)
    have len: "length (skip v') < N" using length_skip [of v'] Suc.prems(2) v by simp
    have "Option.bind (p (skip v') m1) (\<lambda>(r, m). case r of Fail e \<Rightarrow> Some (Fail e, m)
      | Done c v \<Rightarrow> rest_loop n L p close (cs @ [c]) (skip v) m) \<noteq> None"
    proof (rule bind_not_None)
      show "p (skip v') m1 \<noteq> None" using assms(2) s len by (simp add: total_below_def)
    next
      fix r m2 assume r: "p (skip v') m1 = Some (r, m2)"
      show "(case r of Fail e \<Rightarrow> Some (Fail e, m2) | Done c v \<Rightarrow> rest_loop n L p close (cs @ [c]) (skip v) m2) \<noteq> None"
      proof (cases r)
        case (Done d w)
        have w: "suffix (skip w) v'" using r Done by (intro suffix_Done [OF assms(1)]) simp
        then have "suffix (skip w) v" "length (skip w) \<le> length v'" using v by (auto intro: suffix_ConsI suffix_length_le)
        then show ?thesis using Suc.IH [of "skip w" "cs @ [d]" m2] Suc.prems v Done safe_suffix by auto
      qed simp
    qed
    then show ?thesis using True b v by (cases b) (simp_all add: rest_loop.simps)
  qed (simp add: rest_loop.simps)
qed simp

lemma parse_elements_total:
  assumes "shrinks p" "total_below P N p" "safe_text P v" "peek v \<noteq> NUL" "length v \<le> N" "length v \<le> n"
  shows "parse_elements n L p close v m \<noteq> None"
proof -
  obtain c v' where v: "v = c # v'" using assms(4) by (cases v) auto
  obtain b m1 where b: "cJSON_New_Item L m = (b, m1)" by (cases "cJSON_New_Item L m")
  have sk: "suffix (skip v') v'" "suffix (skip (skip v')) v'" using suffix_skip suffix_order.trans by blast+
  then have s: "safe_text P (skip (skip v'))" using assms(3) v safe_suffix by (meson suffix_ConsI)
  have len: "length (skip (skip v')) < N" using suffix_length_le [OF sk(2)] assms(5) v by simp
  have "Option.bind (p (skip (skip v')) m1) (\<lambda>(r, m). case r of Fail e \<Rightarrow> Some (Fail e, m)
    | Done c v \<Rightarrow> rest_loop n L p close [c] (skip v) m) \<noteq> None"
  proof (rule bind_not_None)
    show "p (skip (skip v')) m1 \<noteq> None" using assms(2) s len by (simp add: total_below_def)
  next
    fix r m2 assume r: "p (skip (skip v')) m1 = Some (r, m2)"
    show "(case r of Fail e \<Rightarrow> Some (Fail e, m2) | Done c v \<Rightarrow> rest_loop n L p close [c] (skip v) m2) \<noteq> None"
    proof (cases r)
      case (Done d w)
      have "suffix (skip w) (skip v')" using r Done by (intro suffix_Done [OF assms(1)]) simp
      then have w: "suffix (skip w) v'" using sk(1) suffix_order.trans by blast
      then have "safe_text P (skip w)" "length (skip w) \<le> length v'" using assms(3) v safe_suffix by (auto intro: suffix_ConsI suffix_length_le)
      then show ?thesis using rest_loop_total [OF assms(1,2), of "skip w" n L close "[d]" m2] assms(5,6) v Done by auto
    qed simp
  qed
  then show ?thesis using b v by (cases b) (simp_all add: parse_elements_def Let_def)
qed

lemma parse_member_total:
  assumes "\<And>name. total_below P n (pv name)"
  shows "total_below P n (parse_member L pv)"
  unfolding total_below_def
proof (intro allI impI)
  fix v m assume v: "safe_text P v" "length v < n"
  have "CHR 0x5C \<notin> set v" using v(1) by (simp add: safe_text_def)
  then have "parse_string L v m \<noteq> None" by (rule parse_string_safe)
  then show "parse_member L pv v m \<noteq> None"
    unfolding parse_member_def
  proof (rule bind_not_None)
    fix r m1 assume r: "parse_string L v m = Some (r, m1)"
    show "(case r of Fail e \<Rightarrow> Some (Fail e, m1)
      | Done name v \<Rightarrow> (let v = skip v in if peek v \<noteq> CHR '':'' then Some (Fail (Some v), m1) else pv (Some name) (skip (drop 1 v)) m1)) \<noteq> None"
    proof (cases r)
      case (Done s w)
      have w: "strict_suffix w v" using r unfolding Done by (rule strict_parse_string)
      have "suffix (skip (drop 1 (skip w))) w" using suffix_skip suffix_drop suffix_order.trans by metis
      then have "suffix (skip (drop 1 (skip w))) v" using w suffix_order.trans by (auto simp: strict_suffix_def)
      then have "pv (Some s) (skip (drop 1 (skip w))) m1 \<noteq> None"
        using assms [of "Some s"] v safe_suffix [OF v(1)] suffix_length_le le_less_trans unfolding total_below_def by metis
      then show ?thesis using Done by (simp add: Let_def)
    qed simp
  qed
qed

lemma parse_value_total: "total_below P n (parse_value n L P name)"
proof (induction n arbitrary: name)
  case 0
  then show ?case by (simp add: total_below_def)
next
  case (Suc n)
  show ?case unfolding total_below_def
  proof (intro allI impI)
    fix v m assume v: "safe_text P v" "length v < Suc n"
    have "parse_string L v m \<noteq> None" using v(1) parse_string_safe by (auto simp: safe_text_def)
    moreover have "parse_number P v \<noteq> None" using v(1) by (auto simp: safe_text_def)
    moreover have "parse_array n L (parse_value n L P) name v m \<noteq> None"
    proof (cases "peek v = CHR ''[''")
      case True
      have "parse_elements n L (parse_value n L P None) (CHR '']'') v m \<noteq> None"
        using Suc.IH True v by (intro parse_elements_total [OF shrinks_parse_value]) auto
      then show ?thesis using True by (auto simp: parse_array_def)
    qed (simp add: parse_array_def)
    moreover have "parse_object n L (parse_value n L P) name v m \<noteq> None"
    proof (cases "peek v = CHR ''{''")
      case True
      have "parse_elements n L (parse_member L (parse_value n L P)) (CHR ''}'') v m \<noteq> None"
        using True v by (intro parse_elements_total [OF shrinks_parse_member [OF shrinks_parse_value] parse_member_total [OF Suc.IH]]) auto
      then show ?thesis using True by (auto simp: parse_object_def)
    qed (simp add: parse_object_def)
    ultimately show "parse_value (Suc n) L P name v m \<noteq> None"
      by (auto simp: parse_value.simps)
  qed
qed

end
