(* ===== verification/Json_Thms.thy ===== *)
theory Json_Thms
  imports Json_Buffered Json_Roundtrip Json_Minify Json_Total
begin

text \<open>
  The properties of cJSON: printing and parsing fit together, the printers agree with each other,
  the parser comes to an end, and where its handling of strings goes wrong.
\<close>

subsection \<open>Printing and parsing\<close>

lemma printer_text:
  assumes "roomy L" "printable t" "4 * length (json_text fmt 0 t) < 2 ^ 31"
  shows "\<exists>m'. (if fmt then cJSON_Print else cJSON_PrintUnformatted) L t m = Some (Some (json_text fmt 0 t), m')"
  using print_value_text [OF assms, of m] by (cases fmt) (simp_all add: cJSON_Print_def cJSON_PrintUnformatted_def)

lemma parse_whole:
  assumes "roomy L" "P 0 = Fin 1" "parsed_item t" "j_string t = None"
  shows "\<exists>m'. cJSON_ParseWithOpts L P (Some (json_text fmt 0 t)) strict m = Some (Done t [], m')"
proof -
  obtain m1 where "cJSON_New_Item L m = (Some zero_item, m1)" using New_Item_roomy [OF assms(1)] by blast
  moreover have "skip (json_text fmt 0 t) = json_text fmt 0 t" using skip_solid [OF solid_text [OF assms(3)], of fmt 0 "[]"] by simp
  moreover obtain m2 where "parse_value (length (json_text fmt 0 t) + 1) L P None (json_text fmt 0 t) m1 = Some (Done t [], m2)"
    using parse_text [where P = P and fmt = fmt and d = 0 and r = "[]" and m = m1, OF assms(1-3)] assms(4)
    by (auto simp: ends_number_def isdigit_def)
  ultimately show ?thesis by (simp add: cJSON_ParseWithOpts_def skip_def)
qed

text \<open>
  C19: What \<open>cJSON_Print\<close> or \<open>cJSON_PrintUnformatted\<close> prints for an item as the parser makes them,
  \<open>cJSON_Parse\<close> reads back as the same item: all types, strings and names with every character that
  needs an escape, nested arrays and objects, and whole numbers in the range of \<open>int\<close>. Nothing of the
  text is left over. The allocator must not fail, \<open>pow (10.0, 0)\<close> must be 1, the item itself has no name,
  and the text is below 512 MB, for the lengths are counted in an \<open>int\<close>.
\<close>

theorem print_then_parse:
  assumes "roomy L" "P 0 = Fin 1" "parsed_item t" "j_string t = None" "4 * length (json_text fmt 0 t) < 2 ^ 31"
  shows "\<exists>text m1 m2. (if fmt then cJSON_Print else cJSON_PrintUnformatted) L t m = Some (Some text, m1) \<and>
    cJSON_Parse L P (Some text) m1 = Some (Done t [], m2)"
proof -
  obtain m1 where "(if fmt then cJSON_Print else cJSON_PrintUnformatted) L t m = Some (Some (json_text fmt 0 t), m1)"
    using printer_text [OF assms(1) parsed_printable [OF assms(3)] assms(5)] by blast
  moreover obtain m2 where "cJSON_Parse L P (Some (json_text fmt 0 t)) m1 = Some (Done t [], m2)"
    using parse_whole [where P = P, OF assms(1-4), of fmt False m1] by (auto simp: cJSON_Parse_def)
  ultimately show ?thesis by blast
qed

text \<open>An object with a number, a string that needs an escape, and an array.\<close>

definition sample :: cJSON where
  "sample = Item cJSON_Object None 0 (Fin 0) None
    [Item cJSON_Number None (-42) (Fin (-42)) (Some ''size'') [],
     Item cJSON_String (Some [CHR ''a'', CHR 0x0A, CHR 0x22]) 0 (Fin 0) (Some ''name'') [],
     Item cJSON_Array None 0 (Fin 0) (Some ''kids'') [Item cJSON_True None 1 (Fin 0) None [], Item cJSON_Array None 0 (Fin 0) None []]]"

definition heap :: "nat allocator" where
  "heap n m = (Some (replicate n NUL), m + n)"

definition pow_10_0 :: "int \<Rightarrow> double" where
  "pow_10_0 k = Fin 1"

lemma heap_roomy: "roomy heap"
  by (simp add: roomy_def heap_def)

lemma sample_number: "number_text (Fin (-42)) (-42) = (21, Some ''-42'')"
proof -
  have "show_int (-42) = ''-42''" by code_simp
  then show ?thesis using number_text_int [of "-42"] by (simp add: INT_MIN_def INT_MAX_def)
qed

lemma sample_parsed: "parsed_item sample" "j_string sample = None"
  by (auto simp: sample_def parsed_item.simps json_types c_string_def INT_MIN_def INT_MAX_def)

lemma sample_length: "length (json_text False 0 sample) = 44"
  by (simp add: sample_def json_text.simps json_types scalar_text_def sample_number quote_def print_char_def needs_escape_def
      escape_of_def)

lemma print_then_parse_witness:
  "\<exists>text m1 m2. cJSON_PrintUnformatted heap sample 0 = Some (Some text, m1) \<and> cJSON_Parse heap pow_10_0 (Some text) m1 = Some (Done sample [], m2)"
  using print_then_parse [of heap pow_10_0 sample False 0] heap_roomy sample_parsed sample_length by (simp add: pow_10_0_def)

text \<open>
  C20: \<open>cJSON_PrintBuffered\<close> with a buffer of any first size up to \<open>2 ^ 30\<close> returns the same text as
  \<open>cJSON_Print\<close> (formatted) or \<open>cJSON_PrintUnformatted\<close>: the buffer grows when it must, and no write leaves
  it. This holds for every item whose strings and names are there and whose numbers have a text that
  fits its block, when the allocator does not fail and the text is below 512 MB.
\<close>

theorem buffered_print_agrees:
  assumes "roomy L" "printable t" "4 * length (json_text fmt 0 t) < 2 ^ 31" "0 \<le> prebuffer" "prebuffer \<le> 2 ^ 30"
  shows "\<exists>text m1 m2. cJSON_PrintBuffered L t prebuffer fmt m = Some (Some text, m1) \<and>
    (if fmt then cJSON_Print else cJSON_PrintUnformatted) L t m = Some (Some text, m2)"
proof -
  let ?x = "json_text fmt 0 t"
  obtain b m1 where b: "malloc L (to_size_t prebuffer) m = (Some b, m1)" "length b = to_size_t prebuffer" using malloc_roomy [OF assms(1)] by blast
  let ?p = "\<lparr>pb_buffer = Some b, pb_length = prebuffer, pb_offset = 0\<rparr>"
  have "buf_at ?p [] []" using b(2) assms(4,5) by (simp add: buf_at_def to_size_t_def)
  moreover have "length [] + length ?x + 64 \<le> 2 ^ 30" using assms(3) by simp
  ultimately obtain p m2 where p: "buf_value L t 0 fmt ?p m1 = Some ((True, p), m2)" "written p [] ?x"
    using buf_value_at [OF assms(1,2), of ?p "[]" fmt 0 m1] by auto
  obtain r where "pb_buffer p = Some (?x @ NUL # r)" using p(2) by (auto simp: written_def buf_at_def)
  then have "cJSON_PrintBuffered L t prebuffer fmt m = Some (Some ?x, m2)"
    using b(1) p(1) json_text_no_NUL [OF assms(2)] by (simp add: cJSON_PrintBuffered_def)
  then show ?thesis using printer_text [OF assms(1-3)] by blast
qed

lemma buffered_print_agrees_witness:
  "\<exists>text m1 m2. cJSON_PrintBuffered heap sample 1 False 0 = Some (Some text, m1) \<and> cJSON_PrintUnformatted heap sample 0 = Some (Some text, m2)"
  using buffered_print_agrees [of heap sample False 1 0] heap_roomy parsed_printable [OF sample_parsed(1)] sample_length by simp

text \<open>
  \<open>cJSON_Minify\<close> turns what \<open>cJSON_Print\<close> prints into what \<open>cJSON_PrintUnformatted\<close> prints: the tabs, blanks
  and line ends between the parts go, and the strings keep theirs.
\<close>

theorem minify_formatted:
  assumes "roomy L" "parsed_item t" "4 * length (json_text True 0 t) < 2 ^ 31" "4 * length (json_text False 0 t) < 2 ^ 31"
  shows "\<exists>text m1 m2. cJSON_Print L t m = Some (Some text, m1) \<and> cJSON_PrintUnformatted L t m = Some (cJSON_Minify text, m2)"
proof -
  note pr = parsed_printable [OF assms(2)]
  have "cJSON_Minify (json_text True 0 t @ []) = Some (json_text False 0 t)"
    using becomes_json_text [OF assms(2), of True 0 0] unfolding becomes_def by (simp only: cJSON_Minify.simps [of "[]"]) simp
  moreover obtain m1 where "cJSON_Print L t m = Some (Some (json_text True 0 t), m1)"
    using printer_text [OF assms(1) pr assms(3), of m] by auto
  moreover obtain m2 where "cJSON_PrintUnformatted L t m = Some (Some (json_text False 0 t), m2)"
    using printer_text [OF assms(1) pr assms(4), of m] by auto
  ultimately show ?thesis by simp
qed

lemma sample_length_formatted: "length (json_text True 0 sample) = 55"
  by (simp add: sample_def json_text.simps json_types scalar_text_def sample_number quote_def print_char_def needs_escape_def
      escape_of_def tabs_def)

lemma minify_formatted_witness:
  "\<exists>text m1 m2. cJSON_Print heap sample 0 = Some (Some text, m1) \<and> cJSON_PrintUnformatted heap sample 0 = Some (cJSON_Minify text, m2)"
  using minify_formatted [of heap sample 0] heap_roomy sample_parsed sample_length sample_length_formatted by simp

subsection \<open>The parser on any text\<close>




subsection \<open>Where strings go wrong\<close>

text \<open>
  Behind \<open>\u\<close> the parser skips four places without looking at them, and the loop that measured the
  string did not. So a quote right behind \<open>\u\<close> ends the string for the block that is allocated, but
  not for the loop that fills it, and the text that follows is written over the end of the block.
\<close>

lemma unescape_too_long:
  "\<forall>c \<in> set s. c \<notin> {CHR 0x22, CHR 0x5C, NUL} \<Longrightarrow> cap \<le> length out + length s \<Longrightarrow> unescape cap s out = None"
proof (induction s arbitrary: out)
  case Nil
  then show ?case by (subst unescape.simps) simp
next
  case (Cons c s)
  then have "length out < cap \<Longrightarrow> unescape cap s (out @ [c]) = None" by (intro Cons.IH) auto
  with Cons.prems(1) show ?case by (subst unescape.simps) simp
qed

theorem unicode_escape_overflow:
  assumes "roomy L" "\<forall>c \<in> set s. c \<notin> {CHR 0x22, CHR 0x5C, NUL}" "5 \<le> length s"
  shows "cJSON_Parse L P (Some ([CHR 0x22, CHR 0x5C, CHR ''u'', CHR 0x22] @ s)) m = None"
proof -
  let ?t = "[CHR 0x5C, CHR ''u'', CHR 0x22] @ s"
  obtain m1 where m1: "cJSON_New_Item L m = (Some zero_item, m1)" using New_Item_roomy [OF assms(1)] by blast
  obtain b m2 where m2: "malloc L (Suc (Suc 0)) m1 = (Some b, m2)" using malloc_roomy [OF assms(1)] by blast
  have "parse_hex4 (CHR 0x22 # s) = 0" by (simp add: parse_hex4_loop hex_val_def isdigit_def)
  then have e: "escape (CHR ''u'' # CHR 0x22 # s) = (4, [])" by (simp add: escape_def unicode_escape_def)
  have "unescape 2 (drop 3 s) [] = None"
    using assms(2,3) by (intro unescape_too_long) (auto dest: in_set_dropD)
  then have "unescape (Suc (Suc 0)) ?t [] = None" using e by (subst unescape.simps) (simp add: numeral_eq_Suc)
  then have "parse_string L (CHR 0x22 # ?t) m1 = None" using m2 by (simp add: parse_string_def)
  then have "parse_value (Suc k) L P None (CHR 0x22 # ?t) m1 = None" for k by (simp add: parse_value_open)
  then show ?thesis using m1 by (simp add: cJSON_Parse_def cJSON_ParseWithOpts_def skip_def)
qed

theorem unicode_escape_overflow_witness:
  "cJSON_Parse heap P (Some ([CHR 0x22, CHR 0x5C, CHR ''u'', CHR 0x22] @ '', 1, 2''))  0 = None"
  using unicode_escape_overflow [OF heap_roomy, of "'', 1, 2''" P 0] by simp

text \<open>A text that ends in the middle of a string is taken for one that ends with the string.\<close>

lemma string_len_open: "NUL \<notin> set s \<Longrightarrow> \<exists>k \<ge> length s. string_len (concat (map print_char s)) = Some k"
proof (induction s)
  case (Cons c s)
  then obtain k where k: "length s \<le> k" "string_len (concat (map print_char s)) = Some k" by auto
  obtain j where "1 \<le> j" "string_len (print_char c @ concat (map print_char s)) = map_option ((+) j) (string_len (concat (map print_char s)))"
    using string_len_char [of c "concat (map print_char s)"] Cons.prems by auto
  with k show ?case by (intro exI [of _ "j + k"]) simp
qed simp

lemma unescape_open:
  "NUL \<notin> set s \<Longrightarrow> length out + length s < cap \<Longrightarrow> unescape cap (concat (map print_char s)) out = Some (out @ s, [])"
proof (induction s arbitrary: out)
  case Nil
  then show ?case by (subst unescape.simps) simp
next
  case (Cons c s)
  then have "c \<noteq> NUL" by auto
  with Cons show ?case using unescape_char [of c out cap "concat (map print_char s)"] by simp
qed

theorem unterminated_string_accepted:
  assumes "roomy L" "NUL \<notin> set s"
  shows "\<exists>m'. cJSON_ParseWithOpts L P (Some (CHR 0x22 # concat (map print_char s))) True m =
    Some (Done (Item cJSON_String (Some s) 0 (Fin 0) None []) [], m')"
proof -
  obtain m1 where m1: "cJSON_New_Item L m = (Some zero_item, m1)" using New_Item_roomy [OF assms(1)] by blast
  obtain k where k: "length s \<le> k" "string_len (concat (map print_char s)) = Some k" using string_len_open [OF assms(2)] by blast
  obtain b m2 where m2: "malloc L (k + 1) m1 = (Some b, m2)" using malloc_roomy [OF assms(1)] by blast
  have "parse_string L (CHR 0x22 # concat (map print_char s)) m1 = Some (Done s [], m2)"
    using k m2 unescape_open [OF assms(2), of "[]" "k + 1"] by (simp add: parse_string_def)
  then show ?thesis using m1 by (simp add: cJSON_ParseWithOpts_def parse_value_open) (simp add: skip_def)
qed

theorem unterminated_string_accepted_witness:
  "\<exists>m'. cJSON_ParseWithOpts heap P (Some (CHR 0x22 # concat (map print_char ''abc''))) True 0 =
    Some (Done (Item cJSON_String (Some ''abc'') 0 (Fin 0) None []) [], m')"
  by (rule unterminated_string_accepted [OF heap_roomy]) simp

end
