(* ===== verification/Spec2Isabelle.thy ===== *)
theory Spec2Isabelle
  imports File_Thms Eviction_Thms Region Data_Thms Refinement Pipeline Async_Thms Cuckoo_Thms Json_Thms
begin

text \<open>
  \<^bold>\<open>A verification development for Pacon.\<close> Pacon is a client side cache for the metadata of a
  distributed file system. Applications link the library \<open>src/pacon.c\<close>; the clients of one
  \<open>consistent region\<close>, a directory of the file system, share a memcached cluster that holds the
  metadata and the data of small files, and on every node a server (\<open>src/server/pacon_server.c\<close>)
  carries the changes over to the file system in the background.

  \<^bold>\<open>The parts and how they interact.\<close>
  \<^item> \<open>src/kv/dmkv.c\<close> wraps the memcached client: get, add, set, compare-and-swap, delete, and the
    list of the nodes from the configuration files.
  \<^item> \<open>src/lib/cuckoo/hash_table.cc\<close> keeps three tables per process: checked directories, descriptors
    and open counters. They are tables of libcuckoo (\<open>src/lib/cuckoo/libcuckoo\<close>).
  \<^item> \<open>src/pacon.c\<close> has the operations. An operation that changes the namespace stores the new metadata
    in the cache and sends the server of its node a message \<open>path:op time\<close> over a publish socket (the
    commit queue). Operations that need all earlier changes on the file system (rmdir, readdir,
    rename) call the server over a request socket (the local rpc) after a barrier of the clients.
  \<^item> \<open>src/comm/comm.c\<close> connects the servers of a cluster and sends messages to all of them.
  \<^item> \<open>src/server/pacon_server.c\<close> has three threads: the listener of the commit queue
    (\<open>commit_to_fs\<close>), of the local rpc (\<open>commit_to_fs_barrier\<close>) and of the cluster (\<open>handle_cluster_mesg\<close>).
  \<^item> \<open>src/lib/cJSON.c\<close> reads and prints JSON, the form of the metadata with \<open>SERI_TYPE = 1\<close>.

  \<^bold>\<open>Theories.\<close>
  \<^item> \<open>Prelude\<close>: the C library the sources use (\<open>strlen\<close>, \<open>memcpy\<close>, \<open>sprintf\<close>, \<open>atoi\<close>, \<open>fgets\<close>), words, and rules
    for functions with undefined behaviour (\<open>opt_le\<close>, \<open>lands\<close>, \<open>arrives\<close>).
  \<^item> \<open>Environment\<close>: everything outside \<open>src/\<close> as a record of functions on a state \<open>'e\<close> (memcached, the
    POSIX calls, libzmq, the clock, values of variables that were never set), and its contracts as
    locales: \<open>memcached_service\<close>, \<open>roomy_memcached\<close>, \<open>message_log\<close>, \<open>client_env\<close>, \<open>dfs_service\<close>,
    \<open>server_env\<close>. \<open>Reference_Env\<close> gives a concrete environment and interprets the locales on it.
  \<^item> \<open>Dmkv\<close>, \<open>Pacon_Stat\<close>, \<open>Paths\<close>, \<open>Client_State\<close>, \<open>Messages\<close>, \<open>Permission\<close>: the store, the structs and their
    layout in memory, the comparison of paths, the state of a client, the two message formats,
    batch permissions.
  \<^item> \<open>Cache\<close> and \<open>Eviction\<close>: loading entries of the file system into the cache, and making room.
  \<^item> \<open>Namespace\<close>: create, mkdir, getattr, rm, rmdir, rename. \<open>File_Data\<close>: open, read, write,
    create with data, fsync. \<open>Region\<close>: init, joined regions, checkpoints, barriers.
  \<^item> \<open>Comm\<close>, \<open>Server_State\<close>, \<open>Server_Commit\<close>, \<open>Server_Barrier\<close>, \<open>Server_Threads\<close>: the server; the last one
    puts the commit thread and the rpc thread together as a step relation.
  \<^item> \<open>Frames\<close>, \<open>Cache_Frame\<close>, \<open>Server_Frame\<close>: what whole groups of operations leave alone, as locales
    that are interpreted for each such fact.
  \<^item> \<open>Namespace_Thms\<close>, \<open>File_Thms\<close>, \<open>Eviction_Thms\<close>: what the operations of a client return, store and
    publish, that data written is read back, and the lock of the eviction. \<open>Server_Thms\<close>: what a
    committed message does, and when the threads of a server wait. \<open>Data_Thms\<close>: the store, the formats
    of messages and structs, paths, permissions.
  \<^item> \<open>Client_Frame\<close> and \<open>Refinement\<close>: all operations of a client as steps (namespace, file data,
    eviction, setting up, barriers), invariants of their runs, and that runs of clients implement an
    abstract directory of names.
  \<^item> \<open>Pipeline\<close>: client and server together: the commit queue implements an abstract queue of
    operations on the file system, created files get there, and inline writes do when they are short.
  \<^item> \<open>Async_Rmdir\<close>: the asynchronous rmdir, with its table in shared memory as an explicit store.
    \<open>Async_Client\<close>: the operations of the client with their lookups in the table, which belongs to the
    outside world there; \<open>Async_Thms\<close>: what they do with an empty table, with a path in the table, and
    when a removed directory is made again.
  \<^item> \<open>Cuckoo_Hash\<close> and \<open>Cuckoo_Table\<close>: libcuckoo's table as one thread uses it: the two buckets of a key,
    the search for a cuckoo path, the doubling of the table, after which old buckets are moved only when
    their lock is taken, and the operations on keys. An \<open>assert\<close> on the table that fails and an access
    outside an array are \<open>None\<close>. With one thread no lock is ever found taken: waiting for a lock, the
    unlocking before the search for a path, and the two \<open>assert (!try_lock ())\<close>, which say that the locks
    are held, are no part of the definitions. The exception \<open>libcuckoo_load_factor_too_low\<close> is the outcome \<open>LoadFactorTooLow\<close>.
  \<^item> \<open>Cuckoo_Flat\<close>, \<open>Cuckoo_Lazy\<close>, \<open>Cuckoo_Search\<close>, \<open>Cuckoo_Path\<close>, \<open>Cuckoo_Grow\<close>, \<open>Cuckoo_Insert\<close>, \<open>Cuckoo_Map\<close>: the
    proofs, from plain lists of buckets up to the map that a table stands for. The \<open>view\<close> of a table is
    its list of buckets once all are moved; taking locks does not change it. The search finds a
    shortest path, on which no bucket comes twice, so the first path can be moved.
  \<^item> \<open>Hash_Table\<close> and \<open>Cuckoo_Thms\<close>: the functions of \<open>hash_table.cc\<close> over libcuckoo meet the interface
    \<open>string_table\<close>, the maps of \<open>Client_State\<close>.

  \<^item> \<open>C_Double\<close>: the \<open>double\<close> of C as rationals with rounding to 53 bits, infinities and NaN, and the
    formats of \<open>sprintf\<close>. \<open>Json_Item\<close>, \<open>Json_Parse\<close>, \<open>Json_Print\<close>: cJSON, its items, the parser with
    \<open>cJSON_Minify\<close>, and the printers into separate blocks and into one growing buffer. Memory comes from
    a parameter, \<open>pow (10.0, k)\<close> is another.
  \<^item> \<open>Json_Text\<close>, \<open>Json_Roundtrip\<close>, \<open>Json_Buffered\<close>, \<open>Json_Minify\<close>, \<open>Json_Total\<close>, \<open>Json_Thms\<close>: the text of an
    item as a function, which both printers compute; that the parser reads it back; that minifying the
    formatted text gives the other one; and that the parser ends on texts that are no JSON.

  \<^bold>\<open>How code becomes definitions.\<close> A C function is a HOL function of the same name that passes the
  state of its process (\<open>client\<close> or \<open>server\<close>, both with the environment inside) and returns an
  option: \<open>None\<close> stands for a call that does not return normally, because of undefined behaviour
  or because its fuel ran out. Every early return is a value. Loops that can go on forever (\<open>goto
  retry\<close>, waiting for a file to appear, eviction) take fuel as their first argument \<open>n\<close>; theorems
  that an operation returns hold for every positive fuel, so one round is enough there (two for
  \<open>rmdir_post\<close>; 64 for the insertion into a table of libcuckoo, whose hashpower is below 64 and grows in
  every round; the length of the text for the parser of cJSON, whose every call is on a shorter rest), and theorems that it never returns hold for all fuel. A busy wait on a variable of another thread gives \<open>Spin\<close>.

  \<^bold>\<open>Configuration.\<close> The constants are those of the sources: \<open>ASYNC_RPC\<close> and \<open>SERI_TYPE\<close> are 0,
  \<open>PARENT_CHECK\<close>, \<open>ROOT_EMPTY\<close> and \<open>INLINE_ASYNC_WB\<close> are 1; the three theories \<open>Async_Rmdir\<close>, \<open>Async_Client\<close> and \<open>Async_Thms\<close> are for
  \<open>ASYNC_RPC = 1\<close>.

  \<^bold>\<open>Not modelled.\<close> The calls of cJSON in \<open>pacon.c\<close>, which \<open>SERI_TYPE\<close> switches off; of cJSON itself
  \<open>cJSON_Delete\<close>, \<open>cJSON_InitHooks\<close> and \<open>cJSON_GetErrorPtr\<close> (memory that is given back has no effect, the
  hook is a parameter, the error position is part of a result), and of libcuckoo what the repository does not call (\<open>rehash\<close>, \<open>reserve\<close>,
  locked tables, iterators) and what only a second thread makes happen (\<open>hashpower_changed\<close>). The tests. \<open>free_pacon\<close>, \<open>dmkv_free\<close> and
  \<open>stop_pacon_server\<close>, which only release handles, and the functions of \<open>pacon.c\<close> with an empty body.
  Output with \<open>printf\<close> has no effect in the model.
\<close>

end
